(* ===== verification/Prelude.thy ===== *)
theory Prelude
  imports Main "HOL-Library.Word" "HOL-Library.List_Lexorder" "HOL-Library.Char_ord"
    "HOL-Library.Product_Lexorder" "HOL-Library.Multiset"
begin

text \<open>
  The shared vocabulary of the development: Rust's \<open>Result\<close> as a sum, Rust strings as
  UTF-8 byte sequences, decimal numbers, 64-bit integers, and \<open>BTreeMap\<close> as a strictly
  sorted association list.

  A Rust \<open>String\<close> is a sequence of UTF-8 bytes, so it is the HOL type \<open>string\<close> (a list of
  8-bit characters): \<open>len()\<close> is \<open>length\<close>, \<open>chars()\<close> decodes scalar values, and the derived
  order of Rust strings (bytewise lexicographic, as SQLite's BINARY collation) is the
  lexicographic order of \<open>List_Lexorder\<close> over \<open>Char_ord\<close>.
\<close>

named_theorems result_simps \<open>how a sequence of fallible calls succeeds or fails\<close>

type_synonym u64 = "64 word"
type_synonym byte = "8 word"

section \<open>Results\<close>

text \<open>The \<open>?\<close> operator: stop at the first error.\<close>

definition and_then :: "'e + 'a \<Rightarrow> ('a \<Rightarrow> 'e + 'b) \<Rightarrow> 'e + 'b" where
  "and_then r f = (case r of Inl e \<Rightarrow> Inl e | Inr x \<Rightarrow> f x)"

definition map_err :: "('e \<Rightarrow> 'f) \<Rightarrow> 'e + 'a \<Rightarrow> 'f + 'a" where
  "map_err g r = (case r of Inl e \<Rightarrow> Inl (g e) | Inr x \<Rightarrow> Inr x)"

definition ok_or :: "'e \<Rightarrow> 'a option \<Rightarrow> 'e + 'a" where
  "ok_or e x = (case x of None \<Rightarrow> Inl e | Some y \<Rightarrow> Inr y)"

definition ensure :: "bool \<Rightarrow> 'e \<Rightarrow> 'e + unit" where
  "ensure b e = (if b then Inr () else Inl e)"

text \<open>\<open>iter().map(f).collect::<Result<Vec<_>, _>>()\<close>: the first error wins.\<close>

fun try_map :: "('a \<Rightarrow> 'e + 'b) \<Rightarrow> 'a list \<Rightarrow> 'e + 'b list" where
  "try_map f [] = Inr []"
| "try_map f (x # xs) = and_then (f x) (\<lambda>y. and_then (try_map f xs) (\<lambda>ys. Inr (y # ys)))"

lemma and_then_Inr [simp]: "and_then (Inr x) f = f x"
  and and_then_Inl [simp]: "and_then (Inl e) f = Inl e"
  by (simp_all add: and_then_def)

lemma and_then_eq_Inr [result_simps]: "and_then r f = Inr y \<longleftrightarrow> (\<exists>x. r = Inr x \<and> f x = Inr y)"
  by (cases r) auto

lemma and_then_eq_Inl [result_simps]:
  "and_then r f = Inl e \<longleftrightarrow> r = Inl e \<or> (\<exists>x. r = Inr x \<and> f x = Inl e)"
  by (cases r) auto

lemma map_err_simps [simp]: "map_err g (Inr x) = Inr x" "map_err g (Inl e) = Inl (g e)"
  by (simp_all add: map_err_def)

lemma map_err_eq_Inr [result_simps]: "map_err g r = Inr x \<longleftrightarrow> r = Inr x"
  by (cases r) auto

lemma map_err_eq_Inl [result_simps]: "map_err g r = Inl e \<longleftrightarrow> (\<exists>e'. r = Inl e' \<and> e = g e')"
  by (cases r) auto

lemma ok_or_simps [simp]: "ok_or e (Some x) = Inr x" "ok_or e None = Inl e"
  by (simp_all add: ok_or_def)

lemma ok_or_eq_Inr [result_simps]: "ok_or e r = Inr x \<longleftrightarrow> r = Some x"
  by (cases r) auto

lemma ensure_eq_Inr [result_simps]: "ensure b e = Inr u \<longleftrightarrow> b"
  by (simp add: ensure_def)

lemma ensure_simps [simp]: "ensure True e = Inr ()" "ensure False e = Inl e"
  by (simp_all add: ensure_def)

lemma try_map_eq_Inr:
  "try_map f xs = Inr ys \<longleftrightarrow> list_all2 (\<lambda>x y. f x = Inr y) xs ys"
  by (induction xs arbitrary: ys) (auto simp: result_simps list_all2_Cons1)

lemma try_map_total: "(\<And>x. x \<in> set xs \<Longrightarrow> f x = Inr (g x)) \<Longrightarrow> try_map f xs = Inr (map g xs)"
  by (induction xs) auto

section \<open>UTF-8 strings\<close>

definition is_scalar :: "nat \<Rightarrow> bool" where
  "is_scalar n \<longleftrightarrow> n < 0xD800 \<or> (0xE000 \<le> n \<and> n < 0x110000)"

definition utf8_encode_char :: "nat \<Rightarrow> string" where
  "utf8_encode_char n =
     (if n < 0x80 then [char_of n]
      else if n < 0x800 then [char_of (0xC0 + n div 64), char_of (0x80 + n mod 64)]
      else if n < 0x10000 then
        [char_of (0xE0 + n div 4096), char_of (0x80 + n div 64 mod 64), char_of (0x80 + n mod 64)]
      else [char_of (0xF0 + n div 262144), char_of (0x80 + n div 4096 mod 64),
            char_of (0x80 + n div 64 mod 64), char_of (0x80 + n mod 64)])"

definition utf8_encode :: "nat list \<Rightarrow> string" where
  "utf8_encode ns = concat (map utf8_encode_char ns)"

text \<open>\<open>str::chars\<close>: the scalar values of a (valid) UTF-8 string.\<close>

fun utf8_chars :: "string \<Rightarrow> nat list" where
  "utf8_chars [] = []"
| "utf8_chars (b # bs) =
     (let x = of_char b in
      if x < 0x80 then x # utf8_chars bs
      else if x < 0xE0 then
        (case bs of c1 # r \<Rightarrow> (x mod 32 * 64 + of_char c1 mod 64) # utf8_chars r | _ \<Rightarrow> [])
      else if x < 0xF0 then
        (case bs of c1 # c2 # r \<Rightarrow>
           (x mod 16 * 4096 + of_char c1 mod 64 * 64 + of_char c2 mod 64) # utf8_chars r
         | _ \<Rightarrow> [])
      else
        (case bs of c1 # c2 # c3 # r \<Rightarrow>
           (x mod 8 * 262144 + of_char c1 mod 64 * 4096 + of_char c2 mod 64 * 64
              + of_char c3 mod 64) # utf8_chars r
         | _ \<Rightarrow> []))"

definition valid_utf8 :: "string \<Rightarrow> bool" where
  "valid_utf8 s \<longleftrightarrow> list_all is_scalar (utf8_chars s) \<and> utf8_encode (utf8_chars s) = s"

text \<open>\<open>chars().count()\<close> counts the bytes that are not continuation bytes.\<close>

definition is_continuation :: "char \<Rightarrow> bool" where
  "is_continuation c \<longleftrightarrow> 0x80 \<le> (of_char c :: nat) \<and> (of_char c :: nat) < 0xC0"

definition chars_count :: "string \<Rightarrow> nat" where
  "chars_count s = length (filter (\<lambda>c. \<not> is_continuation c) s)"

text \<open>\<open>char::is_control\<close> (general category Cc) and \<open>char::is_whitespace\<close> (White_Space).\<close>

definition is_control :: "nat \<Rightarrow> bool" where
  "is_control n \<longleftrightarrow> n < 0x20 \<or> (0x7F \<le> n \<and> n \<le> 0x9F)"

definition is_whitespace :: "nat \<Rightarrow> bool" where
  "is_whitespace n \<longleftrightarrow>
     (9 \<le> n \<and> n \<le> 13) \<or> n = 0x20 \<or> n = 0x85 \<or> n = 0xA0 \<or> n = 0x1680
     \<or> (0x2000 \<le> n \<and> n \<le> 0x200A) \<or> n = 0x2028 \<or> n = 0x2029 \<or> n = 0x202F \<or> n = 0x205F
     \<or> n = 0x3000"

definition trim_chars :: "nat list \<Rightarrow> nat list" where
  "trim_chars ns = rev (dropWhile is_whitespace (rev (dropWhile is_whitespace ns)))"

definition trim :: "string \<Rightarrow> string" where
  "trim s = utf8_encode (trim_chars (utf8_chars s))"

lemma utf8_encode_simps [simp]:
  "utf8_encode [] = []"
  "utf8_encode (n # ns) = utf8_encode_char n @ utf8_encode ns"
  by (simp_all add: utf8_encode_def)

lemma of_char_char_of_lt: "n < 256 \<Longrightarrow> of_char (char_of n :: char) = (n :: nat)"
  by simp

lemma offset_mod: "x < m \<Longrightarrow> (k * m + x) mod m = (x :: nat)"
  by simp

lemma base64_digits2: "n div 4096 * 4096 + n div 64 mod 64 * 64 + n mod 64 = (n :: nat)"
proof -
  have "n div 4096 = n div 64 div 64" by (simp add: div_mult2_eq [symmetric])
  then show ?thesis
    using div_mult_mod_eq [of "n div 64" 64] div_mult_mod_eq [of n 64] by linarith
qed

lemma base64_digits3:
  "n div 262144 * 262144 + n div 4096 mod 64 * 4096 + n div 64 mod 64 * 64 + n mod 64 = (n :: nat)"
proof -
  have "n div 262144 = n div 4096 div 64" by (simp add: div_mult2_eq [symmetric])
  then show ?thesis
    using div_mult_mod_eq [of "n div 4096" 64] base64_digits2 [of n] by linarith
qed

lemma utf8_chars_encode_char:
  assumes "n < 0x110000"
  shows "utf8_chars (utf8_encode_char n @ s) = n # utf8_chars s"
proof -
  have c: "(128 + x mod 64) mod 64 = x mod 64" "128 + x mod 64 < 256" for x :: nat
    using offset_mod [of "x mod 64" 64 2] mod_less_divisor [of 64 x] by simp_all
  consider "n < 0x80" | "0x80 \<le> n" "n < 0x800" | "0x800 \<le> n" "n < 0x10000" | "0x10000 \<le> n"
    by linarith
  then show ?thesis
  proof cases
    case 1
    then show ?thesis by (simp add: utf8_encode_char_def)
  next
    case 2
    have "n div 64 < 32" using 2 by (simp add: div_less_iff_less_mult)
    then have "(192 + n div 64) mod 32 = n div 64" "192 + n div 64 < 224"
      using offset_mod [of "n div 64" 32 6] by simp_all
    then show ?thesis using 2 c by (simp add: utf8_encode_char_def of_char_char_of_lt)
  next
    case 3
    have "n div 4096 < 16" using 3 by (simp add: div_less_iff_less_mult)
    then have "(224 + n div 4096) mod 16 = n div 4096" "224 + n div 4096 < 240"
      using offset_mod [of "n div 4096" 16 14] by simp_all
    then show ?thesis using 3 c base64_digits2 [of n]
      by (simp add: utf8_encode_char_def of_char_char_of_lt)
  next
    case 4
    have "n div 262144 < 8" using assms by (simp add: div_less_iff_less_mult)
    then have "(240 + n div 262144) mod 8 = n div 262144" "240 + n div 262144 < 256"
      using offset_mod [of "n div 262144" 8 30] by simp_all
    then show ?thesis using 4 c base64_digits3 [of n]
      by (simp add: utf8_encode_char_def of_char_char_of_lt)
  qed
qed

lemma is_scalar_lt: "is_scalar n \<Longrightarrow> n < 0x110000"
  by (auto simp: is_scalar_def)

lemma utf8_chars_encode [simp]: "list_all is_scalar ns \<Longrightarrow> utf8_chars (utf8_encode ns) = ns"
  by (induction ns) (auto simp: utf8_chars_encode_char is_scalar_lt simp del: utf8_chars.simps(2))

lemma valid_utf8_encode: "list_all is_scalar ns \<Longrightarrow> valid_utf8 (utf8_encode ns)"
  by (simp add: valid_utf8_def)

lemma chars_count_append [simp]: "chars_count (s @ t) = chars_count s + chars_count t"
  by (simp add: chars_count_def)

lemma chars_count_Nil [simp]: "chars_count [] = 0"
  by (simp add: chars_count_def)

lemma chars_count_encode_char: "n < 0x110000 \<Longrightarrow> chars_count (utf8_encode_char n) = 1"
  by (auto simp: chars_count_def utf8_encode_char_def is_continuation_def of_char_char_of_lt
        div_less_iff_less_mult)

lemma chars_count_encode: "list_all is_scalar ns \<Longrightarrow> chars_count (utf8_encode ns) = length ns"
  by (induction ns) (auto simp: chars_count_encode_char is_scalar_lt)

lemma chars_count_valid: "valid_utf8 s \<Longrightarrow> chars_count s = length (utf8_chars s)"
  using chars_count_encode [of "utf8_chars s"] by (auto simp: valid_utf8_def)

lemma trim_chars_Nil [simp]: "trim_chars [] = []"
  by (simp add: trim_chars_def)

lemma set_trim_chars: "set (trim_chars ns) \<subseteq> set ns"
  by (auto simp: trim_chars_def dest!: set_dropWhileD)

lemma list_all_trim_chars: "list_all P ns \<Longrightarrow> list_all P (trim_chars ns)"
  using set_trim_chars [of ns] by (auto simp: list_all_iff)

lemma dropWhile_hd: "dropWhile P xs = [] \<or> \<not> P (hd (dropWhile P xs))"
  using hd_dropWhile by blast

lemma trim_chars_edges:
  assumes "trim_chars ns \<noteq> []"
  shows "\<not> is_whitespace (hd (trim_chars ns))" and "\<not> is_whitespace (last (trim_chars ns))"
proof -
  let ?d = "dropWhile is_whitespace ns"
  let ?r = "dropWhile is_whitespace (rev ?d)"
  have r: "?r \<noteq> []" using assms by (simp add: trim_chars_def)
  obtain pre where pre: "rev ?d = pre @ ?r"
    by (metis takeWhile_dropWhile_id)
  have "?d = rev ?r @ rev pre" using pre by (metis rev_append rev_rev_ident)
  then have "hd ?d = hd (rev ?r)" using r by (metis hd_append2 rev_is_Nil_conv)
  moreover have "?d \<noteq> []" using r by (metis dropWhile.simps(1) rev.simps(1))
  ultimately show "\<not> is_whitespace (hd (trim_chars ns))"
    using dropWhile_hd [of is_whitespace ns] by (metis trim_chars_def)
  show "\<not> is_whitespace (last (trim_chars ns))"
    using dropWhile_hd [of is_whitespace "rev ?d"] r by (metis last_rev trim_chars_def)
qed

lemma trim_chars_id:
  "ns \<noteq> [] \<Longrightarrow> \<not> is_whitespace (hd ns) \<Longrightarrow> \<not> is_whitespace (last ns) \<Longrightarrow> trim_chars ns = ns"
  by (metis dropWhile_eq_self_iff hd_rev rev_is_Nil_conv rev_rev_ident trim_chars_def)

lemma trim_chars_idem [simp]: "trim_chars (trim_chars ns) = trim_chars ns"
  by (cases "trim_chars ns = []") (auto intro: trim_chars_id dest: trim_chars_edges)

lemma utf8_chars_trim: "valid_utf8 s \<Longrightarrow> utf8_chars (trim s) = trim_chars (utf8_chars s)"
  by (simp add: trim_def valid_utf8_def list_all_trim_chars)

lemma valid_utf8_trim: "valid_utf8 s \<Longrightarrow> valid_utf8 (trim s)"
  by (simp add: trim_def valid_utf8_encode list_all_trim_chars valid_utf8_def)

lemma trim_idem: "valid_utf8 s \<Longrightarrow> trim (trim s) = trim s"
  by (simp add: trim_def valid_utf8_def list_all_trim_chars)

section \<open>Decimal numbers\<close>

text \<open>\<open>to_string\<close> of an unsigned integer, and \<open>str::parse\<close> for one: an optional plus sign,
  at least one digit, nothing else, and a value that fits.\<close>

fun show_nat :: "nat \<Rightarrow> string" where
  "show_nat n = (if n < 10 then [char_of (48 + n)] else show_nat (n div 10) @ [char_of (48 + n mod 10)])"

declare show_nat.simps [simp del]

definition is_digit :: "char \<Rightarrow> bool" where
  "is_digit c \<longleftrightarrow> 48 \<le> (of_char c :: nat) \<and> (of_char c :: nat) \<le> 57"

definition digits_value :: "string \<Rightarrow> nat" where
  "digits_value s = foldl (\<lambda>v c. v * 10 + (of_char c - 48)) 0 s"

definition parse_unsigned :: "nat \<Rightarrow> string \<Rightarrow> nat option" where
  "parse_unsigned bits s =
     (let ds = (case s of c # r \<Rightarrow> if c = CHR ''+'' then r else s | [] \<Rightarrow> []) in
      if ds \<noteq> [] \<and> list_all is_digit ds \<and> digits_value ds < 2 ^ bits
      then Some (digits_value ds) else None)"

abbreviation parse_u64 :: "string \<Rightarrow> nat option" where
  "parse_u64 \<equiv> parse_unsigned 64"

lemma show_nat_not_Nil [simp]: "show_nat n \<noteq> []"
  by (subst show_nat.simps) simp

lemma is_digit_char_of: "(d :: nat) < 10 \<Longrightarrow> is_digit (char_of (48 + d))"
  by (simp add: is_digit_def of_char_char_of_lt)

lemma show_nat_digits: "list_all is_digit (show_nat n)"
proof (induction n rule: show_nat.induct)
  case (1 n)
  then show ?case
    by (cases "n < 10") (auto simp: show_nat.simps [of n] is_digit_char_of)
qed

lemma digits_value_show_nat [simp]: "digits_value (show_nat n) = n"
proof (induction n rule: show_nat.induct)
  case (1 n)
  then show ?case
    by (cases "n < 10") (auto simp: show_nat.simps [of n] digits_value_def of_char_char_of_lt)
qed

lemma parse_show_nat: "n < 2 ^ bits \<Longrightarrow> parse_unsigned bits (show_nat n) = Some n"
proof -
  assume n: "n < 2 ^ bits"
  obtain c r where cr: "show_nat n = c # r" by (cases "show_nat n") auto
  then have "is_digit c" using show_nat_digits [of n] by simp
  then have "c \<noteq> CHR ''+''" by (auto simp: is_digit_def)
  then show ?thesis using n cr show_nat_digits [of n] digits_value_show_nat [of n]
    by (simp add: parse_unsigned_def)
qed

lemma parse_unsigned_bound: "parse_unsigned bits s = Some n \<Longrightarrow> n < 2 ^ bits"
  by (auto simp: parse_unsigned_def Let_def split: if_splits)

section \<open>64-bit integers\<close>

definition i64_max :: int where
  "i64_max = 2 ^ 63 - 1"

text \<open>\<open>i64::try_from(u64)\<close> and the cast \<open>as u64\<close> of an \<open>i64\<close>.\<close>

definition i64_of_u64 :: "u64 \<Rightarrow> int option" where
  "i64_of_u64 w = (if uint w \<le> i64_max then Some (uint w) else None)"

definition as_u64 :: "int \<Rightarrow> u64" where
  "as_u64 i = word_of_int i"

lemma i64_of_as_u64: "0 \<le> i \<Longrightarrow> i \<le> i64_max \<Longrightarrow> i64_of_u64 (as_u64 i) = Some i"
  by (simp add: i64_of_u64_def as_u64_def i64_max_def uint_word_of_int take_bit_int_eq_self_iff)

section \<open>Ordered maps\<close>

text \<open>The contract clients of \<open>BTreeMap\<close> rely on: lookups follow insertions and removals,
  and iteration visits the keys in strictly increasing order.\<close>

locale ordered_map =
  fixes get :: "'m \<Rightarrow> 'k :: linorder \<Rightarrow> 'v option"
    and insert :: "'k \<Rightarrow> 'v \<Rightarrow> 'm \<Rightarrow> 'm"
    and remove :: "'k \<Rightarrow> 'm \<Rightarrow> 'm"
    and entries :: "'m \<Rightarrow> ('k \<times> 'v) list"
    and ordered :: "'m \<Rightarrow> bool"
  assumes get_insert: "get (insert k v m) = (get m)(k \<mapsto> v)"
    and get_remove: "ordered m \<Longrightarrow> get (remove k m) = (get m)(k := None)"
    and ordered_insert: "ordered m \<Longrightarrow> ordered (insert k v m)"
    and ordered_remove: "ordered m \<Longrightarrow> ordered (remove k m)"
    and entries_sorted: "ordered m \<Longrightarrow> sorted_wrt (<) (map fst (entries m))"
    and entries_get: "ordered m \<Longrightarrow> (k, v) \<in> set (entries m) \<longleftrightarrow> get m k = Some v"
begin

lemma keys_distinct: "ordered m \<Longrightarrow> distinct (map fst (entries m))"
  using entries_sorted strict_sorted_iff by blast

lemma dom_insert: "dom (get (insert k v m)) = Set.insert k (dom (get m))"
  by (simp add: get_insert)

lemma entries_dom: "ordered m \<Longrightarrow> fst ` set (entries m) = dom (get m)"
proof -
  assume m: "ordered m"
  have "k \<in> fst ` set (entries m) \<longleftrightarrow> (\<exists>v. (k, v) \<in> set (entries m))" for k by force
  then show ?thesis by (auto simp: entries_get [OF m])
qed

lemma size_insert:
  assumes "ordered m"
  shows "length (entries (insert k v m)) = (if get m k = None then 1 else 0) + length (entries m)"
proof -
  have card: "length (entries m) = card (dom (get m))" if "ordered m" for m
    using distinct_card [OF keys_distinct [OF that]] entries_dom [OF that] by simp
  have "finite (dom (get m))"
    using entries_dom [OF assms] by (metis finite_imageI List.finite_set)
  then show ?thesis
    using card [OF assms] card [OF ordered_insert [OF assms]]
    by (simp add: dom_insert card_insert_if domIff)
qed

lemma size_remove:
  assumes "ordered m"
  shows "length (entries (remove k m)) = length (entries m) - (if get m k = None then 0 else 1)"
proof -
  have card: "length (entries m) = card (dom (get m))" if "ordered m" for m
    using distinct_card [OF keys_distinct [OF that]] entries_dom [OF that] by simp
  have fin: "finite (dom (get m))"
    using entries_dom [OF assms] by (metis finite_imageI List.finite_set)
  have "dom (get (remove k m)) = dom (get m) - {k}"
    by (simp add: get_remove assms)
  then show ?thesis
    using card [OF assms] card [OF ordered_remove [OF assms]] fin
    by (auto simp: card_Diff_singleton_if domIff)
qed

end

text \<open>\<open>BTreeMap\<close> as a strictly sorted association list.\<close>

type_synonym ('k, 'v) btree_map = "('k \<times> 'v) list"

definition bt_get :: "('k, 'v) btree_map \<Rightarrow> 'k \<Rightarrow> 'v option" where
  "bt_get m k = map_of m k"

fun bt_insert :: "'k :: linorder \<Rightarrow> 'v \<Rightarrow> ('k, 'v) btree_map \<Rightarrow> ('k, 'v) btree_map" where
  "bt_insert k v [] = [(k, v)]"
| "bt_insert k v ((k', v') # m) =
     (if k < k' then (k, v) # (k', v') # m
      else if k = k' then (k, v) # m
      else (k', v') # bt_insert k v m)"

definition bt_remove :: "'k \<Rightarrow> ('k, 'v) btree_map \<Rightarrow> ('k, 'v) btree_map" where
  "bt_remove k m = filter (\<lambda>(k', _). k' \<noteq> k) m"

definition bt_ordered :: "('k :: linorder, 'v) btree_map \<Rightarrow> bool" where
  "bt_ordered m \<longleftrightarrow> sorted_wrt (<) (map fst m)"

lemma fst_set_bt_insert: "fst ` set (bt_insert k v m) = Set.insert k (fst ` set m)"
  by (induction k v m rule: bt_insert.induct) auto

lemma bt_ordered_insert: "bt_ordered m \<Longrightarrow> bt_ordered (bt_insert k v m)"
  unfolding bt_ordered_def
proof (induction k v m rule: bt_insert.induct)
  case (2 k v k' v' m)
  then show ?case
    using fst_set_bt_insert [of k v m] by auto
qed simp

lemma bt_get_insert: "bt_get (bt_insert k v m) = (bt_get m)(k \<mapsto> v)"
  unfolding bt_get_def
  by (induction k v m rule: bt_insert.induct) (auto simp: fun_eq_iff)

lemma bt_get_remove: "bt_get (bt_remove k m) = (bt_get m)(k := None)"
  unfolding bt_get_def bt_remove_def by (induction m) (auto simp: fun_eq_iff)

lemma bt_ordered_remove: "bt_ordered m \<Longrightarrow> bt_ordered (bt_remove k m)"
  unfolding bt_ordered_def bt_remove_def by (induction m) auto

lemma bt_entries_get: "bt_ordered m \<Longrightarrow> (k, v) \<in> set m \<longleftrightarrow> bt_get m k = Some v"
  unfolding bt_ordered_def bt_get_def
  by (metis map_of_eq_Some_iff strict_sorted_iff)

lemma bt_ordered_Nil [simp]: "bt_ordered []"
  by (simp add: bt_ordered_def)

lemma bt_get_Nil [simp]: "bt_get [] = Map.empty"
  by (simp add: bt_get_def fun_eq_iff)

lemma map_add_left [simp]: "m2 k = None \<Longrightarrow> (m1 ++ m2) k = m1 k"
  by (simp add: map_add_def)

lemma map_add_right [simp]: "m1 k = None \<Longrightarrow> (m1 ++ m2) k = m2 k"
  by (simp add: map_add_def split: option.splits)

interpretation bt: ordered_map bt_get bt_insert bt_remove "\<lambda>m. m" bt_ordered
proof unfold_locales
  show "sorted_wrt (<) (map fst m)" if "bt_ordered m" for m :: "('a, 'b) btree_map"
    using that by (simp add: bt_ordered_def)
qed (simp_all add: bt_get_insert bt_get_remove bt_ordered_insert bt_ordered_remove bt_entries_get)

end
