(* ===== verification/Domain.thy ===== *)
theory Domain
  imports Prelude
begin

text \<open>
  The journal's domain types, limits and validation
  (crates/journal-domain/src/lib.rs): principals, spaces, relations, record inputs and
  records as Isabelle records, the validation errors as a datatype, and the validation
  functions with the source's order of checks. \<open>validate_record_input\<close> is characterised
  exactly by the declarative predicate \<open>well_formed_input\<close>.
\<close>

section \<open>Limits\<close>

definition MAX_CONTENT_BYTES :: nat where
  "MAX_CONTENT_BYTES = 64 * 1024"

definition MAX_RELATIONS :: nat where
  "MAX_RELATIONS = 32"

definition MAX_ATTENTION_RECIPIENTS :: nat where
  "MAX_ATTENTION_RECIPIENTS = 16"

definition MAX_PAGE_SIZE :: nat where
  "MAX_PAGE_SIZE = 100"

definition MAX_IDENTIFIER_CHARS :: nat where
  "MAX_IDENTIFIER_CHARS = 128"

definition MAX_TITLE_CHARS :: nat where
  "MAX_TITLE_CHARS = 200"

lemmas limit_defs = MAX_CONTENT_BYTES_def MAX_RELATIONS_def MAX_ATTENTION_RECIPIENTS_def
  MAX_PAGE_SIZE_def MAX_IDENTIFIER_CHARS_def MAX_TITLE_CHARS_def

section \<open>Data\<close>

record principal =
  p_id :: string
  p_handle :: string
  p_display_name :: string
  p_description :: "string option"
  p_profile_revision :: int
  p_created_at :: string
  p_disabled :: bool

datatype space_access = Public

fun space_access_as_str :: "space_access \<Rightarrow> string" where
  "space_access_as_str Public = ''public''"

record limits =
  l_content_bytes :: nat
  l_relations :: nat
  l_attention_recipients :: nat
  l_page_size :: nat

definition default_limits :: limits where
  "default_limits = \<lparr>l_content_bytes = MAX_CONTENT_BYTES, l_relations = MAX_RELATIONS,
     l_attention_recipients = MAX_ATTENTION_RECIPIENTS, l_page_size = MAX_PAGE_SIZE\<rparr>"

record space =
  s_id :: string
  s_name :: string
  s_access :: space_access
  s_archived_at :: "string option"
  s_created_at :: string
  s_limits :: limits

datatype relation_type = ReplyTo | Supersedes | Tombstones | RefersTo | Acknowledges

fun relation_as_str :: "relation_type \<Rightarrow> string" where
  "relation_as_str ReplyTo = ''reply-to''"
| "relation_as_str Supersedes = ''supersedes''"
| "relation_as_str Tombstones = ''tombstones''"
| "relation_as_str RefersTo = ''refers-to''"
| "relation_as_str Acknowledges = ''acknowledges''"

definition RELATION_TYPES :: "relation_type list" where
  "RELATION_TYPES = [ReplyTo, Supersedes, Tombstones, RefersTo, Acknowledges]"

text \<open>The constant array lists the whole vocabulary, so it makes the type enumerable.\<close>

instantiation relation_type :: enum
begin

definition enum_relation_type :: "relation_type list" where
  "enum_relation_type = RELATION_TYPES"

definition enum_all_relation_type :: "(relation_type \<Rightarrow> bool) \<Rightarrow> bool" where
  "enum_all_relation_type P \<longleftrightarrow> list_all P RELATION_TYPES"

definition enum_ex_relation_type :: "(relation_type \<Rightarrow> bool) \<Rightarrow> bool" where
  "enum_ex_relation_type P \<longleftrightarrow> list_ex P RELATION_TYPES"

instance
proof
  show "(UNIV :: relation_type set) = set enum_class.enum"
    by (auto simp: enum_relation_type_def RELATION_TYPES_def intro: relation_type.exhaust)
  show "distinct (enum_class.enum :: relation_type list)"
    by (simp add: enum_relation_type_def RELATION_TYPES_def)
  show "enum_class.enum_all P \<longleftrightarrow> Ball UNIV P" for P :: "relation_type \<Rightarrow> bool"
    by (auto simp: enum_all_relation_type_def RELATION_TYPES_def) (metis relation_type.exhaust)
  show "enum_class.enum_ex P \<longleftrightarrow> Bex UNIV P" for P :: "relation_type \<Rightarrow> bool"
    by (auto simp: enum_ex_relation_type_def RELATION_TYPES_def) (metis relation_type.exhaust)
qed

end

text \<open>\<open>RELATION_TYPES.into_iter().find(|t| t.as_str() == s)\<close>, the parser both the query
  layer and the record loader use.\<close>

definition find_relation_type :: "string \<Rightarrow> relation_type option" where
  "find_relation_type s = find (\<lambda>t. relation_as_str t = s) RELATION_TYPES"

record relation =
  rl_type :: relation_type
  rl_record_id :: string

record record_input =
  in_kind :: string
  in_content :: string
  in_run_id :: "string option"
  in_attention :: "string list"
  in_routing_key :: "string option"
  in_relations :: "relation list"
  in_title :: "string option"

record journal_record =
  r_id :: string
  r_space_id :: string
  r_seq :: int
  r_author :: string
  r_kind :: string
  r_content :: string
  r_run_id :: "string option"
  r_created_at :: string
  r_attention :: "string list"
  r_routing_key :: "string option"
  r_relations :: "relation list"
  r_title :: "string option"

record append_result =
  ar_record :: journal_record
  ar_mailbox_created :: nat
  ar_replayed :: bool

datatype validation_error =
    InvalidIdentifier string
  | EmptyContent
  | ContentTooLarge nat
  | TooManyRelations nat
  | TooManyAttention nat
  | DuplicateAttention string
  | MultipleReplyTo relation_type
  | InvalidPageSize nat
  | InvalidTitle
  | TitleControlCharacters

section \<open>Validation\<close>

definition normalize_title :: "string option \<Rightarrow> string option" where
  "normalize_title raw =
     Option.bind raw (\<lambda>title. let trimmed = trim title in if trimmed = [] then None else Some trimmed)"

definition validate_title :: "string \<Rightarrow> validation_error + unit" where
  "validate_title title =
     (if chars_count title > MAX_TITLE_CHARS then Inl InvalidTitle
      else if list_ex is_control (utf8_chars title) then Inl TitleControlCharacters
      else Inr ())"

definition validate_page_size :: "nat \<Rightarrow> validation_error + unit" where
  "validate_page_size n =
     (if \<not> (1 \<le> n \<and> n \<le> MAX_PAGE_SIZE) then Inl (InvalidPageSize MAX_PAGE_SIZE) else Inr ())"

definition validate_identifier :: "string \<Rightarrow> string \<Rightarrow> validation_error + unit" where
  "validate_identifier field value =
     (if value = [] \<or> chars_count value > MAX_IDENTIFIER_CHARS
      then Inl (InvalidIdentifier field) else Inr ())"

text \<open>The loop over \<open>attention\<close> with its set of names seen so far.\<close>

fun validate_attention :: "string set \<Rightarrow> string list \<Rightarrow> validation_error + unit" where
  "validate_attention seen [] = Inr ()"
| "validate_attention seen (prin # rest) =
     and_then (validate_identifier ''attention principal'' prin) (\<lambda>_.
       if prin \<in> seen then Inl (DuplicateAttention prin)
       else validate_attention (insert prin seen) rest)"

text \<open>The loop over \<open>relations\<close> with its counter of reply-to relations.\<close>

fun validate_relations :: "nat \<Rightarrow> relation list \<Rightarrow> validation_error + unit" where
  "validate_relations reply_to_count [] = Inr ()"
| "validate_relations reply_to_count (rel # rest) =
     and_then (validate_identifier ''relation record'' (rl_record_id rel)) (\<lambda>_.
       if rl_type rel = ReplyTo then
         (if reply_to_count + 1 > 1 then Inl (MultipleReplyTo ReplyTo)
          else validate_relations (reply_to_count + 1) rest)
       else validate_relations reply_to_count rest)"

text \<open>\<open>opt.filter(|s| !s.is_empty())\<close> followed by a check.\<close>

definition validate_non_empty :: "string \<Rightarrow> string option \<Rightarrow> validation_error + unit" where
  "validate_non_empty field value =
     (case value of Some v \<Rightarrow> if v \<noteq> [] then validate_identifier field v else Inr () | None \<Rightarrow> Inr ())"

definition validate_record_input :: "record_input \<Rightarrow> validation_error + unit" where
  "validate_record_input self =
     and_then (validate_identifier ''kind'' (in_kind self)) (\<lambda>_.
     if in_content self = [] then Inl EmptyContent
     else if length (in_content self) > MAX_CONTENT_BYTES then Inl (ContentTooLarge MAX_CONTENT_BYTES)
     else if length (in_relations self) > MAX_RELATIONS then Inl (TooManyRelations MAX_RELATIONS)
     else if length (in_attention self) > MAX_ATTENTION_RECIPIENTS
       then Inl (TooManyAttention MAX_ATTENTION_RECIPIENTS)
     else
       and_then (validate_attention {} (in_attention self)) (\<lambda>_.
       and_then (validate_non_empty ''run_id'' (in_run_id self)) (\<lambda>_.
       and_then (validate_relations 0 (in_relations self)) (\<lambda>_.
       and_then (validate_non_empty ''routing_key'' (in_routing_key self)) (\<lambda>_.
       case normalize_title (in_title self) of
         Some title \<Rightarrow> validate_title title
       | None \<Rightarrow> Inr ())))))"

section \<open>What validation accepts\<close>

definition valid_identifier :: "string \<Rightarrow> bool" where
  "valid_identifier v \<longleftrightarrow> 1 \<le> length v \<and> chars_count v \<le> MAX_IDENTIFIER_CHARS"

definition valid_title :: "string \<Rightarrow> bool" where
  "valid_title t \<longleftrightarrow> chars_count t \<le> MAX_TITLE_CHARS \<and> \<not> list_ex is_control (utf8_chars t)"

definition well_formed_input :: "record_input \<Rightarrow> bool" where
  "well_formed_input i \<longleftrightarrow>
     valid_identifier (in_kind i)
     \<and> 1 \<le> length (in_content i) \<and> length (in_content i) \<le> MAX_CONTENT_BYTES
     \<and> length (in_relations i) \<le> MAX_RELATIONS
     \<and> length (in_attention i) \<le> MAX_ATTENTION_RECIPIENTS
     \<and> list_all valid_identifier (in_attention i) \<and> distinct (in_attention i)
     \<and> list_all (\<lambda>r. valid_identifier (rl_record_id r)) (in_relations i)
     \<and> length (filter (\<lambda>r. rl_type r = ReplyTo) (in_relations i)) \<le> 1
     \<and> pred_option (\<lambda>v. v = [] \<or> valid_identifier v) (in_run_id i)
     \<and> pred_option (\<lambda>v. v = [] \<or> valid_identifier v) (in_routing_key i)
     \<and> pred_option valid_title (normalize_title (in_title i))"

lemma validate_identifier_iff [result_simps]:
  "validate_identifier f v = Inr u \<longleftrightarrow> valid_identifier v"
  by (auto simp: validate_identifier_def valid_identifier_def Suc_le_eq)

lemma validate_title_iff [result_simps]: "validate_title t = Inr u \<longleftrightarrow> valid_title t"
  by (auto simp: validate_title_def valid_title_def)

lemma validate_page_size_iff [result_simps]:
  "validate_page_size n = Inr u \<longleftrightarrow> 1 \<le> n \<and> n \<le> MAX_PAGE_SIZE"
  by (auto simp: validate_page_size_def)

lemma validate_non_empty_iff [result_simps]:
  "validate_non_empty f v = Inr u \<longleftrightarrow> pred_option (\<lambda>v. v = [] \<or> valid_identifier v) v"
  by (auto simp: validate_non_empty_def result_simps split: option.splits)

lemma validate_attention_iff [result_simps]:
  "validate_attention seen xs = Inr u \<longleftrightarrow>
     list_all valid_identifier xs \<and> distinct xs \<and> set xs \<inter> seen = {}"
  by (induction xs arbitrary: seen) (auto simp: result_simps)

lemma validate_relations_iff [result_simps]:
  "validate_relations n rs = Inr u \<longleftrightarrow>
     list_all (\<lambda>r. valid_identifier (rl_record_id r)) rs
     \<and> (length (filter (\<lambda>r. rl_type r = ReplyTo) rs) = 0
        \<or> n + length (filter (\<lambda>r. rl_type r = ReplyTo) rs) \<le> 1)"
  by (induction rs arbitrary: n) (auto simp: result_simps)

lemma validate_record_input_Inr:
  "validate_record_input i = Inr () \<longleftrightarrow> well_formed_input i"
proof -
  have title: "(case normalize_title (in_title i) of Some t \<Rightarrow> validate_title t | None \<Rightarrow> Inr ()) = Inr ()
      \<longleftrightarrow> pred_option valid_title (normalize_title (in_title i))"
    by (auto simp: result_simps split: option.splits)
  show ?thesis
    by (auto simp: validate_record_input_def well_formed_input_def result_simps title Suc_le_eq)
qed

text \<open>
  A record input validates exactly when it is well formed: kind, attention and relation
  identifiers of 1 to 128 characters, 1 to 65536 bytes of content, at most 32 relations with
  at most one reply-to, at most 16 distinct recipients, optional run and routing identifiers,
  and a title that, once trimmed, has at most 200 characters and no control characters.
\<close>

lemma validate_record_input_iff:
  "validate_record_input i = Inr () \<longleftrightarrow> well_formed_input i"
  by (rule validate_record_input_Inr)

lemma normalize_title_None [simp]: "normalize_title None = None"
  by (simp add: normalize_title_def)

lemma normalize_title_Some:
  "normalize_title (Some t) = (if trim t = [] then None else Some (trim t))"
  by (simp add: normalize_title_def Let_def)

lemma find_relation_type_as_str [simp]: "find_relation_type (relation_as_str t) = Some t"
  by (cases t) (simp_all add: find_relation_type_def RELATION_TYPES_def)

lemma find_relation_type_Some: "find_relation_type s = Some t \<Longrightarrow> relation_as_str t = s"
  by (auto simp: find_relation_type_def find_Some_iff)

lemma relation_as_str_inj [simp]: "relation_as_str a = relation_as_str b \<longleftrightarrow> a = b"
  by (metis find_relation_type_as_str option.inject)

end
