(* ===== verification/Wire.thy ===== *)
theory Wire
  imports Domain
begin

text \<open>
  The wire types of the protocol and their validation (crates/journal-protocol/src/dto.rs):
  pages, inbox items and receipts, the administrative and registration requests, path
  parameters and list queries. Field and constructor names follow the source with a short
  prefix per struct; \<open>i64\<close> is \<open>int\<close>, \<open>usize\<close> and \<open>u64\<close> counters are \<open>nat\<close>.
  \<open>jiff::Timestamp\<close> parsing is a parameter of the search query's validation.
\<close>

section \<open>Errors and elementary checks\<close>

datatype wire_error =
    DomainError validation_error
  | CharacterLength string nat nat
  | Range string nat nat
  | InvalidDateTime string
  | InvalidUuidV7 string

definition validate_chars :: "string \<Rightarrow> string \<Rightarrow> nat \<Rightarrow> nat \<Rightarrow> wire_error + unit" where
  "validate_chars field value mn mx =
     (if \<not> (mn \<le> chars_count value \<and> chars_count value \<le> mx)
      then Inl (CharacterLength field mn mx) else Inr ())"

definition validate_rfc3339 :: "(string \<Rightarrow> 'ts option) \<Rightarrow> string \<Rightarrow> string \<Rightarrow> wire_error + unit" where
  "validate_rfc3339 parse_timestamp field value =
     (case parse_timestamp value of Some _ \<Rightarrow> Inr () | None \<Rightarrow> Inl (InvalidDateTime field))"

definition wire_identifier :: "string \<Rightarrow> string \<Rightarrow> wire_error + unit" where
  "wire_identifier field value = map_err DomainError (validate_identifier field value)"

definition is_lower_hex :: "char \<Rightarrow> bool" where
  "is_lower_hex c \<longleftrightarrow> is_digit c \<or> (97 \<le> (of_char c :: nat) \<and> (of_char c :: nat) \<le> 102)"

definition uuid_v7_shape :: "string \<Rightarrow> bool" where
  "uuid_v7_shape v \<longleftrightarrow>
     length v = 36
     \<and> list_all (\<lambda>i. v ! i = CHR ''-'') [8, 13, 18, 23]
     \<and> v ! 14 = CHR ''7''
     \<and> v ! 19 \<in> set ''89ab''
     \<and> list_all (\<lambda>i. i \<in> set [8, 13, 18, 23] \<or> is_lower_hex (v ! i)) [0..<length v]"

definition validate_uuid_v7 :: "string \<Rightarrow> string \<Rightarrow> wire_error + unit" where
  "validate_uuid_v7 field value =
     (if uuid_v7_shape value then Inr () else Inl (InvalidUuidV7 field))"

definition validate_optional_identifier :: "string \<Rightarrow> string option \<Rightarrow> wire_error + unit" where
  "validate_optional_identifier field value =
     (case value of
        Some v \<Rightarrow> if v \<noteq> [] then wire_identifier field v else Inr ()
      | None \<Rightarrow> Inr ())"

lemma validate_chars_iff [result_simps]:
  "validate_chars f v mn mx = Inr u \<longleftrightarrow> mn \<le> chars_count v \<and> chars_count v \<le> mx"
  by (auto simp: validate_chars_def)

lemma wire_identifier_iff [result_simps]: "wire_identifier f v = Inr u \<longleftrightarrow> valid_identifier v"
  by (simp add: wire_identifier_def result_simps)

lemma validate_uuid_v7_iff [result_simps]: "validate_uuid_v7 f v = Inr u \<longleftrightarrow> uuid_v7_shape v"
  by (simp add: validate_uuid_v7_def)

lemma validate_optional_identifier_iff [result_simps]:
  "validate_optional_identifier f v = Inr u \<longleftrightarrow> pred_option (\<lambda>v. v = [] \<or> valid_identifier v) v"
  by (auto simp: validate_optional_identifier_def result_simps split: option.splits)

section \<open>Responses\<close>

record 'a page =
  items :: "'a list"
  next_cursor :: "string option"

record operational_metrics =
  om_sampled_at :: string
  om_database_bytes :: nat
  om_wal_bytes :: nat
  om_unacknowledged_inbox_count :: nat
  om_oldest_unacknowledged_at :: "string option"
  om_last_backup_at :: "string option"
  om_last_verified_restore_at :: "string option"

record membership =
  m_space_id :: string
  m_principal_id :: string
  m_can_read :: bool
  m_can_append :: bool
  m_can_admin :: bool

record me_view =
  me_principal :: principal
  me_memberships :: "membership list"
  me_limits :: limits

datatype receipt_state = RUnacknowledged | RAcknowledged

record receipt_summary =
  rs_inbox_item_id :: string
  rs_recipient :: string
  rs_state :: receipt_state
  rs_created_at :: string
  rs_acknowledged_at :: "string option"

record inbox_item =
  ii_inbox_item_id :: string
  ii_recipient :: string
  ii_seq :: int
  ii_created_at :: string
  ii_acknowledged_at :: "string option"
  ii_record :: journal_record

record registration_receipt =
  rg_principal :: principal
  rg_credential_id :: string

datatype credential_class = PrincipalClient

record credential_metadata =
  cm_credential_id :: string
  cm_principal_id :: string
  cm_class :: credential_class
  cm_rotated_at :: string
  cm_replacement_credential_id :: "string option"

record one_time_secret =
  ots_credential_id :: string
  ots_secret :: string

record credential_rotation =
  rot_metadata :: credential_metadata
  rot_replacement_secret :: one_time_secret

record principal_recovery =
  rcv_principal :: principal
  rcv_replacement_secret :: one_time_secret

section \<open>Requests\<close>

definition DEFAULT_PAGE_SIZE :: nat where
  "DEFAULT_PAGE_SIZE = 50"

definition MAX_CURSOR_CHARS :: nat where
  "MAX_CURSOR_CHARS = 2048"

definition MAX_INBOX_WAIT_SECONDS :: nat where
  "MAX_INBOX_WAIT_SECONDS = 30"

record page_query =
  q_cursor :: "string option"
  q_limit :: "nat option"

definition effective_limit :: "page_query \<Rightarrow> nat" where
  "effective_limit self = (case q_limit self of Some n \<Rightarrow> n | None \<Rightarrow> DEFAULT_PAGE_SIZE)"

definition validate_page_query :: "page_query \<Rightarrow> wire_error + unit" where
  "validate_page_query self =
     and_then (case q_cursor self of
                 Some cursor \<Rightarrow> validate_chars ''cursor'' cursor 0 MAX_CURSOR_CHARS
               | None \<Rightarrow> Inr ()) (\<lambda>_.
     map_err DomainError (validate_page_size (effective_limit self)))"

datatype inbox_state = Unacknowledged | Acknowledged | AllItems

fun inbox_state_as_str :: "inbox_state \<Rightarrow> string" where
  "inbox_state_as_str Unacknowledged = ''unacknowledged''"
| "inbox_state_as_str Acknowledged = ''acknowledged''"
| "inbox_state_as_str AllItems = ''all''"

record inbox_query =
  iq_state :: inbox_state
  iq_page :: page_query
  iq_wait_seconds :: nat

definition validate_inbox_query :: "inbox_query \<Rightarrow> wire_error + unit" where
  "validate_inbox_query self =
     and_then (validate_page_query (iq_page self)) (\<lambda>_.
     if iq_wait_seconds self > MAX_INBOX_WAIT_SECONDS
     then Inl (Range ''wait_seconds'' 0 MAX_INBOX_WAIT_SECONDS) else Inr ())"

record list_principals_query =
  lp_space :: string
  lp_page :: page_query

definition validate_list_principals_query :: "list_principals_query \<Rightarrow> wire_error + unit" where
  "validate_list_principals_query self =
     and_then (wire_identifier ''space'' (lp_space self)) (\<lambda>_. validate_page_query (lp_page self))"

record list_records_query =
  lr_page :: page_query
  lr_after_seq :: "nat option"
  lr_author :: "string option"
  lr_attention :: "string option"
  lr_kind :: "string option"
  lr_relation :: "relation_type option"

definition validate_list_records_query :: "list_records_query \<Rightarrow> wire_error + unit" where
  "validate_list_records_query self =
     and_then (validate_page_query (lr_page self)) (\<lambda>_.
     and_then (validate_optional_identifier ''author'' (lr_author self)) (\<lambda>_.
     and_then (validate_optional_identifier ''attention'' (lr_attention self)) (\<lambda>_.
     validate_optional_identifier ''kind'' (lr_kind self))))"

datatype search_order = Rank | Seq

record search_records_query =
  sq_q :: string
  sq_page :: page_query
  sq_author :: "string option"
  sq_attention :: "string option"
  sq_since :: "string option"
  sq_order :: search_order

definition validate_search_records_query ::
  "(string \<Rightarrow> 'ts option) \<Rightarrow> search_records_query \<Rightarrow> wire_error + unit" where
  "validate_search_records_query parse_timestamp self =
     and_then (validate_chars ''q'' (sq_q self) 1 512) (\<lambda>_.
     and_then (validate_page_query (sq_page self)) (\<lambda>_.
     and_then (validate_optional_identifier ''author'' (sq_author self)) (\<lambda>_.
     and_then (validate_optional_identifier ''attention'' (sq_attention self)) (\<lambda>_.
     case sq_since self of
       Some since \<Rightarrow> validate_rfc3339 parse_timestamp ''since'' since
     | None \<Rightarrow> Inr ()))))"

record principal_create_request =
  pc_handle :: string
  pc_display_name :: string

definition validate_principal_create :: "principal_create_request \<Rightarrow> wire_error + unit" where
  "validate_principal_create self =
     and_then (wire_identifier ''handle'' (pc_handle self)) (\<lambda>_.
     validate_chars ''display_name'' (pc_display_name self) 1 128)"

record principal_recovery_request =
  prr_principal_id :: string
  prr_reason :: "string option"

definition validate_reason :: "string option \<Rightarrow> wire_error + unit" where
  "validate_reason reason =
     (case reason of Some r \<Rightarrow> validate_chars ''reason'' r 0 512 | None \<Rightarrow> Inr ())"

definition validate_principal_recovery :: "principal_recovery_request \<Rightarrow> wire_error + unit" where
  "validate_principal_recovery self =
     and_then (validate_uuid_v7 ''principal_id'' (prr_principal_id self)) (\<lambda>_.
     validate_reason (prr_reason self))"

record profile_update_request =
  pu_handle :: string
  pu_display_name :: string
  pu_description :: "string option"
  pu_expected_profile_revision :: int

definition validate_profile_update :: "profile_update_request \<Rightarrow> wire_error + unit" where
  "validate_profile_update self =
     and_then (wire_identifier ''handle'' (pu_handle self)) (\<lambda>_.
     and_then (validate_chars ''display_name'' (pu_display_name self) 1 128) (\<lambda>_.
     and_then (case pu_description self of
                 Some d \<Rightarrow> validate_chars ''description'' d 0 512 | None \<Rightarrow> Inr ()) (\<lambda>_.
     if pu_expected_profile_revision self < 1
     then Inl (Range ''expected_profile_revision'' 1 (nat i64_max)) else Inr ())))"

record space_create_request =
  sc_id :: string
  sc_name :: string
  sc_access :: space_access

definition validate_space_create :: "space_create_request \<Rightarrow> wire_error + unit" where
  "validate_space_create self =
     and_then (wire_identifier ''id'' (sc_id self)) (\<lambda>_.
     validate_chars ''name'' (sc_name self) 1 128)"

record membership_request =
  mr_space_id :: string
  mr_principal_id :: string
  mr_can_read :: bool
  mr_can_append :: bool
  mr_can_admin :: bool

definition validate_membership_request :: "membership_request \<Rightarrow> wire_error + unit" where
  "validate_membership_request self =
     and_then (wire_identifier ''space_id'' (mr_space_id self)) (\<lambda>_.
     wire_identifier ''principal_id'' (mr_principal_id self))"

record credential_rotate_request =
  cx_credential_id :: string
  cx_reason :: "string option"

definition validate_credential_rotate :: "credential_rotate_request \<Rightarrow> wire_error + unit" where
  "validate_credential_rotate self =
     and_then (wire_identifier ''credential_id'' (cx_credential_id self)) (\<lambda>_.
     validate_reason (cx_reason self))"

text \<open>Path parameters and the append header.\<close>

definition validate_space_path :: "string \<Rightarrow> wire_error + unit" where
  "validate_space_path space = wire_identifier ''space'' space"

definition validate_principal_path :: "string \<Rightarrow> wire_error + unit" where
  "validate_principal_path prin = wire_identifier ''principal'' prin"

definition validate_record_path :: "string \<Rightarrow> wire_error + unit" where
  "validate_record_path record_id = wire_identifier ''record_id'' record_id"

definition validate_mailbox_item_path :: "string \<Rightarrow> wire_error + unit" where
  "validate_mailbox_item_path item_id = wire_identifier ''item_id'' item_id"

definition validate_append_headers :: "string \<Rightarrow> wire_error + unit" where
  "validate_append_headers idempotency_key = validate_chars ''Idempotency-Key'' idempotency_key 1 255"

section \<open>What a validated page query guarantees\<close>

lemma validate_page_query_iff [result_simps]:
  "validate_page_query q = Inr u \<longleftrightarrow>
     pred_option (\<lambda>c. chars_count c \<le> MAX_CURSOR_CHARS) (q_cursor q)
     \<and> 1 \<le> effective_limit q \<and> effective_limit q \<le> MAX_PAGE_SIZE"
  by (auto simp: validate_page_query_def result_simps split: option.splits)

lemma validate_inbox_query_iff [result_simps]:
  "validate_inbox_query q = Inr u \<longleftrightarrow>
     validate_page_query (iq_page q) = Inr () \<and> iq_wait_seconds q \<le> MAX_INBOX_WAIT_SECONDS"
  by (auto simp: validate_inbox_query_def result_simps)

lemma validate_list_records_query_page:
  "validate_list_records_query q = Inr u \<Longrightarrow> validate_page_query (lr_page q) = Inr ()"
  by (auto simp: validate_list_records_query_def result_simps)

end
