(* ===== verification/Json_Value.thy ===== *)
theory Json_Value
  imports Domain
begin

text \<open>
  JSON documents and the strict decoder of the protocol
  (crates/journal-protocol/src/json.rs). A \<open>json\<close> tree keeps an object's members in
  document order, possibly with repeated keys; \<open>unique_value\<close> is the visitor that builds a
  \<open>serde_json::Value\<close> (objects sorted by key, as \<open>serde_json::Map\<close> is a \<open>BTreeMap\<close>) and
  rejects a repeated key at any depth; \<open>reject_positional_objects\<close> refuses an array where
  the typed value is an object. The text layer of serde\_json is the record \<open>json_text\<close> of
  parameters. Finite floating-point numbers are carried as their bits.
\<close>

datatype json =
    JNull
  | JBool bool
  | JInt int
  | JFloat u64
  | JStr string
  | JArr "json list"
  | JObj "(string \<times> json) list"

record json_text =
  json_print :: "json \<Rightarrow> string"
  json_parse :: "string \<Rightarrow> json option"

datatype json_error = JsonError

section \<open>The duplicate-rejecting visitor\<close>

definition finite_f64 :: "u64 \<Rightarrow> bool" where
  "finite_f64 bits \<longleftrightarrow> uint bits div 2 ^ 52 mod 2 ^ 11 \<noteq> 2 ^ 11 - 1"

fun unique_value :: "json \<Rightarrow> json option"
  and unique_seq :: "json list \<Rightarrow> json list option"
  and unique_map :: "(string, json) btree_map \<Rightarrow> (string \<times> json) list
        \<Rightarrow> (string, json) btree_map option" where
  "unique_value JNull = Some JNull"
| "unique_value (JBool b) = Some (JBool b)"
| "unique_value (JInt i) = Some (JInt i)"
| "unique_value (JFloat x) = (if finite_f64 x then Some (JFloat x) else None)"
| "unique_value (JStr s) = Some (JStr s)"
| "unique_value (JArr xs) = map_option JArr (unique_seq xs)"
| "unique_value (JObj fs) = map_option JObj (unique_map [] fs)"
| "unique_seq [] = Some []"
| "unique_seq (x # xs) =
     (case unique_value x of
        None \<Rightarrow> None
      | Some v \<Rightarrow> map_option (\<lambda>vs. v # vs) (unique_seq xs))"
| "unique_map vals [] = Some vals"
| "unique_map vals ((key, x) # rest) =
     (if bt_get vals key \<noteq> None then None
      else (case unique_value x of
              None \<Rightarrow> None
            | Some v \<Rightarrow> unique_map (bt_insert key v vals) rest))"

text \<open>The typed value's shape decides: an array may not stand where an object is expected.\<close>

fun reject_positional_objects :: "json \<Rightarrow> json \<Rightarrow> json_error + unit"
  and reject_positional_items :: "json list \<Rightarrow> json list \<Rightarrow> json_error + unit"
  and reject_positional_members ::
    "(string \<times> json) list \<Rightarrow> (string \<times> json) list \<Rightarrow> json_error + unit" where
  "reject_positional_objects (JArr _) (JObj _) = Inl JsonError"
| "reject_positional_objects (JArr input) (JArr typed) = reject_positional_items input typed"
| "reject_positional_objects (JObj input) (JObj typed) = reject_positional_members input typed"
| "reject_positional_objects _ _ = Inr ()"
| "reject_positional_items (x # xs) (y # ys) =
     and_then (reject_positional_objects x y) (\<lambda>_. reject_positional_items xs ys)"
| "reject_positional_items _ _ = Inr ()"
| "reject_positional_members ((key, x) # rest) typed =
     and_then (case map_of typed key of
                 Some y \<Rightarrow> reject_positional_objects x y
               | None \<Rightarrow> Inr ()) (\<lambda>_. reject_positional_members rest typed)"
| "reject_positional_members [] typed = Inr ()"

definition decode_json ::
  "json_text \<Rightarrow> (json \<Rightarrow> 'a option) \<Rightarrow> ('a \<Rightarrow> json) \<Rightarrow> string \<Rightarrow> json_error + 'a" where
  "decode_json J deserialize to_value input =
     and_then (ok_or JsonError (Option.bind (json_parse J input) unique_value)) (\<lambda>v.
     and_then (ok_or JsonError (deserialize v)) (\<lambda>decoded.
     and_then (reject_positional_objects v (to_value decoded)) (\<lambda>_.
     Inr decoded)))"

definition encode_json :: "json_text \<Rightarrow> ('a \<Rightarrow> json) \<Rightarrow> 'a \<Rightarrow> string" where
  "encode_json J serialize x = json_print J (serialize x)"

section \<open>What the visitor accepts\<close>

fun no_duplicate_keys :: "json \<Rightarrow> bool" where
  "no_duplicate_keys (JArr xs) = list_all no_duplicate_keys xs"
| "no_duplicate_keys (JObj fs) =
     (distinct (map fst fs) \<and> list_all (\<lambda>(k, v). no_duplicate_keys v) fs)"
| "no_duplicate_keys (JFloat x) = finite_f64 x"
| "no_duplicate_keys _ = True"

lemma unique_accepts:
  "unique_value x \<noteq> None \<longleftrightarrow> no_duplicate_keys x"
  "unique_seq xs \<noteq> None \<longleftrightarrow> list_all no_duplicate_keys xs"
  "unique_map vals fs \<noteq> None \<longleftrightarrow>
     distinct (map fst fs) \<and> fst ` set fs \<inter> dom (bt_get vals) = {}
     \<and> list_all (\<lambda>(k, v). no_duplicate_keys v) fs"
proof (induction x and xs and vals fs rule: unique_value_unique_seq_unique_map.induct)
  case (9 x xs)
  then show ?case by (auto split: option.splits)
next
  case (11 vals key x rest)
  show ?case
  proof (cases "bt_get vals key = None \<and> unique_value x \<noteq> None")
    case True
    then obtain v where v: "unique_value x = Some v" by blast
    then show ?thesis
      using True 11(1) 11(2) [OF _ v] by (auto simp: bt.dom_insert)
  next
    case False
    then show ?thesis using 11(1) by (auto split: option.splits)
  qed
qed auto

text \<open>
  The strict decoder accepts a document only if no object in it, at any nesting depth,
  repeats a key (and every float is finite).
\<close>

lemma decode_json_rejects_duplicate_keys:
  assumes "decode_json J de to_value input = Inr x" and "json_parse J input = Some doc"
  shows "no_duplicate_keys doc"
proof -
  from assms have "unique_value doc \<noteq> None"
    by (auto simp: decode_json_def result_simps)
  then show ?thesis by (simp only: unique_accepts)
qed

section \<open>Reading struct fields\<close>

text \<open>A derived struct deserialiser reads an object's members by name, or an array by
  position (which \<open>reject_positional_objects\<close> then refuses).\<close>

definition struct_fields :: "string list \<Rightarrow> json \<Rightarrow> (string \<times> json) list option" where
  "struct_fields names v =
     (case v of
        JObj fs \<Rightarrow> Some fs
      | JArr xs \<Rightarrow> if length xs = length names then Some (zip names xs) else None
      | _ \<Rightarrow> None)"

fun json_str :: "json \<Rightarrow> string option" where
  "json_str (JStr s) = Some s"
| "json_str _ = None"

fun json_bool :: "json \<Rightarrow> bool option" where
  "json_bool (JBool b) = Some b"
| "json_bool _ = None"

fun json_i64 :: "json \<Rightarrow> int option" where
  "json_i64 (JInt i) = (if - (2 ^ 63) \<le> i \<and> i \<le> i64_max then Some i else None)"
| "json_i64 _ = None"

fun json_u64 :: "json \<Rightarrow> u64 option" where
  "json_u64 (JInt i) = (if 0 \<le> i \<and> i < 2 ^ 64 then Some (word_of_int i) else None)"
| "json_u64 _ = None"

definition field :: "(string \<times> json) list \<Rightarrow> string \<Rightarrow> (json \<Rightarrow> 'a option) \<Rightarrow> 'a option" where
  "field fs k read = Option.bind (map_of fs k) read"

text \<open>A unit variant of a renamed enum is its name, or the one-member object \<open>{name: null}\<close>.\<close>

definition unit_variant :: "(string \<times> 'a) list \<Rightarrow> json \<Rightarrow> 'a option" where
  "unit_variant names v =
     (case v of
        JStr s \<Rightarrow> map_of names s
      | JObj [(s, JNull)] \<Rightarrow> map_of names s
      | _ \<Rightarrow> None)"


section \<open>Round trips through the strict decoder\<close>

lemma unique_map_get:
  "unique_map vals fs = Some m \<Longrightarrow>
     bt_get m k = (case bt_get vals k of
                     Some v \<Rightarrow> Some v
                   | None \<Rightarrow> Option.bind (map_of fs k) unique_value)"
proof (induction fs arbitrary: vals)
  case (Cons f fs)
  obtain key x where f: "f = (key, x)" by (cases f)
  with Cons.prems obtain v where "bt_get vals key = None" "unique_value x = Some v"
      "unique_map (bt_insert key v vals) fs = Some m"
    by (auto split: if_splits option.splits)
  then show ?case using Cons.IH [of "bt_insert key v vals"] f
    by (auto simp: bt_get_insert split: option.splits)
qed (auto split: option.splits)

lemma unique_obj_field:
  assumes "unique_value (JObj fs) = Some v"
  obtains ms where "v = JObj ms" "\<And>k. map_of ms k = Option.bind (map_of fs k) unique_value"
    "fst ` set ms \<subseteq> fst ` set fs"
proof -
  from assms obtain ms where ms: "v = JObj ms" "unique_map [] fs = Some ms" by auto
  then have get: "map_of ms k = Option.bind (map_of fs k) unique_value" for k
    using unique_map_get [of "[]" fs ms k] by (simp add: bt_get_def)
  have "k \<in> fst ` set fs" if "k \<in> fst ` set ms" for k
  proof -
    from that have "map_of ms k \<noteq> None" by (simp add: map_of_eq_None_iff)
    then have "map_of fs k \<noteq> None" using get [of k] by (cases "map_of fs k") auto
    then show ?thesis by (simp only: map_of_eq_None_iff not_not)
  qed
  with ms(1) get that show thesis by blast
qed

lemma reject_positional_members_ok:
  "reject_positional_members ms typed = Inr () \<longleftrightarrow>
     (\<forall>(k, x) \<in> set ms. \<forall>y. map_of typed k = Some y \<longrightarrow> reject_positional_objects x y = Inr ())"
  by (induction ms) (auto simp: result_simps split: option.splits)

lemma set_bt_insert_subset: "set (bt_insert k v m) \<subseteq> insert (k, v) (set m)"
  by (induction k v m rule: bt_insert.induct) auto

lemma unique_not_positional:
  "unique_value d = Some v \<Longrightarrow> reject_positional_objects v d = Inr ()"
  "unique_seq ds = Some vs \<Longrightarrow> reject_positional_items vs ds = Inr ()"
  "unique_map vals fs = Some ms \<Longrightarrow> reject_positional_members vals typed = Inr () \<Longrightarrow>
     (\<And>k x. map_of fs k = Some x \<Longrightarrow> map_of typed k = Some x) \<Longrightarrow>
     reject_positional_members ms typed = Inr ()"
proof (induction d and ds and vals fs arbitrary: v and vs and ms typed
    rule: unique_value_unique_seq_unique_map.induct)
  case (11 vals key x rest)
  then obtain w where w: "bt_get vals key = None" "unique_value x = Some w"
      "unique_map (bt_insert key w vals) rest = Some ms"
    by (auto split: if_splits option.splits)
  have keys: "distinct (map fst ((key, x) # rest))"
    using unique_accepts(3) [of vals "(key, x) # rest"] 11(3) by simp
  have "reject_positional_members (bt_insert key w vals) typed = Inr ()"
    unfolding reject_positional_members_ok
  proof clarify
    fix k z y assume kz: "(k, z) \<in> set (bt_insert key w vals)" and y: "map_of typed k = Some y"
    then consider "(k, z) = (key, w)" | "(k, z) \<in> set vals"
      using set_bt_insert_subset [of key w vals] by blast
    then show "reject_positional_objects z y = Inr ()"
    proof cases
      case 1
      then show ?thesis using 11(1) [OF _ w(2)] w 11(5) [of key x] y by simp
    next
      case 2
      then show ?thesis using 11(4) y unfolding reject_positional_members_ok by blast
    qed
  qed
  moreover have "map_of typed k = Some z" if "map_of rest k = Some z" for k z
    using that keys 11(5) [of k z] by (cases "k = key") (force dest: map_of_SomeD)+
  ultimately show ?case using 11(2) [OF _ w(2) w(3)] w(1) by blast
qed (auto split: option.splits if_splits)

lemma decode_json_roundtrip:
  assumes "json_parse J (json_print J (to_value x)) = Some (to_value x)"
    and "unique_value (to_value x) = Some v" and "deserialize v = Some x"
  shows "decode_json J deserialize to_value (encode_json J to_value x) = Inr x"
  using assms unique_not_positional(1) [OF assms(2)]
  by (simp add: decode_json_def encode_json_def)

text \<open>The visitor's result has no repeated keys, so the untyped decoder accepts every document the
  visitor accepts.\<close>

lemma set_bt_insert_values: "snd ` set (bt_insert k v m) \<subseteq> insert v (snd ` set m)"
  using set_bt_insert_subset [of k v m] by force

lemma unique_no_duplicates:
  "unique_value d = Some v \<Longrightarrow> no_duplicate_keys v"
  "unique_seq ds = Some vs \<Longrightarrow> list_all no_duplicate_keys vs"
  "unique_map vals fs = Some ms \<Longrightarrow> bt_ordered vals \<Longrightarrow> list_all (\<lambda>(k, v). no_duplicate_keys v) vals
     \<Longrightarrow> bt_ordered ms \<and> list_all (\<lambda>(k, v). no_duplicate_keys v) ms"
proof (induction d and ds and vals fs arbitrary: v and vs and ms rule: unique_value_unique_seq_unique_map.induct)
  case (7 fs)
  then obtain ms where ms: "v = JObj ms" "unique_map [] fs = Some ms" by auto
  then have "bt_ordered ms \<and> list_all (\<lambda>(k, v). no_duplicate_keys v) ms"
    using 7(1) [of ms] by simp
  then show ?case using ms(1) bt.keys_distinct [of ms] by simp
next
  case (11 vals key x rest)
  then obtain w where w: "bt_get vals key = None" "unique_value x = Some w" "unique_map (bt_insert key w vals) rest = Some ms"
    by (auto split: if_splits option.splits)
  have "list_all (\<lambda>(k, v). no_duplicate_keys v) (bt_insert key w vals)"
    using 11(1) [OF _ w(2)] w(1) 11(5) set_bt_insert_subset [of key w vals] by (auto simp: list_all_iff)
  then show ?case using 11(2) [OF _ w(2,3)] w(1) bt_ordered_insert [OF 11(4)] by simp
qed (auto split: option.splits if_splits)

lemma reject_positional_self:
  "no_duplicate_keys v \<Longrightarrow> reject_positional_objects v v = Inr ()"
  "list_all no_duplicate_keys vs \<Longrightarrow> reject_positional_items vs vs = Inr ()"
proof -
  have "(no_duplicate_keys v \<longrightarrow> reject_positional_objects v v = Inr ())" for v
  proof (induction v)
    case (JArr xs)
    have "list_all no_duplicate_keys xs \<longrightarrow> reject_positional_items xs xs = Inr ()"
      using JArr by (induction xs) auto
    then show ?case by simp
  next
    case (JObj fs)
    have same: "reject_positional_objects x y = Inr ()"
      if "distinct (map fst fs)" "list_all (\<lambda>(k, v). no_duplicate_keys v) fs" "(k, x) \<in> set fs" "map_of fs k = Some y" for k x y
    proof -
      have "y = x" using that by (metis map_of_eq_Some_iff option.inject)
      moreover have "x \<in> Basic_BNFs.snds (k, x)" by simp
      ultimately show ?thesis
        using JObj [OF that(3), of x] that(2,3) by (auto simp: list_all_iff)
    qed
    show ?case
    proof
      assume "no_duplicate_keys (JObj fs)"
      then have "distinct (map fst fs)" "list_all (\<lambda>(k, v). no_duplicate_keys v) fs" by simp_all
      then show "reject_positional_objects (JObj fs) (JObj fs) = Inr ()"
        unfolding reject_positional_objects.simps reject_positional_members_ok using same by blast
    qed
  qed simp_all
  then show *: "no_duplicate_keys v \<Longrightarrow> reject_positional_objects v v = Inr ()" for v by blast
  show "list_all no_duplicate_keys vs \<Longrightarrow> reject_positional_items vs vs = Inr ()"
    by (induction vs) (simp_all add: *)
qed

lemma decode_untyped:
  assumes "json_parse J bytes = Some d" "no_duplicate_keys d"
  shows "\<not> isl (decode_json J Some (\<lambda>v. v) bytes)"
proof -
  obtain v where v: "unique_value d = Some v"
    using assms(2) unique_accepts(1) [of d] by blast
  then show ?thesis
    using assms(1) reject_positional_self(1) [OF unique_no_duplicates(1) [OF v]]
    by (simp add: decode_json_def)
qed

end
