(* ===== verification/Cursor.thy ===== *)
theory Cursor
  imports Wire Json_Value
begin

text \<open>
  Opaque page cursors (crates/journal-protocol/src/cursor.rs) and the canonical byte
  representation of an append (crates/journal-protocol/src/canonical.rs). SHA-256,
  HMAC-SHA256 and URL-safe base64 are third-party code: the record \<open>crypto\<close> holds them as
  parameters, beside serde\_json's text layer. What the codec relies on from them is the
  predicate \<open>crypto_laws\<close>.
\<close>

section \<open>Data\<close>

datatype cursor_route =
    RPrincipals | RSpaces | RRecords | RSearch | RRecordThread | RRecordDeliveryStatus | RInbox

datatype cursor_order = OIdentifier | OSequence | ORank | OBoundedSequence

datatype cursor_position =
    Identifier string
  | Sequence u64 string
  | RankAt u64 string
  | BoundedSequence u64 u64

fun position_matches :: "cursor_order \<Rightarrow> cursor_position \<Rightarrow> bool" where
  "position_matches OIdentifier (Identifier _) = True"
| "position_matches OSequence (Sequence _ _) = True"
| "position_matches ORank (RankAt _ _) = True"
| "position_matches OBoundedSequence (BoundedSequence _ _) = True"
| "position_matches _ _ = False"

record crypto =
  json_codec :: json_text
  sha256 :: "byte list \<Rightarrow> byte list"
  hmac :: "byte list \<Rightarrow> byte list \<Rightarrow> byte list"
  b64_encode :: "byte list \<Rightarrow> string"
  b64_decode :: "string \<Rightarrow> byte list option"

definition as_bytes :: "string \<Rightarrow> byte list" where
  "as_bytes s = map of_char s"

definition of_bytes :: "byte list \<Rightarrow> string" where
  "of_bytes bs = map (\<lambda>b. char_of (unat b)) bs"

lemma unat_of_char: "unat (of_char c :: byte) = of_char c"
proof -
  have "unat (of_nat (of_char c) :: byte) = of_char c mod 256" by (simp add: unat_of_nat)
  then show ?thesis by (simp add: of_nat_of_char)
qed

lemma of_bytes_as_bytes [simp]: "of_bytes (as_bytes s) = s"
  by (simp add: as_bytes_def of_bytes_def comp_def unat_of_char)

record cursor_scope =
  cs_route :: cursor_route
  cs_filter_fingerprint :: "byte list"
  cs_order :: cursor_order

definition cursor_scope_new :: "crypto \<Rightarrow> cursor_route \<Rightarrow> string \<Rightarrow> cursor_order \<Rightarrow> cursor_scope" where
  "cursor_scope_new C route canonical_filters order =
     \<lparr>cs_route = route, cs_filter_fingerprint = sha256 C (as_bytes canonical_filters), cs_order = order\<rparr>"

record cursor_codec =
  cc_key :: "byte list"

datatype cursor_error =
    KeyTooShort | TooLong | Malformed | InvalidEncoding | InvalidSignature | InvalidPayload
  | UnsupportedVersion | WrongRoute | WrongFilter | WrongOrder | PositionOrderMismatch

definition CURSOR_VERSION :: nat where
  "CURSOR_VERSION = 1"

definition MIN_KEY_BYTES :: nat where
  "MIN_KEY_BYTES = 32"

definition HMAC_BYTES :: nat where
  "HMAC_BYTES = 32"

record cursor_payload =
  cp_version :: nat
  cp_route :: cursor_route
  cp_filter :: string
  cp_order :: cursor_order
  cp_position :: cursor_position

section \<open>The payload as JSON\<close>

definition route_names :: "(string \<times> cursor_route) list" where
  "route_names = [(''principals'', RPrincipals), (''spaces'', RSpaces), (''records'', RRecords),
     (''search'', RSearch), (''record-thread'', RRecordThread),
     (''record-delivery-status'', RRecordDeliveryStatus), (''inbox'', RInbox)]"

fun route_name :: "cursor_route \<Rightarrow> string" where
  "route_name RPrincipals = ''principals''"
| "route_name RSpaces = ''spaces''"
| "route_name RRecords = ''records''"
| "route_name RSearch = ''search''"
| "route_name RRecordThread = ''record-thread''"
| "route_name RRecordDeliveryStatus = ''record-delivery-status''"
| "route_name RInbox = ''inbox''"

definition order_names :: "(string \<times> cursor_order) list" where
  "order_names = [(''identifier'', OIdentifier), (''sequence'', OSequence), (''rank'', ORank),
     (''bounded-sequence'', OBoundedSequence)]"

fun order_name :: "cursor_order \<Rightarrow> string" where
  "order_name OIdentifier = ''identifier''"
| "order_name OSequence = ''sequence''"
| "order_name ORank = ''rank''"
| "order_name OBoundedSequence = ''bounded-sequence''"

text \<open>The internally tagged enum: the tag member first, then the variant's fields.\<close>

fun position_json :: "cursor_position \<Rightarrow> json" where
  "position_json (Identifier i) = JObj [(''kind'', JStr ''identifier''), (''id'', JStr i)]"
| "position_json (Sequence s i) =
     JObj [(''kind'', JStr ''sequence''), (''sequence'', JInt (uint s)), (''id'', JStr i)]"
| "position_json (RankAt b i) =
     JObj [(''kind'', JStr ''rank''), (''score_bits'', JInt (uint b)), (''id'', JStr i)]"
| "position_json (BoundedSequence s u) =
     JObj [(''kind'', JStr ''bounded-sequence''), (''sequence'', JInt (uint s)),
           (''upper_bound'', JInt (uint u))]"

definition payload_json :: "cursor_payload \<Rightarrow> json" where
  "payload_json p = JObj [(''version'', JInt (int (cp_version p))),
     (''route'', JStr (route_name (cp_route p))), (''filter'', JStr (cp_filter p)),
     (''order'', JStr (order_name (cp_order p))), (''position'', position_json (cp_position p))]"

definition read_position_fields :: "string \<Rightarrow> (string \<times> json) list \<Rightarrow> cursor_position option" where
  "read_position_fields kind fs =
     (if kind = ''identifier'' then map_option Identifier (field fs ''id'' json_str)
      else if kind = ''sequence'' then
        Option.bind (field fs ''sequence'' json_u64) (\<lambda>s. map_option (Sequence s) (field fs ''id'' json_str))
      else if kind = ''rank'' then
        Option.bind (field fs ''score_bits'' json_u64) (\<lambda>b. map_option (RankAt b) (field fs ''id'' json_str))
      else if kind = ''bounded-sequence'' then
        Option.bind (field fs ''sequence'' json_u64) (\<lambda>s.
          map_option (BoundedSequence s) (field fs ''upper_bound'' json_u64))
      else None)"

definition position_field_names :: "string \<Rightarrow> string list" where
  "position_field_names kind =
     (if kind = ''identifier'' then [''id'']
      else if kind = ''sequence'' then [''sequence'', ''id'']
      else if kind = ''rank'' then [''score_bits'', ''id'']
      else [''sequence'', ''upper_bound''])"

definition position_of_json :: "json \<Rightarrow> cursor_position option" where
  "position_of_json v =
     (case v of
        JObj fs \<Rightarrow> Option.bind (field fs ''kind'' json_str) (\<lambda>kind. read_position_fields kind fs)
      | JArr (JStr kind # xs) \<Rightarrow>
          Option.bind (struct_fields (position_field_names kind) (JArr xs)) (read_position_fields kind)
      | _ \<Rightarrow> None)"

definition payload_fields :: "string list" where
  "payload_fields = [''version'', ''route'', ''filter'', ''order'', ''position'']"

definition json_u8 :: "json \<Rightarrow> nat option" where
  "json_u8 v = (case v of JInt i \<Rightarrow> if 0 \<le> i \<and> i < 256 then Some (nat i) else None | _ \<Rightarrow> None)"

definition payload_of_json :: "json \<Rightarrow> cursor_payload option" where
  "payload_of_json v =
     Option.bind (struct_fields payload_fields v) (\<lambda>fs.
     if \<not> list_all (\<lambda>(k, _). k \<in> set payload_fields) fs then None
     else
       Option.bind (field fs ''version'' json_u8) (\<lambda>version.
       Option.bind (field fs ''route'' (unit_variant route_names)) (\<lambda>route.
       Option.bind (field fs ''filter'' json_str) (\<lambda>filter_text.
       Option.bind (field fs ''order'' (unit_variant order_names)) (\<lambda>order.
       Option.bind (field fs ''position'' position_of_json) (\<lambda>position.
       Some \<lparr>cp_version = version, cp_route = route, cp_filter = filter_text, cp_order = order,
              cp_position = position\<rparr>))))))"

section \<open>The codec\<close>

definition cursor_codec_new :: "crypto \<Rightarrow> byte list \<Rightarrow> cursor_error + cursor_codec" where
  "cursor_codec_new C key =
     (if length key < MIN_KEY_BYTES then Inl KeyTooShort else Inr \<lparr>cc_key = sha256 C key\<rparr>)"

definition encode_payload :: "crypto \<Rightarrow> cursor_codec \<Rightarrow> cursor_payload \<Rightarrow> cursor_error + string" where
  "encode_payload C self payload =
     (let payload_bytes = as_bytes (encode_json (json_codec C) payload_json payload);
          signature = hmac C (cc_key self) payload_bytes;
          token = b64_encode C payload_bytes @ CHR ''.'' # b64_encode C signature
      in if length token > MAX_CURSOR_CHARS then Inl TooLong else Inr token)"

definition cursor_encode ::
  "crypto \<Rightarrow> cursor_codec \<Rightarrow> cursor_scope \<Rightarrow> cursor_position \<Rightarrow> cursor_error + string" where
  "cursor_encode C self scope position =
     (if \<not> position_matches (cs_order scope) position then Inl PositionOrderMismatch
      else encode_payload C self
        \<lparr>cp_version = CURSOR_VERSION, cp_route = cs_route scope,
         cp_filter = b64_encode C (cs_filter_fingerprint scope), cp_order = cs_order scope,
         cp_position = position\<rparr>)"

text \<open>\<open>str::split_once\<close>: the parts before and after the first separator.\<close>

definition split_once :: "char \<Rightarrow> string \<Rightarrow> (string \<times> string) option" where
  "split_once c s =
     (if c \<in> set s then Some (takeWhile (\<lambda>x. x \<noteq> c) s, tl (dropWhile (\<lambda>x. x \<noteq> c) s)) else None)"

definition check_payload :: "crypto \<Rightarrow> cursor_scope \<Rightarrow> cursor_payload \<Rightarrow> cursor_error + cursor_position" where
  "check_payload C scope payload =
     (if cp_version payload \<noteq> CURSOR_VERSION then Inl UnsupportedVersion
      else if cp_route payload \<noteq> cs_route scope then Inl WrongRoute
      else if cp_filter payload \<noteq> b64_encode C (cs_filter_fingerprint scope) then Inl WrongFilter
      else if cp_order payload \<noteq> cs_order scope then Inl WrongOrder
      else if \<not> position_matches (cp_order payload) (cp_position payload)
        then Inl PositionOrderMismatch
      else Inr (cp_position payload))"

definition cursor_decode ::
  "crypto \<Rightarrow> cursor_codec \<Rightarrow> cursor_scope \<Rightarrow> string \<Rightarrow> cursor_error + cursor_position" where
  "cursor_decode C self scope token =
     (if length token > MAX_CURSOR_CHARS then Inl TooLong
      else case split_once (CHR ''.'') token of
        None \<Rightarrow> Inl Malformed
      | Some (payload_text, signature_text) \<Rightarrow>
          if payload_text = [] \<or> signature_text = [] \<or> CHR ''.'' \<in> set signature_text
          then Inl Malformed
          else
            and_then (ok_or InvalidEncoding (b64_decode C payload_text)) (\<lambda>payload_bytes.
            and_then (ok_or InvalidEncoding (b64_decode C signature_text)) (\<lambda>signature.
            if length signature \<noteq> HMAC_BYTES then Inl InvalidEncoding
            else if hmac C (cc_key self) payload_bytes \<noteq> signature then Inl InvalidSignature
            else
              and_then (map_err (\<lambda>_. InvalidPayload)
                (decode_json (json_codec C) payload_of_json payload_json (of_bytes payload_bytes)))
              (check_payload C scope))))"

section \<open>Canonical appends\<close>

text \<open>The derived serialisation of a record input: fields in declaration order, with absent
  options and empty lists skipped.\<close>

definition relation_json :: "relation \<Rightarrow> json" where
  "relation_json r = JObj [(''type'', JStr (relation_as_str (rl_type r))),
     (''record_id'', JStr (rl_record_id r))]"

definition opt_member :: "string \<Rightarrow> string option \<Rightarrow> (string \<times> json) list" where
  "opt_member k v = (case v of Some s \<Rightarrow> [(k, JStr s)] | None \<Rightarrow> [])"

definition record_input_json :: "record_input \<Rightarrow> json" where
  "record_input_json i = JObj (
     [(''kind'', JStr (in_kind i)), (''content'', JStr (in_content i))]
     @ opt_member ''run_id'' (in_run_id i)
     @ (if in_attention i = [] then [] else [(''attention'', JArr (map JStr (in_attention i)))])
     @ opt_member ''routing_key'' (in_routing_key i)
     @ (if in_relations i = [] then [] else [(''relations'', JArr (map relation_json (in_relations i)))])
     @ opt_member ''title'' (in_title i))"

definition canonical_append :: "json_text \<Rightarrow> record_input \<Rightarrow> validation_error + string" where
  "canonical_append J request =
     and_then (validate_record_input request) (\<lambda>_.
     Inr (encode_json J record_input_json (request\<lparr>in_attention := sort (in_attention request)\<rparr>)))"

section \<open>Properties of the codec\<close>

text \<open>What is relied on from base64 and HMAC: decoding inverts encoding, the alphabet has no
  dot, only the empty input encodes to nothing, and a tag has 32 bytes.\<close>

definition crypto_laws :: "crypto \<Rightarrow> bool" where
  "crypto_laws C \<longleftrightarrow>
     (\<forall>bs. b64_decode C (b64_encode C bs) = Some bs)
     \<and> (\<forall>bs. CHR ''.'' \<notin> set (b64_encode C bs))
     \<and> (\<forall>bs. b64_encode C bs = [] \<longrightarrow> bs = [])
     \<and> (\<forall>k m. length (hmac C k m) = HMAC_BYTES)"

text \<open>What is relied on from serde\_json for one document: its text is not empty and parses
  back to the same document.\<close>

definition json_roundtrips :: "json_text \<Rightarrow> json \<Rightarrow> bool" where
  "json_roundtrips J d \<longleftrightarrow> json_print J d \<noteq> [] \<and> json_parse J (json_print J d) = Some d"

lemma json_roundtrips_inj:
  "json_roundtrips J d \<Longrightarrow> json_roundtrips J d' \<Longrightarrow> json_print J d = json_print J d' \<longleftrightarrow> d = d'"
  unfolding json_roundtrips_def by (metis option.inject)

definition scope_payload :: "crypto \<Rightarrow> cursor_scope \<Rightarrow> cursor_position \<Rightarrow> cursor_payload" where
  "scope_payload C scope position =
     \<lparr>cp_version = CURSOR_VERSION, cp_route = cs_route scope,
      cp_filter = b64_encode C (cs_filter_fingerprint scope), cp_order = cs_order scope,
      cp_position = position\<rparr>"

lemma route_name_read [simp]: "unit_variant route_names (JStr (route_name r)) = Some r"
  by (cases r) (simp_all add: unit_variant_def route_names_def)

lemma order_name_read [simp]: "unit_variant order_names (JStr (order_name r)) = Some r"
  by (cases r) (simp_all add: unit_variant_def order_names_def)

lemma json_u64_uint [simp]: "json_u64 (JInt (uint w)) = Some w"
  using uint_bounded [of w] by simp

declare json_u64.simps [simp del]

lemma position_json_unique:
  obtains v where "unique_value (position_json p) = Some v" "position_of_json v = Some p"
proof -
  have "no_duplicate_keys (position_json p)" by (cases p) simp_all
  then obtain v where v: "unique_value (position_json p) = Some v"
    using unique_accepts(1) by blast
  obtain fs where fs: "position_json p = JObj fs" by (cases p) simp_all
  obtain ms where ms: "v = JObj ms" "\<And>k. map_of ms k = Option.bind (map_of fs k) unique_value"
    using unique_obj_field [of fs v] v fs by metis
  have "position_of_json v = Some p"
    using fs ms by (cases p) (auto simp: position_of_json_def read_position_fields_def field_def)
  with v that show thesis by blast
qed

lemma payload_json_unique:
  assumes "cp_version p < 256"
  obtains v where "unique_value (payload_json p) = Some v" "payload_of_json v = Some p"
proof -
  obtain w where w: "unique_value (position_json (cp_position p)) = Some w"
    "position_of_json w = Some (cp_position p)" using position_json_unique by blast
  then have "no_duplicate_keys (payload_json p)"
    using unique_accepts(1) by (auto simp: payload_json_def)
  then obtain v where v: "unique_value (payload_json p) = Some v"
    using unique_accepts(1) by blast
  obtain ms where ms: "v = JObj ms"
    "\<And>k. map_of ms k = Option.bind (map_of (case payload_json p of JObj fs \<Rightarrow> fs | _ \<Rightarrow> []) k) unique_value"
    "fst ` set ms \<subseteq> set payload_fields"
    using unique_obj_field [of "case payload_json p of JObj fs \<Rightarrow> fs | _ \<Rightarrow> []" v] v
    by (auto simp: payload_json_def payload_fields_def)
  have "list_all (\<lambda>(k, _). k \<in> set payload_fields) ms"
    using ms(3) by (force simp: list_all_iff)
  then have "payload_of_json v = Some p"
    using ms(1,2) w assms
    by (cases p) (simp add: payload_of_json_def struct_fields_def field_def payload_json_def json_u8_def)
  with v that show thesis by blast
qed

lemma takeWhile_sep: "c \<notin> set s \<Longrightarrow> split_once c (s @ c # t) = Some (s, t)"
  by (auto simp: split_once_def takeWhile_append dropWhile_append)

lemma cursor_encode_eq_Inr:
  "cursor_encode C K scope pos = Inr token \<longleftrightarrow>
     position_matches (cs_order scope) pos
     \<and> token = b64_encode C (as_bytes (json_print (json_codec C) (payload_json (scope_payload C scope pos))))
         @ CHR ''.'' # b64_encode C (hmac C (cc_key K)
             (as_bytes (json_print (json_codec C) (payload_json (scope_payload C scope pos)))))
     \<and> length token \<le> MAX_CURSOR_CHARS"
  by (auto simp: cursor_encode_def encode_payload_def scope_payload_def encode_json_def Let_def)

lemma cursor_decode_encoded:
  assumes laws: "crypto_laws C"
    and json: "json_roundtrips (json_codec C) (payload_json (scope_payload C scope pos))"
    and enc: "cursor_encode C K scope pos = Inr token"
  shows "cursor_decode C K scope' token = check_payload C scope' (scope_payload C scope pos)"
proof -
  let ?p = "scope_payload C scope pos"
  let ?bytes = "as_bytes (json_print (json_codec C) (payload_json ?p))"
  let ?sig = "hmac C (cc_key K) ?bytes"
  have tok: "token = b64_encode C ?bytes @ CHR ''.'' # b64_encode C ?sig"
    "length token \<le> MAX_CURSOR_CHARS"
    using enc unfolding cursor_encode_eq_Inr by blast+
  have len: "length ?sig = HMAC_BYTES" using laws by (simp add: crypto_laws_def)
  then have "?sig \<noteq> []" by (auto simp: HMAC_BYTES_def)
  then have ne: "b64_encode C ?bytes \<noteq> []" "b64_encode C ?sig \<noteq> []"
    using laws json by (auto simp: crypto_laws_def json_roundtrips_def as_bytes_def)
  obtain v where "unique_value (payload_json ?p) = Some v" "payload_of_json v = Some ?p"
    using payload_json_unique [of ?p] by (auto simp: scope_payload_def CURSOR_VERSION_def)
  then have dec: "decode_json (json_codec C) payload_of_json payload_json
      (json_print (json_codec C) (payload_json ?p)) = Inr ?p"
    using json decode_json_roundtrip [of "json_codec C" payload_json ?p v payload_of_json]
    by (simp add: json_roundtrips_def encode_json_def)
  show ?thesis
    using laws ne len tok(2) dec
    by (simp add: cursor_decode_def tok(1) takeWhile_sep crypto_laws_def not_less)
qed

lemma cursor_encode_decode:
  assumes "crypto_laws C"
    and "json_roundtrips (json_codec C) (payload_json (scope_payload C scope pos))"
    and "cursor_encode C K scope pos = Inr token"
  shows "cursor_decode C K scope token = Inr pos"
  using cursor_decode_encoded [OF assms, of scope] assms(3)
  by (simp add: check_payload_def scope_payload_def cursor_encode_eq_Inr)

text \<open>
  C25. A cursor issued for a scope decodes, under the same key and scope, to exactly the
  position it was issued for.
\<close>

theorem cursor_roundtrip:
  assumes "crypto_laws C"
    and "json_roundtrips (json_codec C) (payload_json (scope_payload C scope pos))"
    and "cursor_encode C K scope pos = Inr token"
  shows "cursor_decode C K scope token = Inr pos"
  using assms by (rule cursor_encode_decode)

text \<open>
  C26. A cursor is bound to its scope: if a cursor issued for one scope is accepted under
  another, the two scopes have the same route, filter fingerprint and order, and the position
  is the one issued.
\<close>

theorem cursor_bound_to_scope:
  assumes "crypto_laws C"
    and "json_roundtrips (json_codec C) (payload_json (scope_payload C scope pos))"
    and "cursor_encode C K scope pos = Inr token"
    and "cursor_decode C K scope' token = Inr pos'"
  shows "scope' = scope \<and> pos' = pos"
proof -
  have chk: "check_payload C scope' (scope_payload C scope pos) = Inr pos'"
    using cursor_decode_encoded [OF assms(1-3), of scope'] assms(4) by simp
  then have "b64_encode C (cs_filter_fingerprint scope) = b64_encode C (cs_filter_fingerprint scope')"
    by (auto simp: check_payload_def scope_payload_def split: if_splits)
  then have "cs_filter_fingerprint scope = cs_filter_fingerprint scope'"
    using assms(1) by (metis crypto_laws_def option.inject)
  with chk show ?thesis
    by (cases scope; cases scope') (auto simp: check_payload_def scope_payload_def split: if_splits)
qed

text \<open>
  No accepted cursor is unauthenticated: if a token decodes, it consists of two base64
  parts whose second is the HMAC of the first under the codec's key, within the length limit,
  and the position has the scope's order.
\<close>

lemma cursor_decode_authentic:
  assumes "cursor_decode C K scope token = Inr pos"
  shows "\<exists>payload_text signature_text payload_bytes.
      split_once (CHR ''.'') token = Some (payload_text, signature_text)
      \<and> b64_decode C payload_text = Some payload_bytes
      \<and> b64_decode C signature_text = Some (hmac C (cc_key K) payload_bytes)
      \<and> length token \<le> MAX_CURSOR_CHARS \<and> position_matches (cs_order scope) pos"
proof -
  from assms obtain pt st where split: "split_once (CHR ''.'') token = Some (pt, st)"
      and len: "length token \<le> MAX_CURSOR_CHARS"
    by (auto simp: cursor_decode_def split: if_splits option.splits)
  from assms split len obtain pb payload where "b64_decode C pt = Some pb"
      "b64_decode C st = Some (hmac C (cc_key K) pb)" "check_payload C scope payload = Inr pos"
    by (auto simp: cursor_decode_def result_simps split: if_splits)
  moreover then have "position_matches (cs_order scope) pos"
    by (auto simp: check_payload_def split: if_splits)
  ultimately show ?thesis using split len by blast
qed

section \<open>Append idempotency equality\<close>

lemma map_of_opt_member [simp]: "map_of (opt_member k v) k' = (if k' = k then map_option JStr v else None)"
  by (auto simp: opt_member_def split: option.splits)

lemma relation_json_inj: "relation_json a = relation_json b \<longleftrightarrow> a = b"
  by (cases a; cases b) (auto simp: relation_json_def)

lemma map_JStr_inj [simp]: "map JStr xs = map JStr ys \<longleftrightarrow> xs = ys"
  by (rule inj_map_eq_map) (simp add: inj_def)

lemma map_relation_json_inj [simp]: "map relation_json xs = map relation_json ys \<longleftrightarrow> xs = ys"
  by (rule inj_map_eq_map) (simp add: inj_def relation_json_inj)

lemma map_JStr_opt_inj [simp]: "map_option JStr a = map_option JStr b \<longleftrightarrow> a = b"
  by (cases a; cases b) auto

lemma record_input_json_inj:
  assumes "record_input_json a = record_input_json b"
  shows "a = b"
proof -
  let ?get = "\<lambda>i k. map_of (case record_input_json i of JObj fs \<Rightarrow> fs | _ \<Rightarrow> []) k"
  have eq: "?get a k = ?get b k" for k using assms by simp
  note get = record_input_json_def
  have 1: "in_kind a = in_kind b" "in_content a = in_content b"
    using eq [of "''kind''"] eq [of "''content''"] by (simp_all add: get)
  have 2: "in_run_id a = in_run_id b" "in_routing_key a = in_routing_key b" "in_title a = in_title b"
    using eq [of "''run_id''"] eq [of "''routing_key''"] eq [of "''title''"]
    by (simp_all add: get split: if_splits)
  have 3: "in_attention a = in_attention b" "in_relations a = in_relations b"
    using eq [of "''attention''"] eq [of "''relations''"] by (auto simp: get split: if_splits)
  from 1 2 3 show ?thesis by simp
qed

text \<open>
  C27. Canonical append equality is what it says: two valid inputs have the same canonical
  bytes exactly when they agree in every field up to the order of their attention recipients
  (for a JSON printer that is injective on the two canonical documents).
\<close>

theorem canonical_append_equality:
  assumes "canonical_append J a = Inr ca" and "canonical_append J b = Inr cb"
    and "json_roundtrips J (record_input_json (a\<lparr>in_attention := sort (in_attention a)\<rparr>))"
    and "json_roundtrips J (record_input_json (b\<lparr>in_attention := sort (in_attention b)\<rparr>))"
  shows "ca = cb \<longleftrightarrow> mset (in_attention a) = mset (in_attention b)
           \<and> a\<lparr>in_attention := []\<rparr> = b\<lparr>in_attention := []\<rparr>"
proof -
  let ?a = "a\<lparr>in_attention := sort (in_attention a)\<rparr>" and ?b = "b\<lparr>in_attention := sort (in_attention b)\<rparr>"
  have c: "ca = json_print J (record_input_json ?a)" "cb = json_print J (record_input_json ?b)"
    using assms(1,2) by (auto simp: canonical_append_def encode_json_def result_simps)
  have "ca = cb \<longleftrightarrow> record_input_json ?a = record_input_json ?b"
    unfolding c by (rule json_roundtrips_inj [OF assms(3,4)])
  also have "\<dots> \<longleftrightarrow> ?a = ?b"
    using record_input_json_inj [of ?a ?b] by (intro iffI) simp_all
  also have "\<dots> \<longleftrightarrow> sort (in_attention a) = sort (in_attention b)
      \<and> a\<lparr>in_attention := []\<rparr> = b\<lparr>in_attention := []\<rparr>"
    by (cases a; cases b) auto
  also have "sort (in_attention a) = sort (in_attention b)
      \<longleftrightarrow> mset (in_attention a) = mset (in_attention b)"
    by (metis mset_sort sorted_list_of_multiset_mset)
  finally show ?thesis .
qed

end
