(* ===== verification/Schema.thy ===== *)
theory Schema
  imports Cursor
begin

text \<open>
  The central database as a relational state: one row record per table of
  migrations/0001\_uuid\_native.sql, tables as lists in rowid order, and one function per
  \<open>INSERT\<close> the service executes, with the table's triggers, checks and keys in the order
  SQLite evaluates them (BEFORE triggers, CHECK, primary key and unique indexes, foreign
  keys). Columns no code writes (the import columns of \<open>records\<close>), the full-text mirror of
  \<open>records\<close> and the \<open>json_valid\<close> checks of \<open>registration_receipts\<close> (its two columns are only
  ever written with printed JSON objects) are left out. \<open>total_changes\<close> is the connection's change counter.
\<close>

section \<open>Errors\<close>

datatype sqlite_error =
    ConstraintUnique
  | ConstraintPrimaryKey
  | ConstraintCheck
  | ConstraintForeignKey
  | ConstraintTrigger string
  | QueryReturnedNoRows
  | InvalidColumnType
  | InvalidSqlQuery
  | SqliteFailure nat "string option"

text \<open>SQLite's \<open>length\<close> of a text counts the characters before the first NUL.\<close>

definition sql_length :: "string \<Rightarrow> nat" where
  "sql_length s = chars_count (takeWhile (\<lambda>c. c \<noteq> CHR 0x00) s)"

definition between :: "nat \<Rightarrow> nat \<Rightarrow> nat \<Rightarrow> bool" where
  "between n lo hi \<longleftrightarrow> lo \<le> n \<and> n \<le> hi"

section \<open>Rows\<close>

record principal_row =
  pr_id :: string
  pr_display_name :: string
  pr_created_at :: string
  pr_disabled_at :: "string option"
  pr_description :: "string option"
  pr_profile_revision :: int

record name_row =
  nm_name :: string
  nm_principal_id :: string
  nm_kind :: string
  nm_created_at :: string

record credential_row =
  cr_id :: string
  cr_principal_id :: string
  cr_class :: string
  cr_token_hash :: string
  cr_created_at :: string
  cr_expires_at :: "string option"
  cr_revoked_at :: "string option"
  cr_replacement :: "string option"
  cr_reason :: "string option"

record receipt_row =
  rr_token_hash :: string
  rr_credential_id :: string
  rr_principal_id :: string
  rr_request_json :: string
  rr_response_json :: string
  rr_created_at :: string

record credential_audit_row =
  ca_credential_id :: string
  ca_operation :: string
  ca_occurred_at :: string
  ca_reason :: "string option"

record audit_event_row =
  ae_id :: string
  ae_event_type :: string
  ae_actor :: "string option"
  ae_subject_type :: string
  ae_subject_id :: string
  ae_detail_json :: string
  ae_created_at :: string

record profile_key_row =
  pk_principal_id :: string
  pk_key :: string
  pk_payload_hash :: string
  pk_response_json :: string
  pk_created_at :: string

record space_row =
  sp_id :: string
  sp_name :: string
  sp_access :: string
  sp_created_at :: string
  sp_archived_at :: "string option"

record membership_row =
  mb_space_id :: string
  mb_principal_id :: string
  mb_can_read :: bool
  mb_can_append :: bool
  mb_can_admin :: bool
  mb_created_at :: string

record record_row =
  rc_id :: string
  rc_space_id :: string
  rc_space_seq :: int
  rc_author :: string
  rc_kind :: string
  rc_content :: string
  rc_run_id :: "string option"
  rc_routing_key :: "string option"
  rc_title :: "string option"
  rc_created_at :: string

record relation_row =
  re_source :: string
  re_type :: string
  re_target :: string
  re_created_at :: string
  re_position :: int

record attention_row =
  at_record_id :: string
  at_recipient :: string
  at_created_at :: string

record idempotency_row =
  ik_principal_id :: string
  ik_path :: string
  ik_key :: string
  ik_payload_hash :: string
  ik_record_id :: string
  ik_response_json :: string
  ik_created_at :: string

record mailbox_row =
  mi_id :: string
  mi_record_id :: string
  mi_recipient :: string
  mi_created_at :: string
  mi_seq :: int
  mi_acknowledged_at :: "string option"

record db =
  principals :: "principal_row list"
  principal_names :: "name_row list"
  credentials :: "credential_row list"
  registration_receipts :: "receipt_row list"
  credential_audit :: "(int \<times> credential_audit_row) list"
  audit_events :: "audit_event_row list"
  profile_idempotency_keys :: "profile_key_row list"
  spaces :: "space_row list"
  memberships :: "membership_row list"
  records :: "record_row list"
  record_relations :: "relation_row list"
  attention :: "attention_row list"
  idempotency_keys :: "idempotency_row list"
  inbox_sequences :: "(string \<times> int) list"
  mailbox_items :: "mailbox_row list"
  cursor_secret :: "byte list option"
  journal_id :: string
  anchor_revision :: int
  audit_required :: bool
  inbox_epoch :: int
  total_changes :: nat

definition empty_db :: db where
  "empty_db = \<lparr>principals = [], principal_names = [], credentials = [], registration_receipts = [],
     credential_audit = [], audit_events = [], profile_idempotency_keys = [], spaces = [],
     memberships = [], records = [], record_relations = [], attention = [], idempotency_keys = [],
     inbox_sequences = [], mailbox_items = [], cursor_secret = None, journal_id = [],
     anchor_revision = 0, audit_required = False, inbox_epoch = 0, total_changes = 0\<rparr>"

definition changed :: "db \<Rightarrow> db" where
  "changed d = d\<lparr>total_changes := total_changes d + 1\<rparr>"

section \<open>Inserts\<close>

definition insert_principal :: "principal_row \<Rightarrow> db \<Rightarrow> sqlite_error + db" where
  "insert_principal r d =
     and_then (ensure (pr_id r \<notin> nm_name ` set (principal_names d))
       (ConstraintTrigger ''principal id shadows a reserved name'')) (\<lambda>_.
     and_then (ensure (sql_length (pr_id r) = 36 \<and> length (pr_id r) > 19 \<and> pr_id r ! 14 = CHR ''7''
         \<and> pr_id r ! 19 \<in> set ''89ab''
         \<and> between (sql_length (pr_display_name r)) 1 128
         \<and> pred_option (\<lambda>t. sql_length t \<le> 512) (pr_description r)
         \<and> pr_profile_revision r \<ge> 1) ConstraintCheck) (\<lambda>_.
     and_then (ensure (pr_id r \<notin> pr_id ` set (principals d)) ConstraintPrimaryKey) (\<lambda>_.
     Inr (changed (d\<lparr>principals := principals d @ [r]\<rparr>)))))"

definition insert_name :: "name_row \<Rightarrow> db \<Rightarrow> sqlite_error + db" where
  "insert_name r d =
     and_then (ensure (nm_name r \<notin> pr_id ` set (principals d))
       (ConstraintTrigger ''principal name shadows a principal id'')) (\<lambda>_.
     and_then (ensure (between (sql_length (nm_name r)) 1 128 \<and> nm_kind r \<in> {''current'', ''alias''})
       ConstraintCheck) (\<lambda>_.
     and_then (ensure (nm_name r \<notin> nm_name ` set (principal_names d)) ConstraintPrimaryKey) (\<lambda>_.
     and_then (ensure (\<not> (nm_kind r = ''current''
         \<and> list_ex (\<lambda>n. nm_kind n = ''current'' \<and> nm_principal_id n = nm_principal_id r) (principal_names d)))
       ConstraintUnique) (\<lambda>_.
     and_then (ensure (nm_principal_id r \<in> pr_id ` set (principals d)) ConstraintForeignKey) (\<lambda>_.
     Inr (changed (d\<lparr>principal_names := principal_names d @ [r]\<rparr>)))))))"

definition insert_credential :: "credential_row \<Rightarrow> db \<Rightarrow> sqlite_error + db" where
  "insert_credential r d =
     and_then (ensure (cr_class r = ''principal-client'') ConstraintCheck) (\<lambda>_.
     and_then (ensure (cr_id r \<notin> cr_id ` set (credentials d)) ConstraintPrimaryKey) (\<lambda>_.
     and_then (ensure (cr_token_hash r \<notin> cr_token_hash ` set (credentials d)) ConstraintUnique) (\<lambda>_.
     and_then (ensure (cr_principal_id r \<in> pr_id ` set (principals d)
         \<and> pred_option (\<lambda>i. i = cr_id r \<or> i \<in> cr_id ` set (credentials d)) (cr_replacement r)) ConstraintForeignKey) (\<lambda>_.
     Inr (changed (d\<lparr>credentials := credentials d @ [r]\<rparr>))))))"

definition insert_receipt :: "receipt_row \<Rightarrow> db \<Rightarrow> sqlite_error + db" where
  "insert_receipt r d =
     and_then (ensure (rr_token_hash r \<notin> rr_token_hash ` set (registration_receipts d))
       ConstraintPrimaryKey) (\<lambda>_.
     and_then (ensure (rr_credential_id r \<notin> rr_credential_id ` set (registration_receipts d)
         \<and> rr_principal_id r \<notin> rr_principal_id ` set (registration_receipts d)) ConstraintUnique) (\<lambda>_.
     and_then (ensure (rr_token_hash r \<in> cr_token_hash ` set (credentials d)
         \<and> rr_credential_id r \<in> cr_id ` set (credentials d)
         \<and> rr_principal_id r \<in> pr_id ` set (principals d)) ConstraintForeignKey) (\<lambda>_.
     Inr (changed (d\<lparr>registration_receipts := registration_receipts d @ [r]\<rparr>)))))"

text \<open>The key SQLite gives a row of a table with an integer primary key: one above the largest in use,
  and 1 in an empty table. (At the largest \<open>i64\<close> SQLite looks for a free key; the model goes on.)\<close>

definition next_rowid :: "int list \<Rightarrow> int" where
  "next_rowid ids = (case ids of [] \<Rightarrow> 1 | i # is \<Rightarrow> fold max is i + 1)"

definition insert_credential_audit :: "credential_audit_row \<Rightarrow> db \<Rightarrow> sqlite_error + db" where
  "insert_credential_audit r d =
     and_then (ensure (ca_operation r \<in> {''issued'', ''rotated'', ''revoked'', ''recovered''})
       ConstraintCheck) (\<lambda>_.
     and_then (ensure (ca_credential_id r \<in> cr_id ` set (credentials d)) ConstraintForeignKey) (\<lambda>_.
     Inr (changed (d\<lparr>credential_audit := credential_audit d @ [(next_rowid (map fst (credential_audit d)), r)]\<rparr>))))"

definition insert_audit_event :: "audit_event_row \<Rightarrow> db \<Rightarrow> sqlite_error + db" where
  "insert_audit_event r d =
     and_then (ensure (ae_id r \<notin> ae_id ` set (audit_events d)) ConstraintPrimaryKey) (\<lambda>_.
     Inr (changed (d\<lparr>audit_events := audit_events d @ [r]\<rparr>)))"

definition insert_profile_key :: "profile_key_row \<Rightarrow> db \<Rightarrow> sqlite_error + db" where
  "insert_profile_key r d =
     and_then (ensure (between (sql_length (pk_key r)) 1 255) ConstraintCheck) (\<lambda>_.
     and_then (ensure (\<not> list_ex (\<lambda>k. pk_principal_id k = pk_principal_id r \<and> pk_key k = pk_key r)
         (profile_idempotency_keys d)) ConstraintPrimaryKey) (\<lambda>_.
     and_then (ensure (pk_principal_id r \<in> pr_id ` set (principals d)) ConstraintForeignKey) (\<lambda>_.
     Inr (changed (d\<lparr>profile_idempotency_keys := profile_idempotency_keys d @ [r]\<rparr>)))))"

definition insert_space :: "space_row \<Rightarrow> db \<Rightarrow> sqlite_error + db" where
  "insert_space r d =
     and_then (ensure (between (sql_length (sp_name r)) 1 128 \<and> sp_access r = ''public'')
       ConstraintCheck) (\<lambda>_.
     and_then (ensure (sp_id r \<notin> sp_id ` set (spaces d)) ConstraintPrimaryKey) (\<lambda>_.
     and_then (ensure (sp_name r \<notin> sp_name ` set (spaces d)) ConstraintUnique) (\<lambda>_.
     Inr (changed (d\<lparr>spaces := spaces d @ [r]\<rparr>)))))"

text \<open>\<open>INSERT ... ON CONFLICT(space_id,principal_id) DO UPDATE\<close> of the three flags.\<close>

definition upsert_membership :: "membership_row \<Rightarrow> db \<Rightarrow> sqlite_error + db" where
  "upsert_membership r d =
     (if list_ex (\<lambda>m. mb_space_id m = mb_space_id r \<and> mb_principal_id m = mb_principal_id r) (memberships d)
      then Inr (changed (d\<lparr>memberships := map (\<lambda>m.
          if mb_space_id m = mb_space_id r \<and> mb_principal_id m = mb_principal_id r
          then m\<lparr>mb_can_read := mb_can_read r, mb_can_append := mb_can_append r,
                 mb_can_admin := mb_can_admin r\<rparr>
          else m) (memberships d)\<rparr>))
      else
        and_then (ensure (mb_space_id r \<in> sp_id ` set (spaces d)
            \<and> mb_principal_id r \<in> pr_id ` set (principals d)) ConstraintForeignKey) (\<lambda>_.
        Inr (changed (d\<lparr>memberships := memberships d @ [r]\<rparr>))))"

text \<open>A sequence column holds an \<open>i64\<close>: the model's unbounded integers carry that bound with the CHECK.\<close>

definition insert_record :: "record_row \<Rightarrow> db \<Rightarrow> sqlite_error + db" where
  "insert_record r d =
     and_then (ensure (rc_space_seq r > 0 \<and> rc_space_seq r \<le> i64_max \<and> between (sql_length (rc_kind r)) 1 128
         \<and> between (length (rc_content r)) 1 65536
         \<and> pred_option (\<lambda>t. sql_length t \<le> 128) (rc_run_id r)
         \<and> pred_option (\<lambda>t. between (sql_length t) 1 200) (rc_title r)) ConstraintCheck) (\<lambda>_.
     and_then (ensure (rc_id r \<notin> rc_id ` set (records d)) ConstraintPrimaryKey) (\<lambda>_.
     and_then (ensure (\<not> list_ex (\<lambda>x. rc_space_id x = rc_space_id r \<and> rc_space_seq x = rc_space_seq r)
         (records d)) ConstraintUnique) (\<lambda>_.
     and_then (ensure (rc_space_id r \<in> sp_id ` set (spaces d) \<and> rc_author r \<in> pr_id ` set (principals d))
       ConstraintForeignKey) (\<lambda>_.
     Inr (changed (d\<lparr>records := records d @ [r]\<rparr>))))))"

definition find_record :: "db \<Rightarrow> string \<Rightarrow> record_row option" where
  "find_record d i = find (\<lambda>r. rc_id r = i) (records d)"

definition older_same_space :: "db \<Rightarrow> string \<Rightarrow> string \<Rightarrow> bool" where
  "older_same_space d source target =
     (case (find_record d source, find_record d target) of
        (Some s, Some t) \<Rightarrow> rc_space_id s = rc_space_id t \<and> rc_space_seq t < rc_space_seq s
      | _ \<Rightarrow> False)"

definition insert_relation :: "relation_row \<Rightarrow> db \<Rightarrow> sqlite_error + db" where
  "insert_relation r d =
     and_then (ensure (length (filter (\<lambda>x. re_source x = re_source r) (record_relations d)) < 32)
       (ConstraintTrigger ''relation limit exceeded'')) (\<lambda>_.
     and_then (ensure (older_same_space d (re_source r) (re_target r))
       (ConstraintTrigger ''relation target must be an older record in the source record space'')) (\<lambda>_.
     and_then (ensure (re_type r \<in> set (map relation_as_str RELATION_TYPES)
         \<and> 0 \<le> re_position r \<and> re_position r < 32 \<and> re_source r \<noteq> re_target r) ConstraintCheck) (\<lambda>_.
     and_then (ensure (\<not> list_ex (\<lambda>x. re_source x = re_source r \<and> re_type x = re_type r
         \<and> re_target x = re_target r) (record_relations d)) ConstraintPrimaryKey) (\<lambda>_.
     and_then (ensure (\<not> (re_type r = ''reply-to''
         \<and> list_ex (\<lambda>x. re_source x = re_source r \<and> re_type x = ''reply-to'') (record_relations d)))
       ConstraintUnique) (\<lambda>_.
     Inr (changed (d\<lparr>record_relations := record_relations d @ [r]\<rparr>)))))))"

definition insert_attention :: "attention_row \<Rightarrow> db \<Rightarrow> sqlite_error + db" where
  "insert_attention r d =
     and_then (ensure (length (filter (\<lambda>x. at_record_id x = at_record_id r) (attention d)) < 16)
       (ConstraintTrigger ''attention recipient limit exceeded'')) (\<lambda>_.
     and_then (ensure (\<not> list_ex (\<lambda>x. at_record_id x = at_record_id r \<and> at_recipient x = at_recipient r)
         (attention d)) ConstraintPrimaryKey) (\<lambda>_.
     and_then (ensure (at_record_id r \<in> rc_id ` set (records d) \<and> at_recipient r \<in> pr_id ` set (principals d))
       ConstraintForeignKey) (\<lambda>_.
     Inr (changed (d\<lparr>attention := attention d @ [r]\<rparr>)))))"

text \<open>\<open>INSERT ... VALUES (?,1) ON CONFLICT DO UPDATE SET last_seq=last_seq+1\<close>: SQLite turns an
  overflowing integer sum into a REAL, which the type check refuses.\<close>

definition bump_inbox_sequence :: "string \<Rightarrow> db \<Rightarrow> sqlite_error + db" where
  "bump_inbox_sequence recipient d =
     (case map_of (inbox_sequences d) recipient of
        Some n \<Rightarrow>
          and_then (ensure (n < i64_max) ConstraintCheck) (\<lambda>_.
          Inr (changed (d\<lparr>inbox_sequences := map (\<lambda>(p, k). if p = recipient then (p, k + 1) else (p, k))
            (inbox_sequences d)\<rparr>)))
      | None \<Rightarrow>
          and_then (ensure (recipient \<in> pr_id ` set (principals d)) ConstraintForeignKey) (\<lambda>_.
          Inr (changed (d\<lparr>inbox_sequences := inbox_sequences d @ [(recipient, 1)]\<rparr>))))"

definition insert_mailbox_item :: "mailbox_row \<Rightarrow> db \<Rightarrow> sqlite_error + db" where
  "insert_mailbox_item r d =
     and_then (ensure (mi_seq r > 0 \<and> mi_seq r \<le> i64_max) ConstraintCheck) (\<lambda>_.
     and_then (ensure (mi_id r \<notin> mi_id ` set (mailbox_items d)) ConstraintPrimaryKey) (\<lambda>_.
     and_then (ensure (\<not> list_ex (\<lambda>x. mi_recipient x = mi_recipient r
         \<and> (mi_seq x = mi_seq r \<or> mi_record_id x = mi_record_id r)) (mailbox_items d)) ConstraintUnique) (\<lambda>_.
     and_then (ensure (mi_record_id r \<in> rc_id ` set (records d) \<and> mi_recipient r \<in> pr_id ` set (principals d))
       ConstraintForeignKey) (\<lambda>_.
     Inr (changed (d\<lparr>mailbox_items := mailbox_items d @ [r]\<rparr>))))))"

definition insert_idempotency_key :: "idempotency_row \<Rightarrow> db \<Rightarrow> sqlite_error + db" where
  "insert_idempotency_key r d =
     and_then (ensure (between (sql_length (ik_path r)) 1 2048 \<and> between (sql_length (ik_key r)) 1 255)
       ConstraintCheck) (\<lambda>_.
     and_then (ensure (\<not> list_ex (\<lambda>x. ik_principal_id x = ik_principal_id r \<and> ik_path x = ik_path r
         \<and> ik_key x = ik_key r) (idempotency_keys d)) ConstraintPrimaryKey) (\<lambda>_.
     and_then (ensure (ik_principal_id r \<in> pr_id ` set (principals d) \<and> ik_record_id r \<in> rc_id ` set (records d))
       ConstraintForeignKey) (\<lambda>_.
     Inr (changed (d\<lparr>idempotency_keys := idempotency_keys d @ [r]\<rparr>)))))"

definition insert_cursor_secret :: "byte list \<Rightarrow> db \<Rightarrow> sqlite_error + db" where
  "insert_cursor_secret secret d =
     and_then (ensure (length secret = 32) ConstraintCheck) (\<lambda>_.
     and_then (ensure (cursor_secret d = None) ConstraintPrimaryKey) (\<lambda>_.
     Inr (changed (d\<lparr>cursor_secret := Some secret\<rparr>))))"

lemmas insert_defs = insert_principal_def insert_name_def insert_credential_def insert_receipt_def
  insert_credential_audit_def insert_audit_event_def insert_profile_key_def insert_space_def
  upsert_membership_def insert_record_def insert_relation_def insert_attention_def
  bump_inbox_sequence_def insert_mailbox_item_def insert_idempotency_key_def insert_cursor_secret_def

end
