(* ===== verification/Storage.thy ===== *)
theory Storage
  imports Schema
begin

text \<open>
  The audited transaction wrapper of journal-storage-sqlite: \<open>Database::with_transaction_for\<close>
  (lib.rs) with the external recovery audit it drives (recovery\_audit.rs): \<open>lock\<close>,
  \<open>ensure_open\<close>, \<open>prepare\<close>, \<open>committed\<close> and the security snapshot.

  A store is the committed central database and, when the database is protected, the audit
  file. Every I/O step of the wrapper may fail: \<open>fault\<close> gives, for the n-th wrapped
  transaction and each step, the error that step returns, if any.
\<close>

section \<open>Errors\<close>

datatype storage_error =
    StorageSqlite sqlite_error
  | Baseline sqlite_error
  | ResetRequired string
  | ConnectionPolicy string string string
  | StorageIo string string
  | InvalidRowCount string int
  | BackupDestinationExists string
  | BackupDestinationIsSource
  | BackupIntegrity string
  | RecoveryClosed string
  | RecoveryEvidence

section \<open>The security snapshot\<close>

datatype cell = CNull | CInteger int | CText string

text \<open>SQLite's order of values: NULL, then integers, then text.\<close>

instantiation cell :: linorder
begin

fun less_eq_cell :: "cell \<Rightarrow> cell \<Rightarrow> bool" where
  "less_eq_cell CNull y = True"
| "less_eq_cell (CInteger i) y = (case y of CNull \<Rightarrow> False | CInteger j \<Rightarrow> i \<le> j | CText t \<Rightarrow> True)"
| "less_eq_cell (CText s) y = (case y of CText t \<Rightarrow> s \<le> t | _ \<Rightarrow> False)"

definition less_cell :: "cell \<Rightarrow> cell \<Rightarrow> bool" where
  "less_cell x y \<longleftrightarrow> x \<le> y \<and> \<not> y \<le> x"

instance
proof
  fix x y z :: cell
  show "x < y \<longleftrightarrow> x \<le> y \<and> \<not> y \<le> x"
    by (simp add: less_cell_def)
  show "x \<le> x"
    by (cases x) auto
  show "x \<le> y \<Longrightarrow> y \<le> z \<Longrightarrow> x \<le> z"
    by (cases x; cases y; cases z) auto
  show "x \<le> y \<Longrightarrow> y \<le> x \<Longrightarrow> x = y"
    by (cases x; cases y) auto
  show "x \<le> y \<or> y \<le> x"
    by (cases x; cases y) auto
qed

end

record snapshot =
  sn_schema_version :: int
  sn_tables :: "cell list list list"
  sn_space_heads :: "(string \<times> int) list"
  sn_inbox_heads :: "(string \<times> int) list"

fun cell_opt :: "string option \<Rightarrow> cell" where
  "cell_opt None = CNull"
| "cell_opt (Some t) = CText t"

definition cell_bool :: "bool \<Rightarrow> cell" where
  "cell_bool b = CInteger (if b then 1 else 0)"

definition principal_cells :: "principal_row \<Rightarrow> cell list" where
  "principal_cells r = [CText (pr_id r), CText (pr_display_name r), CText (pr_created_at r),
     cell_opt (pr_disabled_at r), cell_opt (pr_description r), CInteger (pr_profile_revision r)]"

definition name_cells :: "name_row \<Rightarrow> cell list" where
  "name_cells r = [CText (nm_name r), CText (nm_principal_id r), CText (nm_kind r), CText (nm_created_at r)]"

definition space_cells :: "space_row \<Rightarrow> cell list" where
  "space_cells r = [CText (sp_id r), CText (sp_name r), CText (sp_access r), CText (sp_created_at r),
     cell_opt (sp_archived_at r)]"

definition membership_cells :: "membership_row \<Rightarrow> cell list" where
  "membership_cells r = [CText (mb_space_id r), CText (mb_principal_id r), cell_bool (mb_can_read r),
     cell_bool (mb_can_append r), cell_bool (mb_can_admin r), CText (mb_created_at r)]"

definition profile_key_cells :: "profile_key_row \<Rightarrow> cell list" where
  "profile_key_cells r = [CText (pk_principal_id r), CText (pk_key r), CText (pk_payload_hash r),
     CText (pk_response_json r), CText (pk_created_at r)]"

definition credential_cells :: "credential_row \<Rightarrow> cell list" where
  "credential_cells r = [CText (cr_id r), CText (cr_principal_id r), CText (cr_class r),
     CText (cr_token_hash r), CText (cr_created_at r), cell_opt (cr_expires_at r),
     cell_opt (cr_revoked_at r), cell_opt (cr_replacement r), cell_opt (cr_reason r)]"

definition receipt_cells :: "receipt_row \<Rightarrow> cell list" where
  "receipt_cells r = [CText (rr_token_hash r), CText (rr_credential_id r), CText (rr_principal_id r),
     CText (rr_request_json r), CText (rr_response_json r), CText (rr_created_at r)]"

definition credential_audit_cells :: "int \<times> credential_audit_row \<Rightarrow> cell list" where
  "credential_audit_cells ir = (case ir of (i, r) \<Rightarrow>
     [CInteger i, CText (ca_credential_id r), CText (ca_operation r), CText (ca_occurred_at r),
      cell_opt (ca_reason r)])"

definition audit_event_cells :: "audit_event_row \<Rightarrow> cell list" where
  "audit_event_cells r = [CText (ae_id r), CText (ae_event_type r), cell_opt (ae_actor r),
     CText (ae_subject_type r), CText (ae_subject_id r), CText (ae_detail_json r), CText (ae_created_at r)]"

text \<open>\<open>coalesce(max(space_seq),0)\<close> of the rows of one space.\<close>

definition space_head :: "db \<Rightarrow> string \<Rightarrow> int" where
  "space_head d sid = fold max (map rc_space_seq (filter (\<lambda>r. rc_space_id r = sid) (records d))) 0"

definition take_snapshot :: "db \<Rightarrow> snapshot" where
  "take_snapshot d = \<lparr>sn_schema_version = 13,
     sn_tables = [sort (map principal_cells (principals d)),
       sort (map name_cells (principal_names d)),
       sort (map space_cells (spaces d)),
       sort (map membership_cells (memberships d)),
       sort (map profile_key_cells (profile_idempotency_keys d)),
       sort (map credential_cells (credentials d)),
       sort (map receipt_cells (registration_receipts d)),
       sort (map credential_audit_cells (credential_audit d)),
       sort (map audit_event_cells (audit_events d))],
     sn_space_heads = map (\<lambda>sid. (sid, space_head d sid)) (sort (map sp_id (spaces d))),
     sn_inbox_heads = sort_key fst (inbox_sequences d)\<rparr>"

section \<open>The recovery audit\<close>

datatype outcome = Prepared | Committed | Reconciled

record audit_event =
  ev_revision :: int
  ev_snapshot :: "snapshot option"
  ev_outcome :: outcome

record table_verification =
  tv_name :: string
  tv_rows :: nat
  tv_sha256 :: string

record recovery_verification =
  rv_tables :: "table_verification list"
  rv_space_heads :: "(string \<times> int) list"

record recovery_approval =
  ap_verification :: recovery_verification
  ap_audit_revision :: int
  ap_previous_space_heads :: "(string \<times> int) list"
  ap_reconciled_clients :: "string list"
  ap_inventory_complete :: bool
  ap_accepted_record_loss :: bool

text \<open>The rows of \<open>recovery_events\<close>, in the order of their keys, by kind; like the snapshots, their
  documents are kept as values rather than as the JSON text.\<close>

datatype recovery_event =
    ClosedOffline
  | BackedUp recovery_verification
  | ReconciledAs recovery_approval
  | VerifiedRestore recovery_approval
  | CrashRecovered string

record recovery_audit =
  au_format :: int
  au_journal_id :: string
  au_open :: bool
  au_events :: "audit_event list"
  au_recovery_events :: "recovery_event list"

record store =
  central :: db
  audit :: "recovery_audit option"
  transactions :: nat

datatype storage_step =
    LockAudit | OpenAudit | ReadControl | ReadHead | ReadAnchor
  | ConnectCentral | BeginImmediate
  | OpenAuditPrepare | ReadHeadPrepare | ReadSnapshot | InsertIntent | UpdateAnchor
  | CommitCentral | RollbackCentral
  | OpenAuditComplete | BeginComplete | UpdateOutcome | ReleaseSnapshots | CommitComplete
  | ConnectReadOnly | BeginRead

type_synonym faults = "nat \<Rightarrow> storage_step \<Rightarrow> storage_error option"

text \<open>A step that fails as the environment decides.\<close>

definition attempt :: "storage_error option \<Rightarrow> storage_error + unit" where
  "attempt f = (case f of None \<Rightarrow> Inr () | Some e \<Rightarrow> Inl e)"

text \<open>\<open>ORDER BY revision DESC LIMIT 1\<close>.\<close>

definition head_event :: "recovery_audit \<Rightarrow> audit_event option" where
  "head_event a = (case au_events a of [] \<Rightarrow> None
     | e # es \<Rightarrow> Some (fold (\<lambda>x m. if ev_revision m < ev_revision x then x else m) es e))"

definition head :: "recovery_audit \<Rightarrow> storage_error + (int \<times> outcome)" where
  "head a = (case head_event a of None \<Rightarrow> Inl (StorageSqlite QueryReturnedNoRows)
     | Some e \<Rightarrow> Inr (ev_revision e, ev_outcome e))"

definition ensure_open :: "(storage_step \<Rightarrow> storage_error option) \<Rightarrow> db \<Rightarrow> recovery_audit \<Rightarrow> storage_error + unit" where
  "ensure_open fault d a =
     and_then (attempt (fault OpenAudit)) (\<lambda>_.
     and_then (attempt (fault ReadControl)) (\<lambda>_.
     and_then (attempt (fault ReadHead)) (\<lambda>_.
     and_then (head a) (\<lambda>(revision, oc).
     and_then (attempt (fault ReadAnchor)) (\<lambda>_.
     ensure (au_open a \<and> oc \<noteq> Prepared \<and> revision = anchor_revision d)
       (RecoveryClosed ''audit intent, restore, or reconciliation is unresolved''))))))"

text \<open>\<open>prepare\<close> first makes the intent durable in the audit, then moves the anchor inside the
  central transaction: its result is the new audit with the outcome of the call.
  \<open>prepare_revision\<close> is its first half, up to the durable intent.\<close>

definition prepare_revision :: "(storage_step \<Rightarrow> storage_error option) \<Rightarrow> recovery_audit \<Rightarrow> storage_error + int" where
  "prepare_revision fault a =
     and_then (attempt (fault OpenAuditPrepare)) (\<lambda>_.
     and_then (attempt (fault ReadHeadPrepare)) (\<lambda>_.
     and_then (head a) (\<lambda>(revision, oc).
     and_then (ensure (oc \<noteq> Prepared) (RecoveryClosed ''external intent is unresolved'')) (\<lambda>_.
     and_then (attempt (fault ReadSnapshot)) (\<lambda>_.
     and_then (ensure (revision < i64_max) (RecoveryClosed ''audit revision exhausted'')) (\<lambda>_.
     and_then (attempt (fault InsertIntent)) (\<lambda>_. Inr (revision + 1))))))))"

definition prepare :: "(storage_step \<Rightarrow> storage_error option) \<Rightarrow> db \<Rightarrow> recovery_audit
    \<Rightarrow> (storage_error + int \<times> db) \<times> recovery_audit" where
  "prepare fault d a =
     (case prepare_revision fault a of
        Inl e \<Rightarrow> (Inl e, a)
      | Inr revision \<Rightarrow>
          (and_then (attempt (fault UpdateAnchor)) (\<lambda>_.
             Inr (revision, changed (d\<lparr>anchor_revision := revision\<rparr>))),
           a\<lparr>au_events := au_events a @
             [\<lparr>ev_revision = revision, ev_snapshot = Some (take_snapshot d), ev_outcome = Prepared\<rparr>]\<rparr>))"

definition release_superseded_snapshots :: "int \<Rightarrow> audit_event list \<Rightarrow> audit_event list" where
  "release_superseded_snapshots revision =
     map (\<lambda>e. if ev_revision e < revision then e\<lparr>ev_snapshot := None\<rparr> else e)"

definition complete_event :: "int \<Rightarrow> audit_event list \<Rightarrow> audit_event list" where
  "complete_event revision =
     map (\<lambda>e. if ev_revision e = revision \<and> ev_outcome e = Prepared then e\<lparr>ev_outcome := Committed\<rparr> else e)"

definition committed :: "(storage_step \<Rightarrow> storage_error option) \<Rightarrow> int option \<Rightarrow> recovery_audit
    \<Rightarrow> storage_error + recovery_audit" where
  "committed fault intent a = (case intent of None \<Rightarrow> Inr a | Some revision \<Rightarrow>
     and_then (attempt (fault OpenAuditComplete)) (\<lambda>_.
     and_then (attempt (fault BeginComplete)) (\<lambda>_.
     and_then (attempt (fault UpdateOutcome)) (\<lambda>_.
     and_then (ensure (length (filter (\<lambda>e. ev_revision e = revision \<and> ev_outcome e = Prepared) (au_events a)) = 1)
       (RecoveryClosed ''audit completion did not match intent'')) (\<lambda>_.
     and_then (attempt (fault ReleaseSnapshots)) (\<lambda>_.
     and_then (attempt (fault CommitComplete)) (\<lambda>_.
     Inr (a\<lparr>au_events := release_superseded_snapshots revision (complete_event revision (au_events a))\<rparr>))))))))"

text \<open>\<open>connect\<close> refuses a protected database, which only the audited wrapper may write.\<close>

definition reject_protected_writer :: "db \<Rightarrow> storage_error + unit" where
  "reject_protected_writer d = ensure (\<not> audit_required d)
     (RecoveryClosed ''protected writes require the audited transaction wrapper'')"

section \<open>The transaction wrapper\<close>

definition open_transaction :: "(storage_step \<Rightarrow> storage_error option) \<Rightarrow> store \<Rightarrow> storage_error + unit" where
  "open_transaction fault s =
     and_then (case audit s of
         None \<Rightarrow> and_then (attempt (fault ConnectCentral)) (\<lambda>_. reject_protected_writer (central s))
       | Some a \<Rightarrow>
           and_then (attempt (fault LockAudit)) (\<lambda>_.
           and_then (ensure_open fault (central s) a) (\<lambda>_.
           attempt (fault ConnectCentral)))) (\<lambda>_.
     attempt (fault BeginImmediate))"

text \<open>After a successful operation that left the transaction's database at \<open>d\<close>: prepare the
  intent when the operation changed anything, commit, and complete the intent. A failure
  before the commit drops the transaction, which rolls it back.\<close>

definition prepare_intent :: "(storage_step \<Rightarrow> storage_error option) \<Rightarrow> db \<Rightarrow> store
    \<Rightarrow> (storage_error + int option \<times> db) \<times> store" where
  "prepare_intent fault d s =
     (case audit s of
        None \<Rightarrow> (Inr (None, d), s)
      | Some a \<Rightarrow>
          if total_changes d = total_changes (central s) then (Inr (None, d), s)
          else (case prepare fault d a of
                  (Inl e, a') \<Rightarrow> (Inl e, s\<lparr>audit := Some a'\<rparr>)
                | (Inr (revision, d'), a') \<Rightarrow> (Inr (Some revision, d'), s\<lparr>audit := Some a'\<rparr>)))"

definition finish_transaction :: "(storage_step \<Rightarrow> storage_error option) \<Rightarrow> db \<Rightarrow> store
    \<Rightarrow> (storage_error + unit) \<times> store" where
  "finish_transaction fault d s =
     (case prepare_intent fault d s of
        (Inl e, s') \<Rightarrow> (Inl e, s')
      | (Inr (intent, d'), s') \<Rightarrow>
          (case fault CommitCentral of
             Some e \<Rightarrow> (Inl e, s')
           | None \<Rightarrow>
               (case audit s' of
                  None \<Rightarrow> (Inr (), s'\<lparr>central := d'\<rparr>)
                | Some a \<Rightarrow>
                    (case committed fault intent a of
                       Inl e \<Rightarrow> (Inl e, s'\<lparr>central := d'\<rparr>)
                     | Inr a' \<Rightarrow> (Inr (), s'\<lparr>central := d', audit := Some a'\<rparr>)))))"

text \<open>The operation sees the transaction's database and whatever other state \<open>'z\<close> the caller
  threads; a rollback undoes the former and not the latter.\<close>

definition with_transaction_for :: "faults \<Rightarrow> (storage_error \<Rightarrow> 'e)
    \<Rightarrow> (db \<times> 'z \<Rightarrow> ('e + 'a) \<times> db \<times> 'z) \<Rightarrow> store \<times> 'z \<Rightarrow> ('e + 'a) \<times> store \<times> 'z" where
  "with_transaction_for faults wrap operation sz =
     (case sz of (s0, z) \<Rightarrow>
      let fault = faults (transactions s0);
          s = s0\<lparr>transactions := transactions s0 + 1\<rparr> in
      (case open_transaction fault s of
         Inl e \<Rightarrow> (Inl (wrap e), s, z)
       | Inr _ \<Rightarrow>
           (case operation (central s, z) of
              (Inr value, d, z') \<Rightarrow>
                (case finish_transaction fault d s of
                   (Inl e, s') \<Rightarrow> (Inl (wrap e), s', z')
                 | (Inr _, s') \<Rightarrow> (Inr value, s', z'))
            | (Inl e, d, z') \<Rightarrow>
                (case fault RollbackCentral of
                   Some f \<Rightarrow> (Inl (wrap f), s, z')
                 | None \<Rightarrow> (Inl e, s, z')))))"

text \<open>The read path: one step against the store, which may fail.\<close>

definition storage_io :: "faults \<Rightarrow> (storage_error \<Rightarrow> 'e) \<Rightarrow> storage_step \<Rightarrow> store \<times> 'z \<Rightarrow> ('e + unit) \<times> store \<times> 'z" where
  "storage_io faults wrap step sz =
     (case sz of (s, z) \<Rightarrow>
      (map_err wrap (attempt (faults (transactions s) step)), s\<lparr>transactions := transactions s + 1\<rparr>, z))"

section \<open>What a transaction does\<close>

lemma attempt_iff [result_simps]: "attempt f = Inr u \<longleftrightarrow> f = None"
  "attempt f = Inl e \<longleftrightarrow> f = Some e"
  by (cases f; simp add: attempt_def)+

lemma attempt_None [simp]: "attempt None = Inr ()"
  by (simp add: attempt_def)

text \<open>\<open>d'\<close> is \<open>d\<close> as the wrapper commits it: with the anchor moved when an intent was prepared.\<close>

definition committed_as :: "db \<Rightarrow> db \<Rightarrow> bool" where
  "committed_as d d' \<longleftrightarrow> d' = d \<or> (\<exists>revision. d' = changed (d\<lparr>anchor_revision := revision\<rparr>))"

definition head_prepared :: "store \<Rightarrow> bool" where
  "head_prepared s = (case audit s of None \<Rightarrow> False
     | Some a \<Rightarrow> (case head_event a of None \<Rightarrow> False | Some e \<Rightarrow> ev_outcome e = Prepared))"

lemma prepare_revision_Inr:
  "prepare_revision fault a = Inr n \<Longrightarrow>
    \<exists>revision oc. head a = Inr (revision, oc) \<and> oc \<noteq> Prepared \<and> revision < i64_max \<and> n = revision + 1"
  by (auto simp: prepare_revision_def result_simps)

lemma prepare_cases:
  assumes "prepare fault d a = (r, a')"
  obtains (refused) e where "r = Inl e" "a' = a"
  | (intent) revision oc where "head a = Inr (revision, oc)" "oc \<noteq> Prepared" "revision < i64_max"
      "a' = a\<lparr>au_events := au_events a @
         [\<lparr>ev_revision = revision + 1, ev_snapshot = Some (take_snapshot d), ev_outcome = Prepared\<rparr>]\<rparr>"
      "r = Inr (revision + 1, changed (d\<lparr>anchor_revision := revision + 1\<rparr>)) \<or> (\<exists>e. r = Inl e)"
proof (cases "prepare_revision fault a")
  case (Inl e)
  then show ?thesis
    using assms refused by (auto simp: prepare_def)
next
  case (Inr n)
  obtain revision oc where h: "head a = Inr (revision, oc)" "oc \<noteq> Prepared" "revision < i64_max" "n = revision + 1"
    using prepare_revision_Inr [OF Inr] by blast
  have "r = Inr (revision + 1, changed (d\<lparr>anchor_revision := revision + 1\<rparr>)) \<or> (\<exists>e. r = Inl e)"
    using assms Inr h(4) by (cases "fault UpdateAnchor") (auto simp: prepare_def attempt_def)
  then show ?thesis
    using assms Inr h by (intro intent [OF h(1-3)]) (simp_all add: prepare_def)
qed

text \<open>The outcomes of the work after a successful operation.\<close>

lemma finish_cases:
  assumes "finish_transaction fault d s = (r, s')"
  obtains (refused) e where "r = Inl e" "s' = s"
  | (plain) "r = Inr ()" "s' = s\<lparr>central := d\<rparr>" "audit s = None \<or> total_changes d = total_changes (central s)"
  | (uncommitted) a a' intent e where "audit s = Some a" "prepare fault d a = (intent, a')"
      "total_changes d \<noteq> total_changes (central s)" "r = Inl e" "s' = s\<lparr>audit := Some a'\<rparr>"
  | (uncompleted) a a' revision d' e where "audit s = Some a"
      "prepare fault d a = (Inr (revision, d'), a')" "total_changes d \<noteq> total_changes (central s)"
      "r = Inl e" "s' = s\<lparr>central := d', audit := Some a'\<rparr>"
  | (completed) a a' a'' revision d' where "audit s = Some a"
      "prepare fault d a = (Inr (revision, d'), a')" "total_changes d \<noteq> total_changes (central s)"
      "committed fault (Some revision) a' = Inr a''" "r = Inr ()"
      "s' = s\<lparr>central := d', audit := Some a''\<rparr>"
proof (cases "audit s")
  case None
  then show ?thesis
    using assms that(1,2)
    by (auto simp: finish_transaction_def prepare_intent_def split: option.splits)
next
  case (Some a)
  show ?thesis
  proof (cases "total_changes d = total_changes (central s)")
    case True
    then show ?thesis
      using assms that(1,2) Some
      by (auto simp: finish_transaction_def prepare_intent_def committed_def split: option.splits)
  next
    case False
    obtain ri a' where "prepare fault d a = (ri, a')"
      by (cases "prepare fault d a")
    then show ?thesis
      using assms that(3-5) Some False
      by (auto simp: finish_transaction_def prepare_intent_def
          split: option.splits sum.splits prod.splits)
  qed
qed

lemma with_transaction_cases:
  assumes "with_transaction_for faults wrap op (s, z) = (r, s', z')"
  obtains (refused) e where "open_transaction (faults (transactions s)) (s\<lparr>transactions := transactions s + 1\<rparr>) = Inl e"
      "r = Inl (wrap e)" "s' = s\<lparr>transactions := transactions s + 1\<rparr>" "z' = z"
  | (rolled_back) e d where "op (central s, z) = (Inl e, d, z')" "\<exists>e'. r = Inl e'"
      "s' = s\<lparr>transactions := transactions s + 1\<rparr>"
  | (ran) v d rf where "op (central s, z) = (Inr v, d, z')"
      "open_transaction (faults (transactions s)) (s\<lparr>transactions := transactions s + 1\<rparr>) = Inr ()"
      "finish_transaction (faults (transactions s)) d (s\<lparr>transactions := transactions s + 1\<rparr>) = (rf, s')"
      "r = (case rf of Inl e \<Rightarrow> Inl (wrap e) | Inr _ \<Rightarrow> Inr v)"
  using assms
  by (auto simp: with_transaction_for_def Let_def split: sum.splits prod.splits option.splits)

lemma head_event_sorted:
  assumes "sorted_wrt (<) (map ev_revision (au_events a))" "au_events a \<noteq> []"
  shows "head_event a = Some (last (au_events a))"
proof -
  have max: "sorted_wrt (<) (ev_revision m # map ev_revision es) \<Longrightarrow>
      fold (\<lambda>x m. if ev_revision m < ev_revision x then x else m) es m = last (m # es)" for m es
    by (induction es arbitrary: m) auto
  obtain m es where "au_events a = m # es"
    using assms(2) by (cases "au_events a") auto
  then show ?thesis
    using assms(1) max [of m es] by (simp add: head_event_def)
qed

section \<open>Consistency of the audit with the database\<close>

text \<open>Revisions increase, only the newest event can be an unresolved intent, and the audit
  holds the security snapshot of exactly the committed database: in the head when the head is
  resolved; in the head or, when its central commit never happened, in its predecessor when it
  is not.\<close>

definition describes :: "audit_event \<Rightarrow> db \<Rightarrow> bool" where
  "describes e d \<longleftrightarrow> ev_revision e = anchor_revision d \<and> ev_snapshot e = Some (take_snapshot d)"

definition audit_events_ok :: "audit_event list \<Rightarrow> bool" where
  "audit_events_ok es \<longleftrightarrow> es \<noteq> [] \<and> sorted_wrt (<) (map ev_revision es)
     \<and> list_all (\<lambda>e. ev_outcome e \<noteq> Prepared) (butlast es)"

definition audit_consistent :: "store \<Rightarrow> bool" where
  "audit_consistent s = (case audit s of None \<Rightarrow> True | Some a \<Rightarrow>
     audit_events_ok (au_events a)
     \<and> (describes (last (au_events a)) (central s)
        \<or> (ev_outcome (last (au_events a)) = Prepared \<and> butlast (au_events a) \<noteq> []
           \<and> describes (last (butlast (au_events a))) (central s))))"

text \<open>What the wrapper needs of an operation: one that executed no change left the database as
  it was.\<close>

definition tx_contract :: "(db \<times> 'z \<Rightarrow> ('e + 'a) \<times> db \<times> 'z) \<Rightarrow> bool" where
  "tx_contract op \<longleftrightarrow> (\<forall>d z v d' z'. op (d, z) = (Inr v, d', z') \<longrightarrow>
     total_changes d' = total_changes d \<longrightarrow> d' = d)"

lemma take_snapshot_anchor [simp]:
  "take_snapshot (changed (d\<lparr>anchor_revision := n\<rparr>)) = take_snapshot d"
  by (simp add: take_snapshot_def changed_def space_head_def)

lemma head_ok:
  "audit_events_ok (au_events a) \<Longrightarrow>
    head a = Inr (ev_revision (last (au_events a)), ev_outcome (last (au_events a)))"
  by (simp add: head_def head_event_sorted audit_events_ok_def)

lemma audit_events_ok_snoc:
  assumes "audit_events_ok es" "ev_outcome (last es) \<noteq> Prepared" "ev_revision (last es) < ev_revision e"
  shows "audit_events_ok (es @ [e])"
proof -
  obtain ys x where es: "es = ys @ [x]"
    using assms(1) by (metis audit_events_ok_def rev_exhaust)
  then show ?thesis
    using assms by (auto simp: audit_events_ok_def sorted_wrt_append butlast_append)
qed

lemma committed_events:
  assumes "committed fault (Some n) a = Inr a'" "au_events a = es @ [e]" "ev_revision e = n"
    "ev_outcome e = Prepared" "audit_events_ok (es @ [e])"
  shows "au_events a' = map (\<lambda>x. x\<lparr>ev_snapshot := None\<rparr>) es @ [e\<lparr>ev_outcome := Committed\<rparr>]"
proof -
  have "ev_revision x < n \<and> ev_revision x \<noteq> n" if "x \<in> set es" for x
    using assms(3,5) that by (auto simp: audit_events_ok_def sorted_wrt_append)
  then have "release_superseded_snapshots n (complete_event n (es @ [e]))
      = map (\<lambda>x. x\<lparr>ev_snapshot := None\<rparr>) es @ [e\<lparr>ev_outcome := Committed\<rparr>]"
    using assms(3,4) by (simp add: complete_event_def release_superseded_snapshots_def)
  then show ?thesis
    using assms(1,2) by (auto simp: committed_def result_simps)
qed

text \<open>An intent prepared on a consistent store: the head was resolved and describes the database.\<close>

lemma prepared_on_consistent:
  assumes "prepare fault d a = (r, a')" "audit_consistent s" "audit s = Some a"
  shows "a' = a \<and> (\<exists>e. r = Inl e) \<or>
    (\<exists>e. au_events a' = au_events a @ [e] \<and> audit_events_ok (au_events a @ [e])
       \<and> ev_outcome e = Prepared \<and> describes (last (au_events a)) (central s)
       \<and> ev_snapshot e = Some (take_snapshot d)
       \<and> (r = Inr (ev_revision e, changed (d\<lparr>anchor_revision := ev_revision e\<rparr>)) \<or> (\<exists>x. r = Inl x)))"
  using assms(1)
proof (cases rule: prepare_cases)
  case refused
  then show ?thesis by simp
next
  case (intent revision oc)
  have ok: "audit_events_ok (au_events a)" and
    d: "describes (last (au_events a)) (central s) \<or> ev_outcome (last (au_events a)) = Prepared"
    using assms(2,3) by (auto simp: audit_consistent_def)
  then have "revision = ev_revision (last (au_events a))" "oc = ev_outcome (last (au_events a))"
    using intent(1) head_ok [OF ok] by simp_all
  then show ?thesis
    using intent ok d by (auto intro: audit_events_ok_snoc)
qed

lemma finish_consistent:
  assumes "finish_transaction fault d s = (r, s')" "audit_consistent s"
    "total_changes d = total_changes (central s) \<longrightarrow> d = central s"
  shows "audit_consistent s'"
  using assms(1)
proof (cases rule: finish_cases)
  case refused
  then show ?thesis using assms(2) by simp
next
  case plain
  then show ?thesis
    using assms(2,3) by (cases "audit s") (simp_all add: audit_consistent_def)
next
  case (uncommitted a a' intent e)
  then show ?thesis
    using prepared_on_consistent [OF uncommitted(2) assms(2) uncommitted(1)] assms(2)
    by (auto simp: audit_consistent_def audit_events_ok_def)
next
  case (uncompleted a a' revision d' e)
  then show ?thesis
    using prepared_on_consistent [OF uncompleted(2) assms(2) uncompleted(1)]
    by (auto simp: audit_consistent_def describes_def) (simp_all add: changed_def)
next
  case (completed a a' a'' revision d')
  obtain e where e: "au_events a' = au_events a @ [e]" "audit_events_ok (au_events a @ [e])"
      "ev_outcome e = Prepared" "ev_snapshot e = Some (take_snapshot d)" "revision = ev_revision e"
      "d' = changed (d\<lparr>anchor_revision := revision\<rparr>)"
    using prepared_on_consistent [OF completed(2) assms(2) completed(1)] by auto
  have "au_events a'' = map (\<lambda>x. x\<lparr>ev_snapshot := None\<rparr>) (au_events a) @ [e\<lparr>ev_outcome := Committed\<rparr>]"
    using committed_events [OF completed(4) e(1) e(5) [symmetric] e(3,2)] .
  then show ?thesis
    using completed(6) e
    by (auto simp: audit_consistent_def describes_def audit_events_ok_def sorted_wrt_append
        comp_def list_all_iff dest: in_set_butlastD) (simp_all add: changed_def)
qed

lemma consistent_transactions [simp]:
  "audit_consistent (s\<lparr>transactions := n\<rparr>) = audit_consistent s"
  by (cases "audit s") (simp_all add: audit_consistent_def)

lemma finish_atomic:
  assumes "finish_transaction fault d s = (r, s')" "audit_consistent s"
  shows "case r of Inr _ \<Rightarrow> committed_as d (central s')
         | Inl _ \<Rightarrow> central s' = central s \<or> head_prepared s' \<and> committed_as d (central s')"
  using assms(1)
proof (cases rule: finish_cases)
  case (uncompleted a a' revision d' e)
  then obtain x where "au_events a' = au_events a @ [x]" "audit_events_ok (au_events a @ [x])"
    "ev_outcome x = Prepared" "d' = changed (d\<lparr>anchor_revision := revision\<rparr>)"
    using prepared_on_consistent [OF uncompleted(2) assms(2) uncompleted(1)] by auto
  then show ?thesis
    using uncompleted by (auto simp: head_prepared_def committed_as_def head_event_sorted audit_events_ok_def)
next
  case (completed a a' a'' revision d')
  then have "d' = changed (d\<lparr>anchor_revision := revision\<rparr>)"
    using prepared_on_consistent [OF completed(2) assms(2) completed(1)] by auto
  then show ?thesis
    using completed by (auto simp: committed_as_def)
qed (simp_all add: committed_as_def)

text \<open>C4. A transaction is all or nothing. When \<open>with_transaction_for\<close> succeeds, the committed
  database is the one the operation left (with the recovery anchor advanced when it changed
  something). When it fails, the committed database is untouched, except in one case: the
  operation succeeded and was committed but the external intent could not be completed, and
  then the audit's head is an unresolved intent.\<close>

theorem transaction_atomic:
  assumes "with_transaction_for faults wrap op (s, z) = (r, s', z')" "audit_consistent s"
  shows "case r of
      Inr v \<Rightarrow> \<exists>d. op (central s, z) = (Inr v, d, z') \<and> committed_as d (central s')
    | Inl _ \<Rightarrow> central s' = central s
        \<or> head_prepared s' \<and> (\<exists>v d. op (central s, z) = (Inr v, d, z') \<and> committed_as d (central s'))"
  using assms(1)
proof (cases rule: with_transaction_cases)
  case (ran v d rf)
  then show ?thesis
    using finish_atomic [OF ran(3)] assms(2) by (auto split: sum.splits)
qed auto

text \<open>C16. Fail closed: while the audit's head is an unresolved intent, every audited
  transaction is refused before its operation runs, and nothing but the attempt counter
  changes.\<close>

theorem unresolved_intent_refuses:
  assumes "head_prepared s"
  shows "\<exists>e. with_transaction_for faults wrap op (s, z)
    = (Inl (wrap e), s\<lparr>transactions := transactions s + 1\<rparr>, z)"
proof -
  obtain a e where a: "audit s = Some a" "head_event a = Some e" "ev_outcome e = Prepared"
    using assms by (auto simp: head_prepared_def split: option.splits)
  have closed: "ensure_open fault d a \<noteq> Inr ()" for fault d
    using a by (auto simp: ensure_open_def head_def result_simps)
  have "open_transaction fault (s\<lparr>transactions := n\<rparr>) \<noteq> Inr ()" for fault n
    using a(1) closed by (simp add: open_transaction_def result_simps)
  then obtain x where "open_transaction (faults (transactions s)) (s\<lparr>transactions := transactions s + 1\<rparr>) = Inl x"
    by (metis (full_types) old.unit.exhaust sumE)
  then show ?thesis
    by (auto simp: with_transaction_for_def Let_def)
qed

text \<open>Every transaction keeps the recovery audit consistent with the central database,
  whatever step fails: event revisions increase, only the newest event is unresolved, and the
  audit retains the security snapshot of the database as committed.\<close>

lemma transaction_keeps_audit_consistent:
  assumes "with_transaction_for faults wrap op (s, z) = (r, s', z')" "tx_contract op" "audit_consistent s"
  shows "audit_consistent s'"
  using assms(1)
proof (cases rule: with_transaction_cases)
  case (ran v d rf)
  have "total_changes d = total_changes (central s) \<longrightarrow> d = central s"
    using assms(2) ran(1) unfolding tx_contract_def by blast
  then show ?thesis
    using finish_consistent [OF ran(3)] assms(3) by simp
qed (use assms(3) in simp_all)

section \<open>Database invariants\<close>

text \<open>An invariant of the central database that does not look at the wrapper's own columns is
  kept by a transaction whose operation keeps it when it succeeds.\<close>

locale db_invariant =
  fixes inv :: "db \<Rightarrow> bool"
  assumes wrapper_columns: "inv d \<Longrightarrow> inv (d\<lparr>anchor_revision := n, total_changes := k\<rparr>)"
begin

lemma committed_inv: "committed_as d d' \<Longrightarrow> inv d \<Longrightarrow> inv d'"
  using wrapper_columns [of d] by (auto simp: committed_as_def changed_def)

lemma finish_committed:
  assumes "finish_transaction fault d s = (r, s')"
  shows "central s' = central s \<or> committed_as d (central s')"
  using assms
proof (cases rule: finish_cases)
  case (uncompleted a a' revision d' e)
  then show ?thesis
    using uncompleted(2) by (auto simp: committed_as_def elim: prepare_cases)
next
  case (completed a a' a'' revision d')
  then show ?thesis
    using completed(2) by (auto simp: committed_as_def elim: prepare_cases)
qed (simp_all add: committed_as_def)

lemma transaction_inv:
  assumes "with_transaction_for faults wrap op (s, z) = (r, s', z')" "inv (central s)"
    "\<And>v d. op (central s, z) = (Inr v, d, z') \<Longrightarrow> inv d"
  shows "inv (central s')"
  using assms(1)
proof (cases rule: with_transaction_cases)
  case (ran v d rf)
  then show ?thesis
    using finish_committed [OF ran(3)] assms(2,3) committed_inv by auto
qed (use assms(2) in simp_all)

end

end
