(* ===== verification/Documents.thy ===== *)
theory Documents
  imports Cursor
begin

text \<open>
  The JSON documents the service stores and reads back: principals and registration receipts
  (journal-domain/src/lib.rs, journal-protocol/src/dto.rs), the requests whose text is hashed or
  compared on a replay, and append results. Serialisers list the members in the order of the
  struct's fields, leaving out what \<open>skip_serializing_if\<close> leaves out; deserialisers read members
  by name.
\<close>

section \<open>Reading members\<close>

definition default_field :: "(string \<times> json) list \<Rightarrow> string \<Rightarrow> 'a \<Rightarrow> (json \<Rightarrow> 'a option) \<Rightarrow> 'a option" where
  "default_field fs k dflt read = (case map_of fs k of None \<Rightarrow> Some dflt | Some v \<Rightarrow> read v)"

definition json_nullable_str :: "json \<Rightarrow> string option option" where
  "json_nullable_str v = (case v of JNull \<Rightarrow> Some None | _ \<Rightarrow> map_option Some (json_str v))"

text \<open>\<open>deserialize_optional_non_null_string\<close>: a member that is present must be a string.\<close>

definition json_non_null_str :: "json \<Rightarrow> string option option" where
  "json_non_null_str v = map_option Some (json_str v)"

definition json_list :: "(json \<Rightarrow> 'a option) \<Rightarrow> json \<Rightarrow> 'a list option" where
  "json_list read v = (case v of JArr xs \<Rightarrow> those (map read xs) | _ \<Rightarrow> None)"

section \<open>Principals, receipts and requests\<close>

definition principal_json :: "principal \<Rightarrow> json" where
  "principal_json p = JObj (
     [(''id'', JStr (p_id p)), (''handle'', JStr (p_handle p)), (''display_name'', JStr (p_display_name p))]
     @ opt_member ''description'' (p_description p)
     @ [(''profile_revision'', JInt (p_profile_revision p)), (''created_at'', JStr (p_created_at p)),
        (''disabled'', JBool (p_disabled p))])"

definition principal_of_json :: "json \<Rightarrow> principal option" where
  "principal_of_json v =
     Option.bind (struct_fields [''id'', ''handle'', ''display_name'', ''description'',
         ''profile_revision'', ''created_at'', ''disabled''] v) (\<lambda>fs.
     Option.bind (field fs ''id'' json_str) (\<lambda>pid.
     Option.bind (field fs ''handle'' json_str) (\<lambda>handle.
     Option.bind (field fs ''display_name'' json_str) (\<lambda>display_name.
     Option.bind (default_field fs ''description'' None json_non_null_str) (\<lambda>description.
     Option.bind (field fs ''profile_revision'' json_i64) (\<lambda>profile_revision.
     Option.bind (field fs ''created_at'' json_str) (\<lambda>created_at.
     Option.bind (field fs ''disabled'' json_bool) (\<lambda>disabled.
     Some \<lparr>p_id = pid, p_handle = handle, p_display_name = display_name, p_description = description,
       p_profile_revision = profile_revision, p_created_at = created_at, p_disabled = disabled\<rparr>))))))))"

definition registration_receipt_json :: "registration_receipt \<Rightarrow> json" where
  "registration_receipt_json r =
     JObj [(''principal'', principal_json (rg_principal r)), (''credential_id'', JStr (rg_credential_id r))]"

definition registration_receipt_of_json :: "json \<Rightarrow> registration_receipt option" where
  "registration_receipt_of_json v =
     Option.bind (struct_fields [''principal'', ''credential_id''] v) (\<lambda>fs.
     Option.bind (field fs ''principal'' principal_of_json) (\<lambda>p.
     Option.bind (field fs ''credential_id'' json_str) (\<lambda>credential_id.
     Some \<lparr>rg_principal = p, rg_credential_id = credential_id\<rparr>)))"

definition principal_create_json :: "principal_create_request \<Rightarrow> json" where
  "principal_create_json r =
     JObj [(''handle'', JStr (pc_handle r)), (''display_name'', JStr (pc_display_name r))]"

definition profile_update_json :: "profile_update_request \<Rightarrow> json" where
  "profile_update_json r = JObj (
     [(''handle'', JStr (pu_handle r)), (''display_name'', JStr (pu_display_name r))]
     @ opt_member ''description'' (pu_description r)
     @ [(''expected_profile_revision'', JInt (pu_expected_profile_revision r))])"

section \<open>Records and append results\<close>

definition record_json :: "journal_record \<Rightarrow> json" where
  "record_json r = JObj (
     [(''id'', JStr (r_id r)), (''space_id'', JStr (r_space_id r)), (''seq'', JInt (r_seq r)),
      (''author'', JStr (r_author r)), (''kind'', JStr (r_kind r)), (''content'', JStr (r_content r))]
     @ opt_member ''run_id'' (r_run_id r)
     @ [(''created_at'', JStr (r_created_at r))]
     @ (if r_attention r = [] then [] else [(''attention'', JArr (map JStr (r_attention r)))])
     @ opt_member ''routing_key'' (r_routing_key r)
     @ [(''relations'', JArr (map relation_json (r_relations r)))]
     @ opt_member ''title'' (r_title r))"

definition relation_type_names :: "(string \<times> relation_type) list" where
  "relation_type_names = map (\<lambda>t. (relation_as_str t, t)) RELATION_TYPES"

definition relation_of_json :: "json \<Rightarrow> relation option" where
  "relation_of_json v =
     Option.bind (struct_fields [''type'', ''record_id''] v) (\<lambda>fs.
     if \<not> list_all (\<lambda>(k, _). k \<in> {''type'', ''record_id''}) fs then None
     else
       Option.bind (field fs ''type'' (unit_variant relation_type_names)) (\<lambda>t.
       Option.bind (field fs ''record_id'' json_str) (\<lambda>i.
       Some \<lparr>rl_type = t, rl_record_id = i\<rparr>)))"

definition record_of_json :: "json \<Rightarrow> journal_record option" where
  "record_of_json v =
     Option.bind (struct_fields [''id'', ''space_id'', ''seq'', ''author'', ''kind'', ''content'',
         ''run_id'', ''created_at'', ''attention'', ''routing_key'', ''relations'', ''title''] v) (\<lambda>fs.
     Option.bind (field fs ''id'' json_str) (\<lambda>i.
     Option.bind (field fs ''space_id'' json_str) (\<lambda>space_id.
     Option.bind (field fs ''seq'' json_i64) (\<lambda>seq.
     Option.bind (field fs ''author'' json_str) (\<lambda>author.
     Option.bind (field fs ''kind'' json_str) (\<lambda>kind.
     Option.bind (field fs ''content'' json_str) (\<lambda>content.
     Option.bind (default_field fs ''run_id'' None json_nullable_str) (\<lambda>run_id.
     Option.bind (field fs ''created_at'' json_str) (\<lambda>created_at.
     Option.bind (default_field fs ''attention'' [] (json_list json_str)) (\<lambda>att.
     Option.bind (default_field fs ''routing_key'' None json_nullable_str) (\<lambda>routing_key.
     Option.bind (field fs ''relations'' (json_list relation_of_json)) (\<lambda>rels.
     Option.bind (default_field fs ''title'' None json_nullable_str) (\<lambda>title.
     Some \<lparr>r_id = i, r_space_id = space_id, r_seq = seq, r_author = author, r_kind = kind,
       r_content = content, r_run_id = run_id, r_created_at = created_at, r_attention = att,
       r_routing_key = routing_key, r_relations = rels, r_title = title\<rparr>)))))))))))))"

definition append_result_json :: "append_result \<Rightarrow> json" where
  "append_result_json r = JObj [(''record'', record_json (ar_record r)),
     (''mailbox_created'', JInt (int (ar_mailbox_created r))), (''replayed'', JBool (ar_replayed r))]"

definition append_result_of_json :: "json \<Rightarrow> append_result option" where
  "append_result_of_json v =
     Option.bind (struct_fields [''record'', ''mailbox_created'', ''replayed''] v) (\<lambda>fs.
     Option.bind (field fs ''record'' record_of_json) (\<lambda>r.
     Option.bind (field fs ''mailbox_created'' json_u64) (\<lambda>n.
     Option.bind (field fs ''replayed'' json_bool) (\<lambda>b.
     Some \<lparr>ar_record = r, ar_mailbox_created = unat n, ar_replayed = b\<rparr>))))"

section \<open>Stored documents read back\<close>

text \<open>An object of atomic members survives the duplicate-rejecting visitor member by member.\<close>

lemma principal_json_reads:
  assumes "- (2 ^ 63) \<le> p_profile_revision p" "p_profile_revision p \<le> i64_max"
  obtains v where "unique_value (principal_json p) = Some v" "principal_of_json v = Some p"
proof -
  have "no_duplicate_keys (principal_json p)"
    by (auto simp: principal_json_def opt_member_def split: option.splits)
  then obtain v where v: "unique_value (principal_json p) = Some v"
    using unique_accepts(1) by blast
  then obtain ms where ms: "v = JObj ms" and get: "\<And>k. map_of ms k = Option.bind (map_of
      ([(''id'', JStr (p_id p)), (''handle'', JStr (p_handle p)), (''display_name'', JStr (p_display_name p))]
       @ opt_member ''description'' (p_description p)
       @ [(''profile_revision'', JInt (p_profile_revision p)), (''created_at'', JStr (p_created_at p)),
          (''disabled'', JBool (p_disabled p))]) k) unique_value"
    unfolding principal_json_def by (rule unique_obj_field) blast
  have "principal_of_json v = Some p"
    using assms
    by (cases "p_description p")
      (simp_all add: ms principal_of_json_def struct_fields_def field_def default_field_def get
        json_non_null_str_def map_add_def)
  with v show ?thesis using that by blast
qed

lemma registration_receipt_json_reads:
  assumes "- (2 ^ 63) \<le> p_profile_revision (rg_principal r)" "p_profile_revision (rg_principal r) \<le> i64_max"
  obtains v where "unique_value (registration_receipt_json r) = Some v"
    "registration_receipt_of_json v = Some r"
proof -
  obtain w where w: "unique_value (principal_json (rg_principal r)) = Some w"
      "principal_of_json w = Some (rg_principal r)"
    using principal_json_reads [OF assms] by blast
  then have "no_duplicate_keys (principal_json (rg_principal r))"
    using unique_accepts(1) by blast
  then have "no_duplicate_keys (registration_receipt_json r)"
    by (simp add: registration_receipt_json_def)
  then obtain v where v: "unique_value (registration_receipt_json r) = Some v"
    using unique_accepts(1) by blast
  then obtain ms where ms: "v = JObj ms" and get: "\<And>k. map_of ms k = Option.bind (map_of
      [(''principal'', principal_json (rg_principal r)), (''credential_id'', JStr (rg_credential_id r))] k) unique_value"
    unfolding registration_receipt_json_def by (rule unique_obj_field) blast
  have "registration_receipt_of_json v = Some r"
    by (simp add: ms registration_receipt_of_json_def struct_fields_def field_def get w)
  with v show ?thesis using that by blast
qed

text \<open>A principal or a registration receipt the service stored as JSON is read back unchanged
  by the strict decoder, for any JSON text library that parses what it prints.\<close>

lemma principal_document_roundtrip:
  assumes "json_roundtrips J (principal_json p)" "1 \<le> p_profile_revision p" "p_profile_revision p \<le> i64_max"
  shows "decode_json J principal_of_json principal_json (encode_json J principal_json p) = Inr p"
proof -
  obtain v where "unique_value (principal_json p) = Some v" "principal_of_json v = Some p"
    using principal_json_reads [of p] assms(2,3) by (auto intro: that)
  then show ?thesis
    using assms(1) by (intro decode_json_roundtrip) (auto simp: json_roundtrips_def)
qed

lemma receipt_document_roundtrip:
  assumes "json_roundtrips J (registration_receipt_json r)"
    "1 \<le> p_profile_revision (rg_principal r)" "p_profile_revision (rg_principal r) \<le> i64_max"
  shows "decode_json J registration_receipt_of_json registration_receipt_json
           (encode_json J registration_receipt_json r) = Inr r"
proof -
  obtain w where "unique_value (registration_receipt_json r) = Some w"
      "registration_receipt_of_json w = Some r"
    using registration_receipt_json_reads [of r] assms(2,3) by (auto intro: that)
  then show ?thesis
    using assms(1) by (intro decode_json_roundtrip) (auto simp: json_roundtrips_def)
qed

end
