(* ===== verification/Service_Base.thy ===== *)
theory Service_Base
  imports Storage Documents
begin

text \<open>
  What every operation of the service shares (journal-service/src/bootstrap.rs): its error type
  and the classification of SQLite failures, its sources of time and randomness, the identifiers
  it derives from them, and the state-passing programs the operations are written in.

  A program of type \<open>('d, 'a) prog\<close> runs on a store of type \<open>'d\<close> (the transaction's database
  inside a transaction, the whole store outside) and on the service's sources, and ends in an
  error or a value.
\<close>

named_theorems prog_simps \<open>when a program succeeds, and with what\<close>

section \<open>Errors\<close>

text \<open>\<open>Panicked\<close> is not a value of the Rust enum: it stands for an arithmetic overflow or a failed
  \<open>expect\<close>, so that "never panics" can be stated.\<close>

datatype berror =
    IdempotencyConflict
  | InvalidJournal
  | CorruptJournal
  | Invalid wire_error
  | Unauthorized
  | NotFound
  | Conflict
  | StorageFailed storage_error
  | SqliteFailed sqlite_error
  | RandomFailed
  | ClockFailed
  | Injected
  | Panicked

fun is_state_collision :: "sqlite_error \<Rightarrow> bool" where
  "is_state_collision ConstraintUnique = True"
| "is_state_collision ConstraintPrimaryKey = True"
| "is_state_collision (ConstraintTrigger message) =
     (message = ''principal name shadows a principal id'' \<or> message = ''principal id shadows a reserved name'')"
| "is_state_collision _ = False"

definition from_sqlite :: "sqlite_error \<Rightarrow> berror" where
  "from_sqlite e = (if is_state_collision e then Conflict else SqliteFailed e)"

section \<open>The environment and the sources\<close>

text \<open>The full-text index of SQLite (FTS5) and the two readers of timestamps a search uses: whether a
  query matches a text (an error when the query is malformed), the score SEARCH\_SCORE gives a
  matching text as the bits of an \<open>f64\<close>, its snippet, SQLite's \<open>unixepoch\<close>, and
  \<open>jiff::Timestamp\<close> in nanoseconds.\<close>

record search_engine =
  se_match :: "string \<Rightarrow> sqlite_error + (string \<Rightarrow> bool)"
  se_score :: "string \<Rightarrow> string \<Rightarrow> u64"
  se_snippet :: "string \<Rightarrow> string \<Rightarrow> string"
  se_unixepoch :: "string \<Rightarrow> int option"
  se_timestamp :: "string \<Rightarrow> int option"

text \<open>The clock gives nanoseconds relative to the Unix epoch; a secret source fills 32 bytes or
  fails. \<open>env_julianday\<close> is SQLite's \<open>julianday\<close> (None for NULL), \<open>env_format_timestamp\<close> the
  RFC 3339 text of a second.\<close>

record env =
  env_crypto :: crypto
  env_clock :: "nat \<Rightarrow> int"
  env_random :: "nat \<Rightarrow> (nat \<Rightarrow> byte) option"
  env_format_timestamp :: "int \<Rightarrow> string option"
  env_julianday :: "string \<Rightarrow> int option"
  env_search :: search_engine
  env_failpoint :: "string option"
  env_faults :: faults

record sources =
  clock_calls :: nat
  random_calls :: nat
  principal_sequence :: u64

type_synonym ('d, 'a) prog = "'d \<times> sources \<Rightarrow> (berror + 'a) \<times> 'd \<times> sources"

section \<open>Programs\<close>

definition ret :: "'a \<Rightarrow> ('d, 'a) prog" where
  "ret x w = (Inr x, w)"

definition throw :: "berror \<Rightarrow> ('d, 'a) prog" where
  "throw e w = (Inl e, w)"

definition bind :: "('d, 'a) prog \<Rightarrow> ('a \<Rightarrow> ('d, 'b) prog) \<Rightarrow> ('d, 'b) prog" where
  "bind m f w = (case m w of (Inl e, w') \<Rightarrow> (Inl e, w') | (Inr x, w') \<Rightarrow> f x w')"

text \<open>\<open>lift r\<close> is \<open>r?\<close>; \<open>reads f\<close> evaluates a query; \<open>execute f\<close> runs a statement, whose SQLite
  error is converted by \<open>From\<close>; \<open>update f\<close> runs an UPDATE and gives the number of rows it changed.\<close>

definition lift :: "berror + 'a \<Rightarrow> ('d, 'a) prog" where
  "lift r w = (r, w)"

definition reads :: "('d \<Rightarrow> berror + 'a) \<Rightarrow> ('d, 'a) prog" where
  "reads f w = (f (fst w), w)"

definition execute :: "('d \<Rightarrow> sqlite_error + 'd) \<Rightarrow> ('d, unit) prog" where
  "execute f w = (case w of (d, z) \<Rightarrow>
     (case f d of Inl e \<Rightarrow> (Inl (from_sqlite e), d, z) | Inr d' \<Rightarrow> (Inr (), d', z)))"

definition update :: "(db \<Rightarrow> sqlite_error + db \<times> nat) \<Rightarrow> (db, nat) prog" where
  "update f w = (case w of (d, z) \<Rightarrow> (case f d of
       Inl e \<Rightarrow> (Inl (from_sqlite e), d, z)
     | Inr (d', n) \<Rightarrow> (Inr n, (if n = 0 then d else d'\<lparr>total_changes := total_changes d + n\<rparr>), z)))"

definition guard :: "bool \<Rightarrow> berror \<Rightarrow> ('d, unit) prog" where
  "guard b e = (if b then ret () else throw e)"

primrec each :: "('a \<Rightarrow> ('d, unit) prog) \<Rightarrow> 'a list \<Rightarrow> ('d, unit) prog" where
  "each f [] = ret ()"
| "each f (x # xs) = bind (f x) (\<lambda>_. each f xs)"

primrec collect :: "('a \<Rightarrow> ('d, 'b) prog) \<Rightarrow> 'a list \<Rightarrow> ('d, 'b list) prog" where
  "collect f [] = ret []"
| "collect f (x # xs) = bind (f x) (\<lambda>y. bind (collect f xs) (\<lambda>ys. ret (y # ys)))"

section \<open>The service's helpers\<close>

definition checkpoint :: "env \<Rightarrow> string \<Rightarrow> ('d, unit) prog" where
  "checkpoint E boundary = (if env_failpoint E = Some boundary then throw Injected else ret ())"

definition clock_now :: "env \<Rightarrow> ('d, int) prog" where
  "clock_now E w = (case w of (d, z) \<Rightarrow>
     (Inr (env_clock E (clock_calls z)), d, z\<lparr>clock_calls := clock_calls z + 1\<rparr>))"

definition timestamp :: "env \<Rightarrow> int \<Rightarrow> berror + string" where
  "timestamp E time =
     (if time < 0 then Inl ClockFailed
      else if time div 10 ^ 9 > i64_max then Inl ClockFailed
      else ok_or ClockFailed (env_format_timestamp E (time div 10 ^ 9)))"

definition now :: "env \<Rightarrow> ('d, string) prog" where
  "now E = bind (clock_now E) (\<lambda>time. lift (timestamp E time))"

definition fill :: "env \<Rightarrow> ('d, byte list) prog" where
  "fill E w = (case w of (d, z) \<Rightarrow>
     (ok_or RandomFailed (map_option (\<lambda>f. map f [0..<32]) (env_random E (random_calls z))),
      d, z\<lparr>random_calls := random_calls z + 1\<rparr>))"

definition DIGITS :: string where
  "DIGITS = ''0123456789abcdef''"

definition hex :: "byte list \<Rightarrow> string" where
  "hex bytes = concat (map (\<lambda>b. [DIGITS ! (unat b div 16), DIGITS ! (unat b mod 16)]) bytes)"

definition digest :: "env \<Rightarrow> string \<Rightarrow> string" where
  "digest E secret = hex (sha256 (env_crypto E) (as_bytes secret))"

definition secret :: "env \<Rightarrow> ('d, string) prog" where
  "secret E = bind (fill E) (\<lambda>bytes. ret (hex bytes))"

definition to_be_bytes :: "u64 \<Rightarrow> byte list" where
  "to_be_bytes n = map (\<lambda>i. ucast (drop_bit (8 * (7 - i)) n)) [0..<8]"

definition set_version_and_variant :: "byte list \<Rightarrow> byte list" where
  "set_version_and_variant bytes =
     (let bytes = bytes[6 := or (and (bytes ! 6) 0x0f) 0x70] in
      bytes[8 := or (and (bytes ! 8) 0x3f) 0x80])"

definition format_uuid :: "byte list \<Rightarrow> string" where
  "format_uuid bytes = (let value = hex bytes in
     take 8 value @ ''-'' @ take 4 (drop 8 value) @ ''-'' @ take 4 (drop 12 value) @ ''-''
     @ take 4 (drop 16 value) @ ''-'' @ drop 20 value)"

definition millis_since_epoch :: "int \<Rightarrow> berror + u64" where
  "millis_since_epoch time =
     (if time < 0 then Inl ClockFailed
      else if time div 10 ^ 6 \<ge> 2 ^ 48 then Inl ClockFailed
      else Inr (word_of_int (time div 10 ^ 6)))"

definition fetch_add_sequence :: "('d, u64) prog" where
  "fetch_add_sequence w = (case w of (d, z) \<Rightarrow>
     (Inr (principal_sequence z), d, z\<lparr>principal_sequence := principal_sequence z + 1\<rparr>))"

definition principal_uuid :: "u64 \<Rightarrow> byte list \<Rightarrow> u64 \<Rightarrow> string" where
  "principal_uuid millis random sequence =
     (let bytes = take 16 random;
          bytes = drop 2 (to_be_bytes millis) @ drop 6 bytes;
          bytes = take 8 bytes @ map2 xor (drop 8 bytes) (to_be_bytes sequence)
      in format_uuid (set_version_and_variant bytes))"

definition principal_id :: "env \<Rightarrow> ('d, string) prog" where
  "principal_id E =
     bind (clock_now E) (\<lambda>time.
     bind (lift (millis_since_epoch time)) (\<lambda>millis.
     bind (fill E) (\<lambda>random.
     bind fetch_add_sequence (\<lambda>sequence.
     ret (principal_uuid millis random sequence)))))"

definition record_uuid :: "u64 \<Rightarrow> byte list \<Rightarrow> string" where
  "record_uuid millis random =
     format_uuid (set_version_and_variant (drop 2 (to_be_bytes millis) @ drop 6 (take 16 random)))"

definition record_id :: "env \<Rightarrow> int \<Rightarrow> ('d, string) prog" where
  "record_id E instant =
     bind (lift (millis_since_epoch instant)) (\<lambda>millis.
     bind (fill E) (\<lambda>random.
     ret (record_uuid millis random)))"

text \<open>\<open>self.transaction\<close>, and the read path: a read-only connection whose transaction sees the
  committed database and writes nothing.\<close>

definition transaction :: "env \<Rightarrow> (db, 'a) prog \<Rightarrow> (store, 'a) prog" where
  "transaction E operation = with_transaction_for (env_faults E) StorageFailed operation"

definition connect_read_only :: "env \<Rightarrow> (store, unit) prog" where
  "connect_read_only E = storage_io (env_faults E) StorageFailed ConnectReadOnly"

definition begin_read :: "env \<Rightarrow> (store, unit) prog" where
  "begin_read E = storage_io (env_faults E)
     (\<lambda>e. case e of StorageSqlite s \<Rightarrow> from_sqlite s | _ \<Rightarrow> StorageFailed e) BeginRead"

definition on_snapshot :: "(db, 'a) prog \<Rightarrow> (store, 'a) prog" where
  "on_snapshot operation w = (case w of (s, z) \<Rightarrow>
     (case operation (central s, z) of (r, _, z') \<Rightarrow> (r, s, z')))"

definition read :: "env \<Rightarrow> (db, 'a) prog \<Rightarrow> (store, 'a) prog" where
  "read E operation =
     bind (connect_read_only E) (\<lambda>_.
     bind (begin_read E) (\<lambda>_.
     on_snapshot operation))"

section \<open>Shared queries\<close>

definition find_principal :: "db \<Rightarrow> string \<Rightarrow> principal_row option" where
  "find_principal d i = find (\<lambda>p. pr_id p = i) (principals d)"

definition find_name :: "db \<Rightarrow> string \<Rightarrow> name_row option" where
  "find_name d n = find (\<lambda>x. nm_name x = n) (principal_names d)"

definition active_row :: "db \<Rightarrow> string \<Rightarrow> bool" where
  "active_row d i = (case find_principal d i of Some p \<Rightarrow> pr_disabled_at p = None | None \<Rightarrow> False)"

text \<open>Names take precedence over identifiers; a name of a disabled principal resolves to nothing.\<close>

definition active_principal :: "db \<Rightarrow> string \<Rightarrow> berror + string" where
  "active_principal d selector =
     (case find_name d selector of
        Some n \<Rightarrow> if active_row d (nm_principal_id n) then Inr (nm_principal_id n) else Inl NotFound
      | None \<Rightarrow> if active_row d selector then Inr selector else Inl NotFound)"

definition current_name :: "db \<Rightarrow> string \<Rightarrow> string option" where
  "current_name d i = map_option nm_name
     (find (\<lambda>n. nm_principal_id n = i \<and> nm_kind n = ''current'') (principal_names d))"

definition descriptor :: "principal_row \<Rightarrow> string \<Rightarrow> principal" where
  "descriptor p handle = \<lparr>p_id = pr_id p, p_handle = handle, p_display_name = pr_display_name p,
     p_description = pr_description p, p_profile_revision = pr_profile_revision p,
     p_created_at = pr_created_at p, p_disabled = (pr_disabled_at p \<noteq> None)\<rparr>"

definition principal_descriptor :: "db \<Rightarrow> string \<Rightarrow> berror + principal" where
  "principal_descriptor d i =
     (case (find_principal d i, current_name d i) of
        (Some p, Some handle) \<Rightarrow> Inr (descriptor p handle)
      | _ \<Rightarrow> Inl (from_sqlite QueryReturnedNoRows))"

text \<open>\<open>expires_at IS NULL OR julianday(expires_at) > julianday(now)\<close>; a comparison with NULL is
  not true.\<close>

definition unexpired :: "env \<Rightarrow> string \<Rightarrow> string option \<Rightarrow> bool" where
  "unexpired E at_time expires = (case expires of None \<Rightarrow> True
     | Some t \<Rightarrow> (case (env_julianday E t, env_julianday E at_time) of
                   (Some x, Some y) \<Rightarrow> x > y | _ \<Rightarrow> False))"

definition live_credential :: "env \<Rightarrow> string \<Rightarrow> credential_row \<Rightarrow> bool" where
  "live_credential E at_time c \<longleftrightarrow> cr_revoked_at c = None \<and> unexpired E at_time (cr_expires_at c)"

fun class_name :: "credential_class \<Rightarrow> string" where
  "class_name PrincipalClient = ''principal-client''"

definition parse_class :: "string \<Rightarrow> berror + credential_class" where
  "parse_class class = (if class = ''principal-client'' then Inr PrincipalClient else Inl Unauthorized)"

section \<open>Reasoning about successful runs\<close>

lemma ret_Inr [prog_simps]: "ret x w = (Inr y, w') \<longleftrightarrow> y = x \<and> w' = w"
  by (auto simp: ret_def)

lemma throw_Inr [prog_simps]: "throw e w \<noteq> (Inr y, w')"
  by (simp add: throw_def)

lemma bind_Inr [prog_simps]:
  "bind m f w = (Inr y, w') \<longleftrightarrow> (\<exists>x w1. m w = (Inr x, w1) \<and> f x w1 = (Inr y, w'))"
  by (auto simp: bind_def split: prod.splits sum.splits)

lemma lift_Inr [prog_simps]: "lift r w = (Inr y, w') \<longleftrightarrow> r = Inr y \<and> w' = w"
  by (auto simp: lift_def)

lemma reads_Inr [prog_simps]: "reads f (d, z) = (Inr y, w') \<longleftrightarrow> f d = Inr y \<and> w' = (d, z)"
  by (auto simp: reads_def)

lemma execute_Inr [prog_simps]:
  "execute f (d, z) = (Inr u, w') \<longleftrightarrow> (\<exists>d'. f d = Inr d' \<and> w' = (d', z))"
  by (auto simp: execute_def split: sum.splits)

lemma update_Inr [prog_simps]:
  "update f (d, z) = (Inr n, w') \<longleftrightarrow> (\<exists>d'. f d = Inr (d', n)
     \<and> w' = ((if n = 0 then d else d'\<lparr>total_changes := total_changes d + n\<rparr>), z))"
  by (auto simp: update_def split: sum.splits prod.splits)

lemma guard_Inr [prog_simps]: "guard b e w = (Inr u, w') \<longleftrightarrow> b \<and> w' = w"
  by (auto simp: guard_def prog_simps)

lemma checkpoint_Inr [prog_simps]:
  "checkpoint E b w = (Inr u, w') \<longleftrightarrow> env_failpoint E \<noteq> Some b \<and> w' = w"
  by (auto simp: checkpoint_def prog_simps)

text \<open>The sources never touch the store.\<close>

lemma now_Inr [prog_simps]:
  "now E (d, z) = (Inr t, w') \<longleftrightarrow>
     timestamp E (env_clock E (clock_calls z)) = Inr t \<and> w' = (d, z\<lparr>clock_calls := clock_calls z + 1\<rparr>)"
  by (auto simp: now_def clock_now_def prog_simps)

lemma clock_now_Inr [prog_simps]:
  "clock_now E (d, z) = (Inr t, w') \<longleftrightarrow>
     t = env_clock E (clock_calls z) \<and> w' = (d, z\<lparr>clock_calls := clock_calls z + 1\<rparr>)"
  by (auto simp: clock_now_def)

lemma fill_Inr [prog_simps]:
  "fill E (d, z) = (Inr b, w') \<longleftrightarrow>
     (\<exists>f. env_random E (random_calls z) = Some f \<and> b = map f [0..<32]
        \<and> w' = (d, z\<lparr>random_calls := random_calls z + 1\<rparr>))"
  by (auto simp: fill_def result_simps split: option.splits)

lemma secret_Inr [prog_simps]:
  "secret E (d, z) = (Inr s, w') \<longleftrightarrow>
     (\<exists>f. env_random E (random_calls z) = Some f \<and> s = hex (map f [0..<32])
        \<and> w' = (d, z\<lparr>random_calls := random_calls z + 1\<rparr>))"
  by (auto simp: secret_def prog_simps)

lemma fetch_add_sequence_Inr [prog_simps]:
  "fetch_add_sequence (d, z) = (Inr n, w') \<longleftrightarrow>
     n = principal_sequence z \<and> w' = (d, z\<lparr>principal_sequence := principal_sequence z + 1\<rparr>)"
  by (auto simp: fetch_add_sequence_def)

section \<open>Contracts of programs on a transaction's database\<close>

text \<open>\<open>keeps R m\<close>: whenever \<open>m\<close> succeeds, the databases before and after are related by \<open>R\<close>.
  For a reflexive and transitive \<open>R\<close> it is established statement by statement.\<close>

definition keeps :: "('d \<Rightarrow> 'd \<Rightarrow> bool) \<Rightarrow> ('d, 'a) prog \<Rightarrow> bool" where
  "keeps R m \<longleftrightarrow> (\<forall>d z x d' z'. m (d, z) = (Inr x, d', z') \<longrightarrow> R d d')"

lemma keepsD: "keeps R m \<Longrightarrow> m (d, z) = (Inr x, d', z') \<Longrightarrow> R d d'"
  unfolding keeps_def by blast

locale step_order =
  fixes R :: "'d \<Rightarrow> 'd \<Rightarrow> bool"
  assumes refl: "R d d" and trans: "R a b \<Longrightarrow> R b c \<Longrightarrow> R a c"
begin

lemma keeps_ret: "keeps R (ret x)"
  and keeps_throw: "keeps R (throw e)"
  and keeps_lift: "keeps R (lift r)"
  and keeps_reads: "keeps R (reads f)"
  and keeps_guard: "keeps R (guard b e)"
  and keeps_checkpoint: "keeps R (checkpoint E s)"
  and keeps_now: "keeps R (now E)"
  and keeps_clock_now: "keeps R (clock_now E)"
  and keeps_fill: "keeps R (fill E)"
  and keeps_secret: "keeps R (secret E)"
  and keeps_fetch_add_sequence: "keeps R fetch_add_sequence"
  by (auto simp: keeps_def prog_simps refl)

lemma keeps_bind:
  assumes "keeps R m" "\<And>x. keeps R (f x)"
  shows "keeps R (bind m f)"
  unfolding keeps_def
proof (intro allI impI)
  fix d z y d' z' assume "bind m f (d, z) = (Inr y, d', z')"
  then obtain x d1 z1 where "m (d, z) = (Inr x, d1, z1)" "f x (d1, z1) = (Inr y, d', z')"
    by (auto simp: bind_Inr)
  then show "R d d'"
    using assms keepsD trans by metis
qed

lemma keeps_each: "(\<And>x. x \<in> set xs \<Longrightarrow> keeps R (f x)) \<Longrightarrow> keeps R (each f xs)"
  by (induction xs) (auto intro: keeps_ret keeps_bind)

lemma keeps_collect: "(\<And>x. x \<in> set xs \<Longrightarrow> keeps R (f x)) \<Longrightarrow> keeps R (collect f xs)"
  by (induction xs) (auto intro!: keeps_ret keeps_bind)

lemma keeps_if: "keeps R m \<Longrightarrow> keeps R n \<Longrightarrow> keeps R (if b then m else n)"
  by simp

lemma keeps_case_option: "keeps R m \<Longrightarrow> (\<And>x. keeps R (f x)) \<Longrightarrow> keeps R (case v of None \<Rightarrow> m | Some x \<Rightarrow> f x)"
  by (simp split: option.splits)

lemma keeps_case_prod: "(\<And>a b. keeps R (f a b)) \<Longrightarrow> keeps R (case p of (a, b) \<Rightarrow> f a b)"
  by (simp split: prod.splits)

lemma keeps_principal_id: "keeps R (principal_id E)"
  unfolding principal_id_def
  by (intro keeps_bind keeps_clock_now keeps_lift keeps_fill keeps_fetch_add_sequence keeps_ret)

lemma keeps_record_id: "keeps R (record_id E t)"
  unfolding record_id_def by (intro keeps_bind keeps_lift keeps_fill keeps_ret)

lemma keeps_execute: "(\<And>d d'. f d = Inr d' \<Longrightarrow> R d d') \<Longrightarrow> keeps R (execute f)"
  by (auto simp: keeps_def prog_simps)

lemmas keeps_rules = keeps_ret keeps_throw keeps_lift keeps_reads keeps_guard keeps_checkpoint
  keeps_now keeps_clock_now keeps_fill keeps_secret keeps_fetch_add_sequence keeps_bind keeps_each
  keeps_collect keeps_if keeps_case_option keeps_case_prod keeps_principal_id keeps_record_id

end

text \<open>The change counter: it never falls, and stays only while nothing changes. This is the
  contract the audited wrapper relies on.\<close>

definition counted :: "db \<Rightarrow> db \<Rightarrow> bool" where
  "counted d d' \<longleftrightarrow> total_changes d < total_changes d' \<or> d' = d"

interpretation counting: step_order counted
  by unfold_locales (auto simp: counted_def)

lemma counted_update: "keeps counted (update f)"
  by (auto simp: keeps_def prog_simps counted_def)

lemma insert_counted:
  "insert_principal r d = Inr d' \<Longrightarrow> counted d d'"
  "insert_name n d = Inr d' \<Longrightarrow> counted d d'"
  "insert_credential c d = Inr d' \<Longrightarrow> counted d d'"
  "insert_receipt rr d = Inr d' \<Longrightarrow> counted d d'"
  "insert_credential_audit ca d = Inr d' \<Longrightarrow> counted d d'"
  "insert_audit_event ae d = Inr d' \<Longrightarrow> counted d d'"
  "insert_profile_key pk d = Inr d' \<Longrightarrow> counted d d'"
  "insert_space sp d = Inr d' \<Longrightarrow> counted d d'"
  "upsert_membership mb d = Inr d' \<Longrightarrow> counted d d'"
  "insert_record rc d = Inr d' \<Longrightarrow> counted d d'"
  "insert_relation rel d = Inr d' \<Longrightarrow> counted d d'"
  "insert_attention at d = Inr d' \<Longrightarrow> counted d d'"
  "bump_inbox_sequence p d = Inr d' \<Longrightarrow> counted d d'"
  "insert_mailbox_item mi d = Inr d' \<Longrightarrow> counted d d'"
  "insert_idempotency_key ik d = Inr d' \<Longrightarrow> counted d d'"
  "insert_cursor_secret cs d = Inr d' \<Longrightarrow> counted d d'"
  by (auto simp: insert_defs result_simps counted_def changed_def split: if_splits option.splits)

lemma counted_execute:
  "keeps counted (execute (insert_principal r0))"
  "keeps counted (execute (insert_name r1))"
  "keeps counted (execute (insert_credential r2))"
  "keeps counted (execute (insert_receipt r3))"
  "keeps counted (execute (insert_credential_audit r4))"
  "keeps counted (execute (insert_audit_event r5))"
  "keeps counted (execute (insert_profile_key r6))"
  "keeps counted (execute (insert_space r7))"
  "keeps counted (execute (upsert_membership r8))"
  "keeps counted (execute (insert_record r9))"
  "keeps counted (execute (insert_relation r10))"
  "keeps counted (execute (insert_attention r11))"
  "keeps counted (execute (bump_inbox_sequence r12))"
  "keeps counted (execute (insert_mailbox_item r13))"
  "keeps counted (execute (insert_idempotency_key r14))"
  "keeps counted (execute (insert_cursor_secret r15))"
  by (rule counting.keeps_execute, erule insert_counted)+

lemmas counted_rules = counting.keeps_rules counted_update counted_execute

lemma tx_contract_counted: "keeps counted op \<Longrightarrow> tx_contract op"
  by (fastforce simp: tx_contract_def keeps_def counted_def)

section \<open>Generated identifiers\<close>

definition hi :: "byte \<Rightarrow> char" where
  "hi b = DIGITS ! (unat b div 16)"

definition lo :: "byte \<Rightarrow> char" where
  "lo b = DIGITS ! (unat b mod 16)"

lemma DIGITS_lower_hex: "n < 16 \<Longrightarrow> is_lower_hex (DIGITS ! n)"
proof -
  assume "n < 16"
  then have "n \<in> set [0..<16]" by simp
  moreover have "list_all (\<lambda>n. is_lower_hex (DIGITS ! n)) [0..<16]"
    by code_simp
  ultimately show ?thesis by (auto simp: list_all_iff)
qed

lemma nibbles [simp]: "is_lower_hex (hi b)" "is_lower_hex (lo b)"
  using unsigned_less [where 'a = nat, of b] by (auto simp: hi_def lo_def intro!: DIGITS_lower_hex)

lemma length_hex [simp]: "length (hex bs) = 2 * length bs"
  by (induction bs) (simp_all add: hex_def)

lemma hex_Nil [simp]: "hex [] = []"
  and hex_Cons [simp]: "hex (b # bs) = hi b # lo b # hex bs"
  by (simp_all add: hex_def hi_def lo_def)

lemma hi_drop_bit: "hi b = DIGITS ! unat (drop_bit 4 b)"
  by (simp add: hi_def drop_bit_eq_div unat_div_distrib)

lemma version_nibble: "hi (or (and b 0x0f) 0x70) = CHR ''7''"
proof -
  have "drop_bit 4 (or (and b 0x0f) 0x70 :: byte) = or (and (drop_bit 4 b) (drop_bit 4 0x0f)) (drop_bit 4 0x70)"
    by (simp only: drop_bit_or drop_bit_and)
  also have "drop_bit 4 (0x0f :: byte) = 0" by code_simp
  also have "drop_bit 4 (0x70 :: byte) = 7" by code_simp
  finally show ?thesis by (simp add: hi_drop_bit DIGITS_def)
qed

lemma variant_nibble: "hi (or (and b 0x3f) 0x80) \<in> set ''89ab''"
proof -
  have "drop_bit 4 (or (and b 0x3f) 0x80 :: byte) = or (and (drop_bit 4 b) (drop_bit 4 0x3f)) (drop_bit 4 0x80)"
    by (simp only: drop_bit_or drop_bit_and)
  also have "drop_bit 4 (0x3f :: byte) = mask 2" by code_simp
  also have "drop_bit 4 (0x80 :: byte) = 8" by code_simp
  also have "and (drop_bit 4 b) (mask 2) = take_bit 2 (drop_bit 4 b)"
    by (simp only: take_bit_eq_mask)
  finally have eq: "hi (or (and b 0x3f) 0x80) = DIGITS ! unat (or (take_bit 2 (drop_bit 4 b)) (8 :: byte))"
    by (simp only: hi_drop_bit)
  have "unat (take_bit 2 (drop_bit 4 b)) < 4"
    using take_bit_nat_less_exp [of 2 "unat (drop_bit 4 b)"] by (simp add: unsigned_take_bit_eq)
  then have "take_bit 2 (drop_bit 4 b) \<in> {0, 1, 2, 3 :: byte}"
    by (auto simp: word_unat_eq_iff)
  then show ?thesis
    unfolding eq by (elim insertE emptyE) (simp_all add: DIGITS_def)
qed

lemma format_uuid_shape:
  assumes "length bs = 16"
  shows "uuid_v7_shape (format_uuid (set_version_and_variant bs))"
proof -
  from assms obtain b0 b1 b2 b3 b4 b5 b6 b7 b8 b9 b10 b11 b12 b13 b14 b15 where
    bs: "bs = [b0, b1, b2, b3, b4, b5, b6, b7, b8, b9, b10, b11, b12, b13, b14, b15]"
    by (auto simp: length_Suc_conv numeral_eq_Suc)
  have "[0..<36] = [0,1,2,3,4,5,6,7,8,9,10,11,12,13,14,15,16,17,18,19,20,21,22,23,24,25,26,27,28,29,30,31,32,33,34,35]"
    by (simp add: upt_rec)
  moreover have "is_lower_hex CHR ''7''" by code_simp
  ultimately show ?thesis
    using variant_nibble [of b8]
    by (simp add: bs set_version_and_variant_def format_uuid_def uuid_v7_shape_def Let_def version_nibble)
qed

lemma length_be_bytes [simp]: "length (to_be_bytes n) = 8"
  by (simp add: to_be_bytes_def)

lemma record_uuid_shape: "length random = 32 \<Longrightarrow> uuid_v7_shape (record_uuid millis random)"
  by (simp add: record_uuid_def format_uuid_shape)

lemma principal_uuid_shape: "length random = 32 \<Longrightarrow> uuid_v7_shape (principal_uuid millis random sequence)"
  by (simp add: principal_uuid_def Let_def format_uuid_shape)

text \<open>C28. Every identifier the service generates, for a principal or for a record, is a
  lowercase UUID version 7 of the RFC variant, whatever the clock, the random bytes and the
  principal sequence: the shape \<open>validate_uuid_v7\<close> accepts.\<close>

theorem generated_ids_are_uuid_v7:
  assumes "principal_id E (d, z) = (Inr i, w) \<or> record_id E t (d, z) = (Inr i, w)"
  shows "validate_uuid_v7 f i = Inr ()"
  using assms
  by (auto simp: principal_id_def record_id_def prog_simps result_simps principal_uuid_shape record_uuid_shape)

end
