(* ===== verification/Integrity.thy ===== *)
theory Integrity
  imports Service_Base
begin

text \<open>
  The relational integrity of the central database: keys are distinct, references resolve, names
  never shadow identifiers, and relations point to older records of the same space. Each
  statement of Schema preserves it, so every transaction of the service does.
\<close>

definition principals_ok :: "db \<Rightarrow> bool" where
  "principals_ok d \<longleftrightarrow> distinct (map pr_id (principals d))
     \<and> distinct (map nm_name (principal_names d))
     \<and> nm_name ` set (principal_names d) \<inter> pr_id ` set (principals d) = {}
     \<and> nm_principal_id ` set (principal_names d) \<subseteq> pr_id ` set (principals d)
     \<and> distinct (map nm_principal_id (filter (\<lambda>n. nm_kind n = ''current'') (principal_names d)))"

definition credentials_ok :: "db \<Rightarrow> bool" where
  "credentials_ok d \<longleftrightarrow> distinct (map cr_id (credentials d))
     \<and> distinct (map cr_token_hash (credentials d))
     \<and> cr_principal_id ` set (credentials d) \<subseteq> pr_id ` set (principals d)
     \<and> cr_class ` set (credentials d) \<subseteq> {''principal-client''}
     \<and> distinct (map rr_token_hash (registration_receipts d))
     \<and> rr_token_hash ` set (registration_receipts d) \<subseteq> cr_token_hash ` set (credentials d)"

definition spaces_ok :: "db \<Rightarrow> bool" where
  "spaces_ok d \<longleftrightarrow> distinct (map sp_id (spaces d)) \<and> distinct (map sp_name (spaces d))
     \<and> sp_access ` set (spaces d) \<subseteq> {''public''}"

definition records_ok :: "db \<Rightarrow> bool" where
  "records_ok d \<longleftrightarrow> distinct (map rc_id (records d))
     \<and> distinct (map (\<lambda>r. (rc_space_id r, rc_space_seq r)) (records d))
     \<and> rc_space_id ` set (records d) \<subseteq> sp_id ` set (spaces d)
     \<and> rc_author ` set (records d) \<subseteq> pr_id ` set (principals d)
     \<and> (\<forall>r \<in> set (records d). 0 < rc_space_seq r \<and> rc_space_seq r \<le> i64_max)
     \<and> (\<forall>r \<in> set (record_relations d). older_same_space d (re_source r) (re_target r))
     \<and> re_type ` set (record_relations d) \<subseteq> set (map relation_as_str RELATION_TYPES)
     \<and> distinct (map re_source (filter (\<lambda>r. re_type r = ''reply-to'') (record_relations d)))
     \<and> at_record_id ` set (attention d) \<subseteq> rc_id ` set (records d)"

definition mailbox_ok :: "db \<Rightarrow> bool" where
  "mailbox_ok d \<longleftrightarrow> distinct (map mi_id (mailbox_items d))
     \<and> distinct (map (\<lambda>m. (mi_recipient m, mi_seq m)) (mailbox_items d))
     \<and> distinct (map (\<lambda>m. (mi_recipient m, mi_record_id m)) (mailbox_items d))
     \<and> mi_record_id ` set (mailbox_items d) \<subseteq> rc_id ` set (records d)
     \<and> mi_recipient ` set (mailbox_items d) \<subseteq> pr_id ` set (principals d)
     \<and> (\<forall>m \<in> set (mailbox_items d). 0 < mi_seq m \<and> mi_seq m \<le> i64_max)
     \<and> distinct (map fst (inbox_sequences d))"

definition keys_ok :: "db \<Rightarrow> bool" where
  "keys_ok d \<longleftrightarrow>
     distinct (map (\<lambda>k. (ik_principal_id k, ik_path k, ik_key k)) (idempotency_keys d))
     \<and> ik_record_id ` set (idempotency_keys d) \<subseteq> rc_id ` set (records d)
     \<and> distinct (map (\<lambda>k. (pk_principal_id k, pk_key k)) (profile_idempotency_keys d))
     \<and> pred_option (\<lambda>s. length s = 32) (cursor_secret d)"

definition schema_ok :: "db \<Rightarrow> bool" where
  "schema_ok d \<longleftrightarrow> principals_ok d \<and> credentials_ok d \<and> spaces_ok d \<and> records_ok d \<and> mailbox_ok d \<and> keys_ok d"

lemmas ok_defs = principals_ok_def credentials_ok_def spaces_ok_def records_ok_def mailbox_ok_def keys_ok_def

definition preserves_schema :: "db \<Rightarrow> db \<Rightarrow> bool" where
  "preserves_schema d d' \<longleftrightarrow> (schema_ok d \<longrightarrow> schema_ok d')"

interpretation schema: step_order preserves_schema
  by unfold_locales (auto simp: preserves_schema_def)

interpretation schema_inv: db_invariant schema_ok
  by unfold_locales (simp add: schema_ok_def ok_defs older_same_space_def find_record_def)

section \<open>Statements\<close>

text \<open>A record added under a fresh identifier leaves the others where they are.\<close>

lemma find_append: "find P (xs @ ys) = (case find P xs of None \<Rightarrow> find P ys | Some x \<Rightarrow> Some x)"
  by (induction xs) auto

lemma older_same_space_mono:
  assumes "older_same_space d s t" "records d' = records d @ xs"
  shows "older_same_space d' s t"
  using assms by (auto simp: older_same_space_def find_record_def find_append split: option.splits)

lemma older_same_space_cong:
  "records d' = records d \<Longrightarrow> older_same_space d' s t = older_same_space d s t"
  by (simp add: older_same_space_def find_record_def)

lemma insert_principalD: "insert_principal r d = Inr d' \<Longrightarrow>
    d' = changed (d\<lparr>principals := principals d @ [r]\<rparr>)
    \<and> pr_id r \<notin> nm_name ` set (principal_names d) \<and> pr_id r \<notin> pr_id ` set (principals d)"
  by (simp add: insert_principal_def result_simps)

lemma insert_nameD: "insert_name r d = Inr d' \<Longrightarrow>
    d' = changed (d\<lparr>principal_names := principal_names d @ [r]\<rparr>)
    \<and> nm_name r \<notin> pr_id ` set (principals d) \<and> nm_name r \<notin> nm_name ` set (principal_names d)
    \<and> nm_principal_id r \<in> pr_id ` set (principals d)
    \<and> (nm_kind r = ''current'' \<longrightarrow>
         nm_principal_id r \<notin> nm_principal_id ` set (filter (\<lambda>n. nm_kind n = ''current'') (principal_names d)))"
  by (auto simp: insert_name_def result_simps list_ex_iff)

lemma insert_credentialD: "insert_credential r d = Inr d' \<Longrightarrow>
    d' = changed (d\<lparr>credentials := credentials d @ [r]\<rparr>) \<and> cr_class r = ''principal-client''
    \<and> cr_id r \<notin> cr_id ` set (credentials d) \<and> cr_token_hash r \<notin> cr_token_hash ` set (credentials d)
    \<and> cr_principal_id r \<in> pr_id ` set (principals d)
    \<and> pred_option (\<lambda>i. i = cr_id r \<or> i \<in> cr_id ` set (credentials d)) (cr_replacement r)"
  by (simp add: insert_credential_def result_simps)

lemma insert_receiptD: "insert_receipt r d = Inr d' \<Longrightarrow>
    d' = changed (d\<lparr>registration_receipts := registration_receipts d @ [r]\<rparr>)
    \<and> rr_token_hash r \<notin> rr_token_hash ` set (registration_receipts d)
    \<and> rr_token_hash r \<in> cr_token_hash ` set (credentials d)
    \<and> rr_credential_id r \<in> cr_id ` set (credentials d) \<and> rr_principal_id r \<in> pr_id ` set (principals d)"
  by (simp add: insert_receipt_def result_simps)

lemma insert_credential_auditD: "insert_credential_audit r d = Inr d' \<Longrightarrow>
    d' = changed (d\<lparr>credential_audit := credential_audit d @ [(next_rowid (map fst (credential_audit d)), r)]\<rparr>)
    \<and> ca_credential_id r \<in> cr_id ` set (credentials d)"
  by (simp add: insert_credential_audit_def result_simps)

lemma insert_audit_eventD: "insert_audit_event r d = Inr d' \<Longrightarrow>
    d' = changed (d\<lparr>audit_events := audit_events d @ [r]\<rparr>)"
  by (simp add: insert_audit_event_def result_simps)

lemma insert_profile_keyD: "insert_profile_key r d = Inr d' \<Longrightarrow>
    d' = changed (d\<lparr>profile_idempotency_keys := profile_idempotency_keys d @ [r]\<rparr>)
    \<and> (pk_principal_id r, pk_key r) \<notin> (\<lambda>k. (pk_principal_id k, pk_key k)) ` set (profile_idempotency_keys d)
    \<and> pk_principal_id r \<in> pr_id ` set (principals d)"
  by (auto simp: insert_profile_key_def result_simps list_ex_iff)

lemma insert_spaceD: "insert_space r d = Inr d' \<Longrightarrow>
    d' = changed (d\<lparr>spaces := spaces d @ [r]\<rparr>) \<and> sp_id r \<notin> sp_id ` set (spaces d)
    \<and> sp_name r \<notin> sp_name ` set (spaces d) \<and> sp_access r = ''public''"
  by (simp add: insert_space_def result_simps)

lemma upsert_membershipD:
  assumes "upsert_membership r d = Inr d'"
  shows "\<exists>ms. d' = changed (d\<lparr>memberships := ms\<rparr>)
    \<and> mb_space_id ` set ms \<subseteq> mb_space_id ` set (memberships d) \<union> sp_id ` set (spaces d)
    \<and> mb_principal_id ` set ms \<subseteq> mb_principal_id ` set (memberships d) \<union> pr_id ` set (principals d)"
proof (cases "list_ex (\<lambda>m. mb_space_id m = mb_space_id r \<and> mb_principal_id m = mb_principal_id r) (memberships d)")
  case True
  let ?f = "\<lambda>m. if mb_space_id m = mb_space_id r \<and> mb_principal_id m = mb_principal_id r
    then m\<lparr>mb_can_read := mb_can_read r, mb_can_append := mb_can_append r, mb_can_admin := mb_can_admin r\<rparr> else m"
  show ?thesis
    using assms True by (intro exI [of _ "map ?f (memberships d)"]) (auto simp: upsert_membership_def image_iff; metis)
next
  case False
  then show ?thesis
    using assms by (intro exI [of _ "memberships d @ [r]"]) (auto simp: upsert_membership_def result_simps)
qed

lemma insert_recordD: "insert_record r d = Inr d' \<Longrightarrow>
    d' = changed (d\<lparr>records := records d @ [r]\<rparr>) \<and> rc_id r \<notin> rc_id ` set (records d)
    \<and> (rc_space_id r, rc_space_seq r) \<notin> (\<lambda>x. (rc_space_id x, rc_space_seq x)) ` set (records d)
    \<and> rc_space_id r \<in> sp_id ` set (spaces d) \<and> rc_author r \<in> pr_id ` set (principals d)
    \<and> 0 < rc_space_seq r \<and> rc_space_seq r \<le> i64_max"
  by (auto simp: insert_record_def result_simps list_ex_iff)

lemma insert_relationD: "insert_relation r d = Inr d' \<Longrightarrow>
    d' = changed (d\<lparr>record_relations := record_relations d @ [r]\<rparr>)
    \<and> older_same_space d (re_source r) (re_target r) \<and> re_type r \<in> set (map relation_as_str RELATION_TYPES)
    \<and> (re_type r = ''reply-to'' \<longrightarrow>
         re_source r \<notin> re_source ` set (filter (\<lambda>x. re_type x = ''reply-to'') (record_relations d)))"
  by (auto simp: insert_relation_def result_simps list_ex_iff)

lemma insert_attentionD: "insert_attention r d = Inr d' \<Longrightarrow>
    d' = changed (d\<lparr>attention := attention d @ [r]\<rparr>) \<and> at_record_id r \<in> rc_id ` set (records d)
    \<and> at_recipient r \<in> pr_id ` set (principals d)"
  by (simp add: insert_attention_def result_simps)

lemma bump_inbox_sequenceD: "bump_inbox_sequence p d = Inr d' \<Longrightarrow>
    (\<exists>n. map_of (inbox_sequences d) p = Some n \<and> n < i64_max
       \<and> d' = changed (d\<lparr>inbox_sequences := map (\<lambda>(q, k). if q = p then (q, k + 1) else (q, k)) (inbox_sequences d)\<rparr>))
    \<or> p \<notin> fst ` set (inbox_sequences d) \<and> p \<in> pr_id ` set (principals d) \<and> d' = changed (d\<lparr>inbox_sequences := inbox_sequences d @ [(p, 1)]\<rparr>)"
  by (auto simp: bump_inbox_sequence_def result_simps map_of_eq_None_iff split: option.splits)

lemma insert_mailbox_itemD: "insert_mailbox_item r d = Inr d' \<Longrightarrow>
    d' = changed (d\<lparr>mailbox_items := mailbox_items d @ [r]\<rparr>) \<and> mi_id r \<notin> mi_id ` set (mailbox_items d)
    \<and> (mi_recipient r, mi_seq r) \<notin> (\<lambda>m. (mi_recipient m, mi_seq m)) ` set (mailbox_items d)
    \<and> (mi_recipient r, mi_record_id r) \<notin> (\<lambda>m. (mi_recipient m, mi_record_id m)) ` set (mailbox_items d)
    \<and> mi_record_id r \<in> rc_id ` set (records d) \<and> mi_recipient r \<in> pr_id ` set (principals d)
    \<and> 0 < mi_seq r \<and> mi_seq r \<le> i64_max"
  by (auto simp: insert_mailbox_item_def result_simps list_ex_iff)

lemma insert_idempotency_keyD: "insert_idempotency_key r d = Inr d' \<Longrightarrow>
    d' = changed (d\<lparr>idempotency_keys := idempotency_keys d @ [r]\<rparr>)
    \<and> (ik_principal_id r, ik_path r, ik_key r)
        \<notin> (\<lambda>k. (ik_principal_id k, ik_path k, ik_key k)) ` set (idempotency_keys d)
    \<and> ik_record_id r \<in> rc_id ` set (records d) \<and> ik_principal_id r \<in> pr_id ` set (principals d)"
  by (auto simp: insert_idempotency_key_def result_simps list_ex_iff)

lemma insert_cursor_secretD: "insert_cursor_secret s d = Inr d' \<Longrightarrow>
    d' = changed (d\<lparr>cursor_secret := Some s\<rparr>) \<and> length s = 32 \<and> cursor_secret d = None"
  by (simp add: insert_cursor_secret_def result_simps)

text \<open>What a statement leaves of the parts it does not touch.\<close>

lemmas ok_frame = schema_ok_def ok_defs older_same_space_def find_record_def changed_def

lemma insert_principal_schema: "insert_principal r d = Inr d' \<Longrightarrow> preserves_schema d d'"
  by (drule insert_principalD) (simp add: preserves_schema_def ok_frame subset_insertI2)

lemma insert_name_schema: "insert_name r d = Inr d' \<Longrightarrow> preserves_schema d d'"
  by (drule insert_nameD) (auto simp: preserves_schema_def ok_frame)

lemma insert_credential_schema: "insert_credential r d = Inr d' \<Longrightarrow> preserves_schema d d'"
  by (drule insert_credentialD) (simp add: preserves_schema_def ok_frame subset_insertI2)

lemma insert_receipt_schema: "insert_receipt r d = Inr d' \<Longrightarrow> preserves_schema d d'"
  by (drule insert_receiptD) (simp add: preserves_schema_def ok_frame)

lemma insert_credential_audit_schema: "insert_credential_audit r d = Inr d' \<Longrightarrow> preserves_schema d d'"
  by (drule insert_credential_auditD) (simp add: preserves_schema_def ok_frame)

lemma insert_audit_event_schema: "insert_audit_event r d = Inr d' \<Longrightarrow> preserves_schema d d'"
  by (drule insert_audit_eventD) (simp add: preserves_schema_def ok_frame)

lemma insert_profile_key_schema: "insert_profile_key r d = Inr d' \<Longrightarrow> preserves_schema d d'"
  by (drule insert_profile_keyD) (simp add: preserves_schema_def ok_frame)

lemma insert_space_schema: "insert_space r d = Inr d' \<Longrightarrow> preserves_schema d d'"
  by (drule insert_spaceD) (simp add: preserves_schema_def ok_frame subset_insertI2)

lemma upsert_membership_schema: "upsert_membership r d = Inr d' \<Longrightarrow> preserves_schema d d'"
  by (drule upsert_membershipD, elim exE conjE) (simp add: preserves_schema_def ok_frame)

lemma insert_record_schema: "insert_record r d = Inr d' \<Longrightarrow> preserves_schema d d'"
  by (drule insert_recordD) (auto simp: preserves_schema_def schema_ok_def ok_defs changed_def
      intro: older_same_space_mono)

lemma insert_relation_schema: "insert_relation r d = Inr d' \<Longrightarrow> preserves_schema d d'"
  by (drule insert_relationD) (simp add: preserves_schema_def ok_frame)

lemma insert_attention_schema: "insert_attention r d = Inr d' \<Longrightarrow> preserves_schema d d'"
  by (drule insert_attentionD) (simp add: preserves_schema_def ok_frame)

lemma bump_keys [simp]:
  "map (fst \<circ> (\<lambda>(q, k). if q = p then (q, k + 1) else (q, k))) xs = map fst xs"
  by (induction xs) auto

lemma bump_inbox_sequence_schema: "bump_inbox_sequence r d = Inr d' \<Longrightarrow> preserves_schema d d'"
  by (drule bump_inbox_sequenceD, elim disjE exE conjE)
     (simp_all add: preserves_schema_def ok_frame)

lemma insert_mailbox_item_schema: "insert_mailbox_item r d = Inr d' \<Longrightarrow> preserves_schema d d'"
  by (drule insert_mailbox_itemD) (simp add: preserves_schema_def ok_frame)

lemma insert_idempotency_key_schema: "insert_idempotency_key r d = Inr d' \<Longrightarrow> preserves_schema d d'"
  by (drule insert_idempotency_keyD) (simp add: preserves_schema_def ok_frame)

lemma insert_cursor_secret_schema: "insert_cursor_secret s d = Inr d' \<Longrightarrow> preserves_schema d d'"
  by (drule insert_cursor_secretD) (simp add: preserves_schema_def ok_frame)

lemmas insert_schema = insert_principal_schema insert_name_schema insert_credential_schema
  insert_receipt_schema insert_credential_audit_schema insert_audit_event_schema
  insert_profile_key_schema insert_space_schema upsert_membership_schema insert_record_schema
  insert_relation_schema insert_attention_schema bump_inbox_sequence_schema
  insert_mailbox_item_schema insert_idempotency_key_schema insert_cursor_secret_schema

lemma schema_execute:
  "keeps preserves_schema (execute (insert_principal r0))"
  "keeps preserves_schema (execute (insert_name r1))"
  "keeps preserves_schema (execute (insert_credential r2))"
  "keeps preserves_schema (execute (insert_receipt r3))"
  "keeps preserves_schema (execute (insert_credential_audit r4))"
  "keeps preserves_schema (execute (insert_audit_event r5))"
  "keeps preserves_schema (execute (insert_profile_key r6))"
  "keeps preserves_schema (execute (insert_space r7))"
  "keeps preserves_schema (execute (upsert_membership r8))"
  "keeps preserves_schema (execute (insert_record r9))"
  "keeps preserves_schema (execute (insert_relation r10))"
  "keeps preserves_schema (execute (insert_attention r11))"
  "keeps preserves_schema (execute (bump_inbox_sequence r12))"
  "keeps preserves_schema (execute (insert_mailbox_item r13))"
  "keeps preserves_schema (execute (insert_idempotency_key r14))"
  "keeps preserves_schema (execute (insert_cursor_secret r15))"
  by (rule schema.keeps_execute, erule insert_schema)+

lemma schema_ok_total_changes [simp]: "schema_ok (d\<lparr>total_changes := n\<rparr>) = schema_ok d"
  by (simp add: ok_frame)

text \<open>An UPDATE keeps the schema when the rewritten table still satisfies it.\<close>

lemma schema_update:
  assumes "\<And>d d' n. f d = Inr (d', n) \<Longrightarrow> schema_ok d \<Longrightarrow> schema_ok d'"
  shows "keeps preserves_schema (update f)"
  unfolding keeps_def
proof (intro allI impI)
  fix d z n d' z' assume "update f (d, z) = (Inr n, d', z')"
  then obtain d1 where "f d = Inr (d1, n)" "d' = (if n = 0 then d else d1\<lparr>total_changes := total_changes d + n\<rparr>)"
    by (auto simp: prog_simps)
  then show "preserves_schema d d'"
    using assms [of d d1 n] by (simp add: preserves_schema_def)
qed

lemmas schema_rules = schema.keeps_rules schema_execute

end
