(* ===== verification/Query_Codec.thy ===== *)
theory Query_Codec
  imports Wire
begin

text \<open>
  The query-string codec of the protocol (crates/journal-protocol/src/query.rs): parsing a
  request's query into a typed query with fail-closed key handling, and the pairs a client
  sends. The crates \<open>form_urlencoded\<close> and \<open>percent_encoding\<close> are the record \<open>form_codec\<close>
  of parameters; the escape check the source does itself is \<open>percent_escapes_ok\<close>.
\<close>

record form_codec =
  form_parse :: "string \<Rightarrow> (string \<times> string) list"
  form_serialize :: "(string \<times> string) list \<Rightarrow> string"
  percent_decodes_to_utf8 :: "string \<Rightarrow> bool"
  byte_serialize :: "string \<Rightarrow> string"

datatype invalid_query = InvalidQuery

section \<open>Parsing key/value pairs\<close>

definition is_hexdigit :: "char \<Rightarrow> bool" where
  "is_hexdigit c \<longleftrightarrow> is_digit c \<or> (97 \<le> (of_char c :: nat) \<and> (of_char c :: nat) \<le> 102)
     \<or> (65 \<le> (of_char c :: nat) \<and> (of_char c :: nat) \<le> 70)"

fun percent_escapes_ok :: "string \<Rightarrow> bool" where
  "percent_escapes_ok [] = True"
| "percent_escapes_ok (b # rest) =
     ((b = CHR ''%'' \<longrightarrow> (case rest of h # l # _ \<Rightarrow> is_hexdigit h \<and> is_hexdigit l | _ \<Rightarrow> False))
      \<and> percent_escapes_ok rest)"

fun collect_pairs ::
  "string list \<Rightarrow> (string, string) btree_map \<Rightarrow> (string \<times> string) list
     \<Rightarrow> invalid_query + (string, string) btree_map" where
  "collect_pairs allowed result [] = Inr result"
| "collect_pairs allowed result ((key, val) # rest) =
     (if key \<notin> set allowed \<or> bt_get result key \<noteq> None then Inl InvalidQuery
      else collect_pairs allowed (bt_insert key val result) rest)"

definition parse_query ::
  "form_codec \<Rightarrow> string \<Rightarrow> string list \<Rightarrow> invalid_query + (string, string) btree_map" where
  "parse_query F query allowed =
     (if \<not> percent_escapes_ok query then Inl InvalidQuery
      else if \<not> percent_decodes_to_utf8 F query then Inl InvalidQuery
      else collect_pairs allowed [] (form_parse F query))"

definition path_segment :: "form_codec \<Rightarrow> string \<Rightarrow> string" where
  "path_segment F s = concat (map (\<lambda>c. if c = CHR ''+'' then ''%20'' else [c]) (byte_serialize F s))"

definition query_string :: "form_codec \<Rightarrow> (string \<times> string) list \<Rightarrow> string" where
  "query_string F pairs = form_serialize F pairs"

text \<open>\<open>values.get(k).map(|s| s.parse()).transpose()\<close> for an unsigned number.\<close>

definition get_number :: "(string, string) btree_map \<Rightarrow> string \<Rightarrow> invalid_query + nat option" where
  "get_number m k =
     (case bt_get m k of
        None \<Rightarrow> Inr None
      | Some s \<Rightarrow> (case parse_u64 s of Some n \<Rightarrow> Inr (Some n) | None \<Rightarrow> Inl InvalidQuery))"

definition page_of_values :: "(string, string) btree_map \<Rightarrow> invalid_query + page_query" where
  "page_of_values m =
     and_then (get_number m ''limit'') (\<lambda>limit.
     let page = \<lparr>q_cursor = bt_get m ''cursor'', q_limit = limit\<rparr> in
     and_then (map_err (\<lambda>_. InvalidQuery) (validate_page_query page)) (\<lambda>_. Inr page))"

definition page_query_from_query :: "form_codec \<Rightarrow> string \<Rightarrow> invalid_query + page_query" where
  "page_query_from_query F query =
     and_then (parse_query F query [''cursor'', ''limit'']) page_of_values"

definition page_query_pairs :: "page_query \<Rightarrow> (string \<times> string) list" where
  "page_query_pairs self =
     (case q_cursor self of Some c \<Rightarrow> [(''cursor'', c)] | None \<Rightarrow> [])
     @ (case q_limit self of Some n \<Rightarrow> [(''limit'', show_nat n)] | None \<Rightarrow> [])"

section \<open>The typed queries\<close>

definition inbox_query_from_query :: "form_codec \<Rightarrow> string \<Rightarrow> invalid_query + inbox_query" where
  "inbox_query_from_query F query =
     and_then (parse_query F query [''state'', ''cursor'', ''limit'', ''wait_seconds'']) (\<lambda>m.
     and_then (get_number m ''wait_seconds'') (\<lambda>wait.
     let wait_seconds = (case wait of Some n \<Rightarrow> n | None \<Rightarrow> 0) in
     if wait_seconds > MAX_INBOX_WAIT_SECONDS then Inl InvalidQuery
     else
       and_then (case bt_get m ''state'' of
           None \<Rightarrow> Inr Unacknowledged
         | Some s \<Rightarrow>
             if s = ''unacknowledged'' then Inr Unacknowledged
             else if s = ''acknowledged'' then Inr Acknowledged
             else if s = ''all'' then Inr AllItems
             else Inl InvalidQuery) (\<lambda>state.
       and_then (page_of_values m) (\<lambda>page.
       Inr \<lparr>iq_state = state, iq_page = page, iq_wait_seconds = wait_seconds\<rparr>))))"

definition inbox_query_pairs :: "inbox_query \<Rightarrow> (string \<times> string) list" where
  "inbox_query_pairs self =
     page_query_pairs (iq_page self) @ [(''state'', inbox_state_as_str (iq_state self))]
     @ (if iq_wait_seconds self > 0 then [(''wait_seconds'', show_nat (iq_wait_seconds self))] else [])"

definition list_principals_from_query ::
  "form_codec \<Rightarrow> string \<Rightarrow> invalid_query + list_principals_query" where
  "list_principals_from_query F query =
     and_then (parse_query F query [''space'', ''cursor'', ''limit'']) (\<lambda>m.
     and_then (ok_or InvalidQuery (bt_get m ''space'')) (\<lambda>space.
     and_then (page_of_values m) (\<lambda>page.
     let result = \<lparr>lp_space = space, lp_page = page\<rparr> in
     and_then (map_err (\<lambda>_. InvalidQuery) (validate_list_principals_query result)) (\<lambda>_.
     Inr result))))"

definition list_principals_pairs :: "list_principals_query \<Rightarrow> (string \<times> string) list" where
  "list_principals_pairs self = page_query_pairs (lp_page self) @ [(''space'', lp_space self)]"

definition list_records_from_query ::
  "form_codec \<Rightarrow> string \<Rightarrow> invalid_query + list_records_query" where
  "list_records_from_query F query =
     and_then (parse_query F query
       [''cursor'', ''limit'', ''after_seq'', ''author'', ''attention'', ''kind'', ''relation'']) (\<lambda>m.
     and_then (case bt_get m ''relation'' of
         None \<Rightarrow> Inr None
       | Some s \<Rightarrow> and_then (ok_or InvalidQuery (find_relation_type s)) (\<lambda>r. Inr (Some r))) (\<lambda>rel.
     and_then (page_of_values m) (\<lambda>page.
     and_then (get_number m ''after_seq'') (\<lambda>after_seq.
     let result = \<lparr>lr_page = page, lr_after_seq = after_seq, lr_author = bt_get m ''author'',
           lr_attention = bt_get m ''attention'', lr_kind = bt_get m ''kind'', lr_relation = rel\<rparr> in
     and_then (map_err (\<lambda>_. InvalidQuery) (validate_list_records_query result)) (\<lambda>_.
     Inr result)))))"

definition optional_pair :: "string \<Rightarrow> string option \<Rightarrow> (string \<times> string) list" where
  "optional_pair key val = (case val of Some v \<Rightarrow> [(key, v)] | None \<Rightarrow> [])"

definition list_records_pairs :: "list_records_query \<Rightarrow> (string \<times> string) list" where
  "list_records_pairs self =
     page_query_pairs (lr_page self)
     @ optional_pair ''after_seq'' (map_option show_nat (lr_after_seq self))
     @ optional_pair ''author'' (lr_author self)
     @ optional_pair ''attention'' (lr_attention self)
     @ optional_pair ''kind'' (lr_kind self)
     @ optional_pair ''relation'' (map_option relation_as_str (lr_relation self))"

definition search_records_from_query ::
  "form_codec \<Rightarrow> (string \<Rightarrow> 'ts option) \<Rightarrow> string \<Rightarrow> invalid_query + search_records_query" where
  "search_records_from_query F parse_timestamp query =
     and_then (parse_query F query
       [''q'', ''cursor'', ''limit'', ''author'', ''attention'', ''since'', ''order'']) (\<lambda>m.
     and_then (ok_or InvalidQuery (bt_get m ''q'')) (\<lambda>q.
     and_then (page_of_values m) (\<lambda>page.
     and_then (case bt_get m ''order'' of
         None \<Rightarrow> Inr Rank
       | Some s \<Rightarrow> if s = ''rank'' then Inr Rank else if s = ''seq'' then Inr Seq
                   else Inl InvalidQuery) (\<lambda>order.
     let result = \<lparr>sq_q = q, sq_page = page, sq_author = bt_get m ''author'',
           sq_attention = bt_get m ''attention'', sq_since = bt_get m ''since'', sq_order = order\<rparr> in
     and_then (map_err (\<lambda>_. InvalidQuery) (validate_search_records_query parse_timestamp result)) (\<lambda>_.
     Inr result)))))"

definition search_records_pairs :: "search_records_query \<Rightarrow> (string \<times> string) list" where
  "search_records_pairs self =
     page_query_pairs (sq_page self) @ [(''q'', sq_q self)]
     @ [(''order'', case sq_order self of Rank \<Rightarrow> ''rank'' | Seq \<Rightarrow> ''seq'')]
     @ optional_pair ''author'' (sq_author self)
     @ optional_pair ''attention'' (sq_attention self)
     @ optional_pair ''since'' (sq_since self)"

section \<open>Round trips\<close>

lemma collect_pairs_eq_Inr:
  "bt_ordered m0 \<Longrightarrow> collect_pairs allowed m0 ps = Inr m \<Longrightarrow>
     bt_ordered m \<and> bt_get m = bt_get m0 ++ map_of ps \<and> distinct (map fst ps)
     \<and> fst ` set ps \<subseteq> set allowed \<and> fst ` set ps \<inter> dom (bt_get m0) = {}"
proof (induction allowed m0 ps rule: collect_pairs.induct)
  case (2 allowed m0 key val rest)
  then have ok: "key \<in> set allowed" "bt_get m0 key = None"
    and rec: "collect_pairs allowed (bt_insert key val m0) rest = Inr m"
    by (auto split: if_splits)
  from 2(1) [OF _ bt_ordered_insert [OF 2(2)] rec] ok
  show ?case
    by (auto simp: bt_get_insert map_add_def fun_eq_iff domIff split: option.splits)
qed simp

lemma collect_pairs_accepts:
  "bt_ordered m0 \<Longrightarrow> distinct (map fst ps) \<Longrightarrow> fst ` set ps \<subseteq> set allowed \<Longrightarrow>
     fst ` set ps \<inter> dom (bt_get m0) = {} \<Longrightarrow> \<exists>m. collect_pairs allowed m0 ps = Inr m"
proof (induction allowed m0 ps rule: collect_pairs.induct)
  case (2 allowed m0 key val rest)
  have "fst ` set rest \<inter> dom (bt_get (bt_insert key val m0)) = {}"
    using 2(3,5) by (auto simp: bt.dom_insert)
  then show ?case using 2 by (auto simp: bt_ordered_insert)
qed simp

text \<open>What the code relies on from \<open>form_urlencoded\<close> for one list of pairs: the serialised
  query has well-formed escapes that decode to UTF-8, and parses back to the same pairs.\<close>

definition form_roundtrips :: "form_codec \<Rightarrow> (string \<times> string) list \<Rightarrow> bool" where
  "form_roundtrips F ps \<longleftrightarrow>
     percent_escapes_ok (form_serialize F ps) \<and> percent_decodes_to_utf8 F (form_serialize F ps)
     \<and> form_parse F (form_serialize F ps) = ps"

lemma parse_query_pairs:
  assumes "form_roundtrips F ps" "distinct (map fst ps)" "fst ` set ps \<subseteq> set allowed"
  obtains m where "parse_query F (query_string F ps) allowed = Inr m" "\<And>k. bt_get m k = map_of ps k"
proof -
  obtain m where m: "collect_pairs allowed [] ps = Inr m"
    using collect_pairs_accepts [of "[]" ps allowed] assms by auto
  then have "bt_get m = map_of ps"
    using collect_pairs_eq_Inr [OF bt_ordered_Nil m] by simp
  with m assms(1) that show thesis
    by (simp add: parse_query_def query_string_def form_roundtrips_def)
qed

lemmas pair_defs = page_query_pairs_def optional_pair_def

lemma page_of_values_pairs:
  assumes "\<And>k. k \<in> {''cursor'', ''limit''} \<Longrightarrow> bt_get m k = map_of (page_query_pairs q) k"
    and "validate_page_query q = Inr ()"
  shows "page_of_values m = Inr q"
proof -
  have "effective_limit q < 2 ^ 64"
    using assms(2) by (simp add: result_simps limit_defs)
  then have "get_number m ''limit'' = Inr (q_limit q)"
    using assms(1) [of "''limit''"]
    by (auto simp: get_number_def page_query_pairs_def effective_limit_def parse_show_nat
        split: option.splits)
  moreover have "bt_get m ''cursor'' = q_cursor q"
    using assms(1) [of "''cursor''"] by (auto simp: page_query_pairs_def split: option.splits)
  ultimately show ?thesis
    using assms(2) by (cases q) (simp add: page_of_values_def Let_def)
qed

lemma page_query_pairs_keys:
  "distinct (map fst (page_query_pairs q))" "fst ` set (page_query_pairs q) \<subseteq> {''cursor'', ''limit''}"
  by (auto simp: page_query_pairs_def split: option.splits)

lemma map_of_page_pairs_None:
  "k \<notin> {''cursor'', ''limit''} \<Longrightarrow> map_of (page_query_pairs q) k = None"
  using page_query_pairs_keys(2) [of q] by (auto simp: map_of_eq_None_iff)

text \<open>
  An inbox query survives the wire: parsing the query string a client builds from the
  pairs of a valid inbox query gives that query back.
\<close>

lemma inbox_query_roundtrip:
  assumes "validate_inbox_query q = Inr ()" and "form_roundtrips F (inbox_query_pairs q)"
  shows "inbox_query_from_query F (query_string F (inbox_query_pairs q)) = Inr q"
proof -
  let ?ps = "inbox_query_pairs q"
  have keys: "distinct (map fst ?ps)"
    "fst ` set ?ps \<subseteq> set [''state'', ''cursor'', ''limit'', ''wait_seconds'']"
    using page_query_pairs_keys [of "iq_page q"] by (auto simp: inbox_query_pairs_def)
  obtain m where m: "parse_query F (query_string F ?ps)
      [''state'', ''cursor'', ''limit'', ''wait_seconds''] = Inr m" "\<And>k. bt_get m k = map_of ?ps k"
    using parse_query_pairs [OF assms(2) keys] by blast
  have wait: "iq_wait_seconds q \<le> MAX_INBOX_WAIT_SECONDS" "validate_page_query (iq_page q) = Inr ()"
    using assms(1) by (simp_all add: result_simps)
  have "page_of_values m = Inr (iq_page q)"
    using wait(2) by (intro page_of_values_pairs) (auto simp: m(2) inbox_query_pairs_def)
  moreover have "iq_wait_seconds q < 2 ^ 64"
    using wait(1) by (simp add: MAX_INBOX_WAIT_SECONDS_def)
  then have "get_number m ''wait_seconds'' =
      Inr (if iq_wait_seconds q > 0 then Some (iq_wait_seconds q) else None)"
    by (auto simp: get_number_def m(2) inbox_query_pairs_def parse_show_nat map_of_page_pairs_None)
  moreover have "bt_get m ''state'' = Some (inbox_state_as_str (iq_state q))"
    by (simp add: m(2) inbox_query_pairs_def map_of_page_pairs_None)
  ultimately show ?thesis
    using wait(1) m(1) by (cases "iq_state q") (auto simp: inbox_query_from_query_def)
qed

lemma optional_pair_keys: "distinct (map fst (optional_pair k v))" "fst ` set (optional_pair k v) \<subseteq> {k}"
  by (auto simp: optional_pair_def split: option.splits)

lemma map_of_optional_pair [simp]: "map_of (optional_pair k v) k' = (if k' = k then v else None)"
  by (auto simp: optional_pair_def split: option.splits)

text \<open>
  A record-list query survives the wire, filters included: parsing the query string a
  client builds from a valid query gives the same query back.
\<close>

lemma list_records_query_roundtrip:
  assumes "validate_list_records_query q = Inr ()"
    and "pred_option (\<lambda>n. n < 2 ^ 64) (lr_after_seq q)"
    and "form_roundtrips F (list_records_pairs q)"
  shows "list_records_from_query F (query_string F (list_records_pairs q)) = Inr q"
proof -
  let ?ps = "list_records_pairs q"
  let ?allowed = "[''cursor'', ''limit'', ''after_seq'', ''author'', ''attention'', ''kind'', ''relation'']"
  have keys: "distinct (map fst ?ps)" "fst ` set ?ps \<subseteq> set ?allowed"
    using page_query_pairs_keys [of "lr_page q"]
    by (auto simp: list_records_pairs_def optional_pair_def split: option.splits)
  obtain m where m: "parse_query F (query_string F ?ps) ?allowed = Inr m" "\<And>k. bt_get m k = map_of ?ps k"
    using parse_query_pairs [OF assms(3) keys] by blast
  have get: "bt_get m ''author'' = lr_author q" "bt_get m ''attention'' = lr_attention q"
    "bt_get m ''kind'' = lr_kind q" "bt_get m ''relation'' = map_option relation_as_str (lr_relation q)"
    "bt_get m ''after_seq'' = map_option show_nat (lr_after_seq q)"
    by (simp_all add: m(2) list_records_pairs_def map_of_page_pairs_None)
  have "page_of_values m = Inr (lr_page q)"
    using validate_list_records_query_page [OF assms(1)]
    by (intro page_of_values_pairs) (auto simp: m(2) list_records_pairs_def)
  moreover have "get_number m ''after_seq'' = Inr (lr_after_seq q)"
    using assms(2) by (auto simp: get_number_def get parse_show_nat split: option.splits)
  ultimately show ?thesis
    using m(1) assms(1) get
    by (cases q; cases "lr_relation q") (auto simp: list_records_from_query_def Let_def)
qed

text \<open>The other queries: a page, the principals of a space, a search.\<close>

lemma page_query_roundtrip:
  assumes "validate_page_query q = Inr ()" and "form_roundtrips F (page_query_pairs q)"
  shows "page_query_from_query F (query_string F (page_query_pairs q)) = Inr q"
proof -
  obtain m where m: "parse_query F (query_string F (page_query_pairs q)) [''cursor'', ''limit''] = Inr m"
      "\<And>k. bt_get m k = map_of (page_query_pairs q) k"
    using parse_query_pairs [OF assms(2) page_query_pairs_keys(1), of "[''cursor'', ''limit'']"]
      page_query_pairs_keys(2) [of q] by auto
  have "page_of_values m = Inr q"
    using assms(1) by (intro page_of_values_pairs) (auto simp: m(2))
  then show ?thesis by (simp add: page_query_from_query_def m(1))
qed

lemma list_principals_query_roundtrip:
  assumes "validate_list_principals_query q = Inr ()" and "form_roundtrips F (list_principals_pairs q)"
  shows "list_principals_from_query F (query_string F (list_principals_pairs q)) = Inr q"
proof -
  let ?ps = "list_principals_pairs q"
  have keys: "distinct (map fst ?ps)" "fst ` set ?ps \<subseteq> set [''space'', ''cursor'', ''limit'']"
    using page_query_pairs_keys [of "lp_page q"] by (auto simp: list_principals_pairs_def)
  obtain m where m: "parse_query F (query_string F ?ps) [''space'', ''cursor'', ''limit''] = Inr m" "\<And>k. bt_get m k = map_of ?ps k"
    using parse_query_pairs [OF assms(2) keys] by blast
  have "validate_page_query (lp_page q) = Inr ()"
    using assms(1) by (auto simp: validate_list_principals_query_def result_simps)
  then have "page_of_values m = Inr (lp_page q)"
    by (intro page_of_values_pairs) (auto simp: m(2) list_principals_pairs_def)
  moreover have "bt_get m ''space'' = Some (lp_space q)"
    by (simp add: m(2) list_principals_pairs_def map_of_page_pairs_None)
  ultimately show ?thesis
    using assms(1) m(1) by (cases q) (simp add: list_principals_from_query_def Let_def)
qed

lemma search_records_query_roundtrip:
  assumes "validate_search_records_query parse_timestamp q = Inr ()" and "form_roundtrips F (search_records_pairs q)"
  shows "search_records_from_query F parse_timestamp (query_string F (search_records_pairs q)) = Inr q"
proof -
  let ?ps = "search_records_pairs q"
  let ?allowed = "[''q'', ''cursor'', ''limit'', ''author'', ''attention'', ''since'', ''order'']"
  have keys: "distinct (map fst ?ps)" "fst ` set ?ps \<subseteq> set ?allowed"
    using page_query_pairs_keys [of "sq_page q"]
    by (auto simp: search_records_pairs_def optional_pair_def split: option.splits)
  obtain m where m: "parse_query F (query_string F ?ps) ?allowed = Inr m" "\<And>k. bt_get m k = map_of ?ps k"
    using parse_query_pairs [OF assms(2) keys] by blast
  have get: "bt_get m ''q'' = Some (sq_q q)" "bt_get m ''author'' = sq_author q" "bt_get m ''attention'' = sq_attention q"
    "bt_get m ''since'' = sq_since q" "bt_get m ''order'' = Some (case sq_order q of Rank \<Rightarrow> ''rank'' | Seq \<Rightarrow> ''seq'')"
    by (simp_all add: m(2) search_records_pairs_def map_of_page_pairs_None)
  have "validate_page_query (sq_page q) = Inr ()"
    using assms(1) by (auto simp: validate_search_records_query_def result_simps)
  then have "page_of_values m = Inr (sq_page q)"
    by (intro page_of_values_pairs) (auto simp: m(2) search_records_pairs_def)
  then show ?thesis
    using assms(1) m(1) get by (cases q; cases "sq_order q") (simp_all add: search_records_from_query_def Let_def)
qed

text \<open>
  A query string that repeats a key, or has a key outside the route's vocabulary, is
  rejected: acceptance implies distinct, allowed keys, and every value read is the one sent.
\<close>

lemma parse_query_accepts_only_distinct_allowed_keys:
  assumes "parse_query F query allowed = Inr m"
  shows "distinct (map fst (form_parse F query)) \<and> fst ` set (form_parse F query) \<subseteq> set allowed
    \<and> bt_get m = map_of (form_parse F query) \<and> percent_escapes_ok query"
proof -
  from assms have "collect_pairs allowed [] (form_parse F query) = Inr m" "percent_escapes_ok query"
    by (auto simp: parse_query_def split: if_splits)
  then show ?thesis
    using collect_pairs_eq_Inr [OF bt_ordered_Nil] by simp
qed

end
