(* ===== verification/Bootstrap.thy ===== *)
theory Bootstrap
  imports Integrity Query_Codec
begin

text \<open>
  Principal registration, authentication and administration: one program per public method of
  \<open>BootstrapService\<close> in journal-service/src/bootstrap.rs. The part of a method that runs inside
  \<open>self.transaction\<close> is a definition of its own (\<open>..._tx\<close>).
\<close>

section \<open>Data\<close>

record authenticated_credential =
  ac_credential_id :: string
  ac_principal_id :: string
  ac_class :: credential_class

record registration_outcome =
  ro_receipt :: registration_receipt
  ro_replayed :: bool

text \<open>\<open>WHERE id=?\<close> and \<open>WHERE token_hash=?\<close> on credentials.\<close>

definition find_credential :: "db \<Rightarrow> string \<Rightarrow> credential_row option" where
  "find_credential d i = find (\<lambda>c. cr_id c = i) (credentials d)"

definition find_token :: "db \<Rightarrow> string \<Rightarrow> credential_row option" where
  "find_token d h = find (\<lambda>c. cr_token_hash c = h) (credentials d)"

section \<open>Principals\<close>

definition new_principal :: "string \<Rightarrow> string \<Rightarrow> string \<Rightarrow> principal_row" where
  "new_principal i display_name at_time = \<lparr>pr_id = i, pr_display_name = display_name,
     pr_created_at = at_time, pr_disabled_at = None, pr_description = None, pr_profile_revision = 1\<rparr>"

definition new_name :: "string \<Rightarrow> string \<Rightarrow> string \<Rightarrow> name_row" where
  "new_name handle i at_time =
     \<lparr>nm_name = handle, nm_principal_id = i, nm_kind = ''current'', nm_created_at = at_time\<rparr>"

definition create_principal_tx :: "string \<Rightarrow> string \<Rightarrow> principal_create_request \<Rightarrow> (db, unit) prog" where
  "create_principal_tx i at_time request =
     bind (execute (insert_principal (new_principal i (pc_display_name request) at_time))) (\<lambda>_.
     execute (insert_name (new_name (pc_handle request) i at_time)))"

definition create_principal :: "env \<Rightarrow> principal_create_request \<Rightarrow> (store, principal) prog" where
  "create_principal E request =
     bind (lift (map_err Invalid (validate_principal_create request))) (\<lambda>_.
     bind (now E) (\<lambda>now.
     bind (principal_id E) (\<lambda>i.
     bind (transaction E (create_principal_tx i now request)) (\<lambda>_.
     ret \<lparr>p_id = i, p_handle = pc_handle request, p_display_name = pc_display_name request,
       p_description = None, p_profile_revision = 1, p_created_at = now, p_disabled = False\<rparr>))))"

section \<open>Registration\<close>

definition registration_token :: "string \<Rightarrow> bool" where
  "registration_token token \<longleftrightarrow> length token = 64 \<and> list_all is_lower_hex token"

definition new_credential :: "string \<Rightarrow> string \<Rightarrow> string \<Rightarrow> string \<Rightarrow> credential_row" where
  "new_credential i prin token_hash at_time = \<lparr>cr_id = i, cr_principal_id = prin,
     cr_class = ''principal-client'', cr_token_hash = token_hash, cr_created_at = at_time,
     cr_expires_at = None, cr_revoked_at = None, cr_replacement = None, cr_reason = None\<rparr>"

definition credential_event :: "string \<Rightarrow> string \<Rightarrow> string \<Rightarrow> string option \<Rightarrow> credential_audit_row" where
  "credential_event i operation at_time reason = \<lparr>ca_credential_id = i, ca_operation = operation,
     ca_occurred_at = at_time, ca_reason = reason\<rparr>"

text \<open>A token seen before: its registration is replayed or refused.\<close>

definition replay_registration :: "env \<Rightarrow> string \<Rightarrow> string \<Rightarrow> credential_row \<Rightarrow> db
    \<Rightarrow> berror + registration_outcome" where
  "replay_registration E at_time request_json c d =
     (case find_principal d (cr_principal_id c) of
        None \<Rightarrow> Inl (from_sqlite QueryReturnedNoRows)
      | Some p \<Rightarrow>
          if cr_revoked_at c \<noteq> None \<or> \<not> unexpired E at_time (cr_expires_at c) \<or> pr_disabled_at p \<noteq> None
          then Inl Unauthorized
          else (case find (\<lambda>r. rr_token_hash r = cr_token_hash c) (registration_receipts d) of
                  None \<Rightarrow> Inl Unauthorized
                | Some r \<Rightarrow>
                    if rr_request_json r \<noteq> request_json then Inl Conflict
                    else
                      and_then (map_err (\<lambda>_. CorruptJournal)
                        (decode_json (json_codec (env_crypto E)) registration_receipt_of_json
                           registration_receipt_json (rr_response_json r))) (\<lambda>receipt.
                      Inr \<lparr>ro_receipt = receipt, ro_replayed = True\<rparr>)))"

definition new_registration :: "env \<Rightarrow> string \<Rightarrow> string \<Rightarrow> string \<Rightarrow> principal_create_request
    \<Rightarrow> (db, registration_outcome) prog" where
  "new_registration E at_time token_hash request_json request =
     bind (checkpoint E ''registration-digest-lookup'') (\<lambda>_.
     bind (principal_id E) (\<lambda>prin.
     bind (execute (insert_principal (new_principal prin (pc_display_name request) at_time))) (\<lambda>_.
     bind (checkpoint E ''registration-principal'') (\<lambda>_.
     bind (execute (insert_name (new_name (pc_handle request) prin at_time))) (\<lambda>_.
     bind (checkpoint E ''registration-handle'') (\<lambda>_.
     bind (secret E) (\<lambda>sec.
     let credential_id = ''cred-'' @ sec in
     bind (execute (insert_credential (new_credential credential_id prin token_hash at_time))) (\<lambda>_.
     bind (execute (insert_credential_audit (credential_event credential_id ''issued'' at_time None))) (\<lambda>_.
     bind (checkpoint E ''registration-credential'') (\<lambda>_.
     bind (reads (\<lambda>d. principal_descriptor d prin)) (\<lambda>p.
     let receipt = \<lparr>rg_principal = p, rg_credential_id = credential_id\<rparr>;
         response_json = encode_json (json_codec (env_crypto E)) registration_receipt_json receipt in
     bind (execute (insert_receipt \<lparr>rr_token_hash = token_hash, rr_credential_id = credential_id,
        rr_principal_id = prin, rr_request_json = request_json, rr_response_json = response_json,
        rr_created_at = at_time\<rparr>)) (\<lambda>_.
     bind (checkpoint E ''registration-receipt'') (\<lambda>_.
     ret \<lparr>ro_receipt = receipt, ro_replayed = False\<rparr>)))))))))))))"

definition register_tx :: "env \<Rightarrow> string \<Rightarrow> string \<Rightarrow> principal_create_request
    \<Rightarrow> (db, registration_outcome) prog" where
  "register_tx E token_hash request_json request =
     bind (now E) (\<lambda>now.
     bind (reads (\<lambda>d. Inr (find_token d token_hash))) (\<lambda>existing.
     case existing of
       Some c \<Rightarrow> reads (replay_registration E now request_json c)
     | None \<Rightarrow> new_registration E now token_hash request_json request))"

definition register :: "env \<Rightarrow> string \<Rightarrow> principal_create_request \<Rightarrow> (store, registration_outcome) prog" where
  "register E token request =
     bind (lift (map_err Invalid (validate_principal_create request))) (\<lambda>_.
     bind (guard (registration_token token) InvalidJournal) (\<lambda>_.
     transaction E (register_tx E (digest E token)
       (encode_json (json_codec (env_crypto E)) principal_create_json request) request)))"

section \<open>Profiles\<close>

text \<open>\<open>UPDATE principal_names SET kind='alias'\<close> of the current name; its triggers allow exactly
  this transition.\<close>

definition retire_name :: "string \<Rightarrow> string \<Rightarrow> db \<Rightarrow> sqlite_error + db \<times> nat" where
  "retire_name name prin d =
     (let hit = (\<lambda>n. nm_name n = name \<and> nm_principal_id n = prin \<and> nm_kind n = ''current'') in
      Inr (d\<lparr>principal_names := map (\<lambda>n. if hit n then n\<lparr>nm_kind := ''alias''\<rparr> else n) (principal_names d)\<rparr>,
           length (filter hit (principal_names d))))"

text \<open>The profile UPDATE with the table's checks. A revision that would overflow becomes a REAL,
  which the following read refuses.\<close>

definition update_profile_row :: "profile_update_request \<Rightarrow> string \<Rightarrow> db \<Rightarrow> sqlite_error + db \<times> nat" where
  "update_profile_row request prin d =
     (let hit = (\<lambda>p. pr_id p = prin \<and> pr_disabled_at p = None
                  \<and> pr_profile_revision p = pu_expected_profile_revision request) in
      and_then (ensure (\<not> list_ex hit (principals d)
          \<or> between (sql_length (pu_display_name request)) 1 128
            \<and> pred_option (\<lambda>t. sql_length t \<le> 512) (pu_description request)) ConstraintCheck) (\<lambda>_.
      and_then (ensure (\<not> list_ex hit (principals d) \<or> pu_expected_profile_revision request < i64_max)
        InvalidColumnType) (\<lambda>_.
      Inr (d\<lparr>principals := map (\<lambda>p. if hit p then
              p\<lparr>pr_display_name := pu_display_name request, pr_description := pu_description request,
                pr_profile_revision := pr_profile_revision p + 1\<rparr> else p) (principals d)\<rparr>,
           length (filter hit (principals d))))))"

definition live_actor :: "env \<Rightarrow> string \<Rightarrow> authenticated_credential \<Rightarrow> db \<Rightarrow> bool" where
  "live_actor E at_time actor d \<longleftrightarrow> list_ex (\<lambda>c. cr_id c = ac_credential_id actor
     \<and> cr_principal_id c = ac_principal_id actor \<and> cr_class c = ''principal-client''
     \<and> live_credential E at_time c) (credentials d)"

definition current_profile :: "db \<Rightarrow> string \<Rightarrow> berror + string \<times> int" where
  "current_profile d prin =
     (case (find_principal d prin, current_name d prin) of
        (Some p, Some handle) \<Rightarrow> Inr (handle, pr_profile_revision p)
      | _ \<Rightarrow> Inl (from_sqlite QueryReturnedNoRows))"

definition profile_detail :: "string \<Rightarrow> string \<Rightarrow> int \<Rightarrow> int \<Rightarrow> json" where
  "profile_detail old_handle new_handle previous next_revision =
     JObj [(''new_handle'', JStr new_handle), (''new_profile_revision'', JInt next_revision),
       (''old_handle'', JStr old_handle), (''previous_profile_revision'', JInt previous)]"

definition new_profile :: "env \<Rightarrow> string \<Rightarrow> authenticated_credential \<Rightarrow> string \<Rightarrow> string
    \<Rightarrow> profile_update_request \<Rightarrow> (db, principal) prog" where
  "new_profile E at_time actor idempotency_key payload_hash request =
     bind (reads (\<lambda>d. current_profile d (ac_principal_id actor))) (\<lambda>(current_handle, revision).
     bind (guard (revision = pu_expected_profile_revision request) Conflict) (\<lambda>_.
     bind (if current_handle \<noteq> pu_handle request then
             bind (update (retire_name current_handle (ac_principal_id actor))) (\<lambda>_.
             execute (insert_name (new_name (pu_handle request) (ac_principal_id actor) at_time)))
           else ret ()) (\<lambda>_.
     bind (update (update_profile_row request (ac_principal_id actor))) (\<lambda>changed.
     bind (guard (changed = 1) Conflict) (\<lambda>_.
     bind (reads (\<lambda>d. principal_descriptor d (ac_principal_id actor))) (\<lambda>p.
     bind (secret E) (\<lambda>sec.
     bind (execute (insert_audit_event \<lparr>ae_id = ''profile-'' @ sec, ae_event_type = ''principal-profile-updated'',
        ae_actor = Some (ac_principal_id actor), ae_subject_type = ''principal'',
        ae_subject_id = ac_principal_id actor,
        ae_detail_json = json_print (json_codec (env_crypto E))
          (profile_detail current_handle (p_handle p) revision (p_profile_revision p)),
        ae_created_at = at_time\<rparr>)) (\<lambda>_.
     bind (execute (insert_profile_key \<lparr>pk_principal_id = ac_principal_id actor, pk_key = idempotency_key,
        pk_payload_hash = payload_hash,
        pk_response_json = encode_json (json_codec (env_crypto E)) principal_json p,
        pk_created_at = at_time\<rparr>)) (\<lambda>_.
     ret p)))))))))"

definition find_profile_key :: "db \<Rightarrow> string \<Rightarrow> string \<Rightarrow> profile_key_row option" where
  "find_profile_key d prin key =
     find (\<lambda>k. pk_principal_id k = prin \<and> pk_key k = key) (profile_idempotency_keys d)"

definition update_own_profile_tx :: "env \<Rightarrow> authenticated_credential \<Rightarrow> string \<Rightarrow> string
    \<Rightarrow> profile_update_request \<Rightarrow> (db, principal) prog" where
  "update_own_profile_tx E actor idempotency_key payload_hash request =
     bind (now E) (\<lambda>now.
     bind (reads (\<lambda>d. active_principal d (ac_principal_id actor))) (\<lambda>_.
     bind (reads (\<lambda>d. ensure (live_actor E now actor d) Unauthorized)) (\<lambda>_.
     bind (reads (\<lambda>d. Inr (find_profile_key d (ac_principal_id actor) idempotency_key))) (\<lambda>replay.
     case replay of
       Some k \<Rightarrow>
         bind (guard (pk_payload_hash k = payload_hash) IdempotencyConflict) (\<lambda>_.
         lift (map_err (\<lambda>_. CorruptJournal)
           (decode_json (json_codec (env_crypto E)) principal_of_json principal_json (pk_response_json k))))
     | None \<Rightarrow> new_profile E now actor idempotency_key payload_hash request))))"

definition valid_profile_key :: "string \<Rightarrow> bool" where
  "valid_profile_key key \<longleftrightarrow> 1 \<le> chars_count key \<and> chars_count key \<le> 255
     \<and> \<not> list_ex is_control (utf8_chars key)"

definition update_own_profile :: "env \<Rightarrow> authenticated_credential \<Rightarrow> string \<Rightarrow> profile_update_request
    \<Rightarrow> (store, principal) prog" where
  "update_own_profile E actor idempotency_key request =
     bind (lift (map_err Invalid (validate_profile_update request))) (\<lambda>_.
     bind (guard (ac_class actor = PrincipalClient \<and> valid_profile_key idempotency_key) Unauthorized) (\<lambda>_.
     transaction E (update_own_profile_tx E actor idempotency_key
       (digest E (encode_json (json_codec (env_crypto E)) profile_update_json request)) request)))"

section \<open>Spaces and memberships\<close>

definition create_space :: "env \<Rightarrow> space_create_request \<Rightarrow> (store, space) prog" where
  "create_space E request =
     bind (lift (map_err Invalid (validate_space_create request))) (\<lambda>_.
     bind (now E) (\<lambda>now.
     bind (transaction E (execute (insert_space \<lparr>sp_id = sc_id request, sp_name = sc_name request,
        sp_access = space_access_as_str (sc_access request), sp_created_at = now, sp_archived_at = None\<rparr>))) (\<lambda>_.
     ret \<lparr>s_id = sc_id request, s_name = sc_name request, s_access = sc_access request,
       s_archived_at = None, s_created_at = now, s_limits = default_limits\<rparr>)))"

definition set_membership_tx :: "env \<Rightarrow> string \<Rightarrow> membership_request \<Rightarrow> (db, unit) prog" where
  "set_membership_tx E prin request =
     bind (reads (\<lambda>d. ensure (mr_space_id request \<in> sp_id ` set (spaces d)) NotFound)) (\<lambda>_.
     bind (now E) (\<lambda>now.
     execute (upsert_membership \<lparr>mb_space_id = mr_space_id request, mb_principal_id = prin,
       mb_can_read = mr_can_read request, mb_can_append = mr_can_append request,
       mb_can_admin = mr_can_admin request, mb_created_at = now\<rparr>)))"

text \<open>Two transactions: the principal is resolved in the first.\<close>

definition set_membership :: "env \<Rightarrow> membership_request \<Rightarrow> (store, membership) prog" where
  "set_membership E request =
     bind (lift (map_err Invalid (validate_membership_request request))) (\<lambda>_.
     bind (transaction E (reads (\<lambda>d. active_principal d (mr_principal_id request)))) (\<lambda>prin.
     bind (transaction E (set_membership_tx E prin request)) (\<lambda>_.
     ret \<lparr>m_space_id = mr_space_id request, m_principal_id = prin, m_can_read = mr_can_read request,
       m_can_append = mr_can_append request, m_can_admin = mr_can_admin request\<rparr>)))"

section \<open>Authentication\<close>

definition authenticate_query :: "env \<Rightarrow> string \<Rightarrow> credential_class \<Rightarrow> string \<Rightarrow> db
    \<Rightarrow> berror + authenticated_credential" where
  "authenticate_query E token_hash class at_time d =
     (case find_token d token_hash of
        Some c \<Rightarrow>
          if cr_class c = class_name class \<and> live_credential E at_time c \<and> active_row d (cr_principal_id c)
          then Inr \<lparr>ac_credential_id = cr_id c, ac_principal_id = cr_principal_id c, ac_class = class\<rparr>
          else Inl Unauthorized
      | None \<Rightarrow> Inl Unauthorized)"

definition authenticate :: "env \<Rightarrow> string \<Rightarrow> credential_class \<Rightarrow> (store, authenticated_credential) prog" where
  "authenticate E token class =
     bind (guard (length token = 64) Unauthorized) (\<lambda>_.
     bind (connect_read_only E) (\<lambda>_.
     bind (now E) (\<lambda>now.
     on_snapshot (reads (authenticate_query E (digest E token) class now)))))"

definition append_replay_query :: "env \<Rightarrow> string \<Rightarrow> string \<Rightarrow> db \<Rightarrow> berror + authenticated_credential" where
  "append_replay_query E token_hash at_time d =
     (case find_token d token_hash of
        Some c \<Rightarrow>
          if cr_class c = ''principal-client'' \<and> live_credential E at_time c
          then Inr \<lparr>ac_credential_id = cr_id c, ac_principal_id = cr_principal_id c,
                     ac_class = PrincipalClient\<rparr>
          else Inl Unauthorized
      | None \<Rightarrow> Inl Unauthorized)"

definition authenticate_append_replay :: "env \<Rightarrow> string \<Rightarrow> (store, authenticated_credential) prog" where
  "authenticate_append_replay E token =
     bind (guard (length token = 64) Unauthorized) (\<lambda>_.
     bind (connect_read_only E) (\<lambda>_.
     bind (now E) (\<lambda>now.
     on_snapshot (reads (append_replay_query E (digest E token) now)))))"

text \<open>The same checks inside a transaction (records.rs).\<close>

definition bearer_token :: "string \<Rightarrow> bool" where
  "bearer_token token \<longleftrightarrow> length token = 64 \<and> list_all is_hexdigit token"

definition journal_actor :: "env \<Rightarrow> string \<Rightarrow> (db, string) prog" where
  "journal_actor E token =
     bind (guard (bearer_token token) Unauthorized) (\<lambda>_.
     bind (now E) (\<lambda>now.
     bind (reads (authenticate_query E (digest E token) PrincipalClient now)) (\<lambda>a.
     ret (ac_principal_id a))))"

definition append_replay_actor :: "env \<Rightarrow> string \<Rightarrow> (db, string) prog" where
  "append_replay_actor E token =
     bind (guard (bearer_token token) Unauthorized) (\<lambda>_.
     bind (now E) (\<lambda>now.
     bind (reads (append_replay_query E (digest E token) now)) (\<lambda>a.
     ret (ac_principal_id a))))"

datatype read_identity = Bearer string | ConfiguredViewer string

definition read_actor :: "env \<Rightarrow> read_identity \<Rightarrow> (db, string) prog" where
  "read_actor E identity =
     (case identity of
        Bearer token \<Rightarrow> journal_actor E token
      | ConfiguredViewer prin \<Rightarrow>
          bind (lift (map_err (\<lambda>_. InvalidJournal) (validate_identifier ''viewer'' prin))) (\<lambda>_.
          reads (\<lambda>d. active_principal d prin)))"

definition viewer_verify :: "env \<Rightarrow> string \<Rightarrow> (store, unit) prog" where
  "viewer_verify E prin =
     transaction E (bind (read_actor E (ConfiguredViewer prin)) (\<lambda>_. ret ()))"

section \<open>Credentials\<close>

definition issue_principal :: "env \<Rightarrow> string \<Rightarrow> string \<Rightarrow> (db, one_time_secret) prog" where
  "issue_principal E prin at_time =
     bind (secret E) (\<lambda>sec.
     let credential_id = ''cred-'' @ sec in
     bind (secret E) (\<lambda>secret.
     bind (execute (insert_credential (new_credential credential_id prin (digest E secret) at_time))) (\<lambda>_.
     bind (execute (insert_credential_audit (credential_event credential_id ''issued'' at_time None))) (\<lambda>_.
     ret \<lparr>ots_credential_id = credential_id, ots_secret = secret\<rparr>))))"

text \<open>\<open>UPDATE credentials SET ... WHERE\<close>, with the foreign key of the replacement column.\<close>

definition update_credentials :: "(credential_row \<Rightarrow> bool) \<Rightarrow> (credential_row \<Rightarrow> credential_row) \<Rightarrow> db
    \<Rightarrow> sqlite_error + db \<times> nat" where
  "update_credentials hit f d =
     and_then (ensure (list_all (\<lambda>c. hit c \<longrightarrow>
         pred_option (\<lambda>r. r \<in> cr_id ` set (credentials d)) (cr_replacement (f c))) (credentials d))
       ConstraintForeignKey) (\<lambda>_.
     Inr (d\<lparr>credentials := map (\<lambda>c. if hit c then f c else c) (credentials d)\<rparr>,
          length (filter hit (credentials d))))"

definition rotate_tx :: "env \<Rightarrow> string \<Rightarrow> credential_rotate_request \<Rightarrow> (db, credential_rotation) prog" where
  "rotate_tx E at_time request =
     bind (reads (\<lambda>d. case find_credential d (cx_credential_id request) of
         Some c \<Rightarrow> if live_credential E at_time c then Inr c else Inl NotFound
       | None \<Rightarrow> Inl NotFound)) (\<lambda>c.
     bind (reads (\<lambda>d. active_principal d (cr_principal_id c))) (\<lambda>_.
     bind (lift (parse_class (cr_class c))) (\<lambda>class.
     bind (issue_principal E (cr_principal_id c) at_time) (\<lambda>replacement.
     bind (update (update_credentials (\<lambda>x. cr_id x = ots_credential_id replacement)
        (\<lambda>x. x\<lparr>cr_expires_at := cr_expires_at c\<rparr>))) (\<lambda>_.
     bind (checkpoint E ''rotation-issued'') (\<lambda>_.
     bind (update (update_credentials (\<lambda>x. cr_id x = cx_credential_id request)
        (\<lambda>x. x\<lparr>cr_revoked_at := Some at_time, cr_replacement := Some (ots_credential_id replacement),
               cr_reason := cx_reason request\<rparr>))) (\<lambda>_.
     bind (execute (insert_credential_audit
        (credential_event (cx_credential_id request) ''rotated'' at_time (cx_reason request)))) (\<lambda>_.
     bind (checkpoint E ''rotation-revoked'') (\<lambda>_.
     ret \<lparr>rot_metadata = \<lparr>cm_credential_id = cx_credential_id request, cm_principal_id = cr_principal_id c,
            cm_class = class, cm_rotated_at = at_time,
            cm_replacement_credential_id = Some (ots_credential_id replacement)\<rparr>,
          rot_replacement_secret = replacement\<rparr>)))))))))"

definition rotate_credential :: "env \<Rightarrow> credential_rotate_request \<Rightarrow> (store, credential_rotation) prog" where
  "rotate_credential E request =
     bind (lift (map_err Invalid (validate_credential_rotate request))) (\<lambda>_.
     bind (now E) (\<lambda>now.
     transaction E (rotate_tx E now request)))"

definition revoke_tx :: "env \<Rightarrow> string \<Rightarrow> string \<Rightarrow> string option \<Rightarrow> (db, credential_metadata) prog" where
  "revoke_tx E at_time credential_id reason =
     bind (reads (\<lambda>d. ok_or NotFound (find_credential d credential_id))) (\<lambda>c.
     bind (if cr_revoked_at c = None then
             bind (update (update_credentials (\<lambda>x. cr_id x = credential_id)
                (\<lambda>x. x\<lparr>cr_revoked_at := Some at_time, cr_reason := reason\<rparr>))) (\<lambda>_.
             execute (insert_credential_audit (credential_event credential_id ''revoked'' at_time reason)))
           else ret ()) (\<lambda>_.
     bind (checkpoint E ''credential-revoked'') (\<lambda>_.
     bind (lift (parse_class (cr_class c))) (\<lambda>class.
     ret \<lparr>cm_credential_id = credential_id, cm_principal_id = cr_principal_id c, cm_class = class,
          cm_rotated_at = (case cr_revoked_at c of Some t \<Rightarrow> t | None \<Rightarrow> at_time),
          cm_replacement_credential_id = None\<rparr>))))"

definition revoke :: "env \<Rightarrow> string \<Rightarrow> string option \<Rightarrow> (store, credential_metadata) prog" where
  "revoke E credential_id reason =
     bind (lift (map_err Invalid (validate_credential_rotate
       \<lparr>cx_credential_id = credential_id, cx_reason = reason\<rparr>))) (\<lambda>_.
     bind (now E) (\<lambda>now.
     transaction E (revoke_tx E now credential_id reason)))"

text \<open>\<open>INSERT ... SELECT\<close> of one audit row per live credential of the principal.\<close>

definition live_of :: "env \<Rightarrow> string \<Rightarrow> string \<Rightarrow> credential_row \<Rightarrow> bool" where
  "live_of E at_time prin c \<longleftrightarrow> cr_principal_id c = prin \<and> live_credential E at_time c"

definition recovery_detail :: "string option \<Rightarrow> json" where
  "recovery_detail reason = JObj [(''reason'', case reason of Some r \<Rightarrow> JStr r | None \<Rightarrow> JNull)]"

definition recover_principal_tx :: "env \<Rightarrow> principal_recovery_request \<Rightarrow> (db, principal_recovery) prog" where
  "recover_principal_tx E request =
     bind (now E) (\<lambda>now.
     bind (reads (\<lambda>d. map_err (\<lambda>e. if e = SqliteFailed QueryReturnedNoRows then NotFound else e)
        (principal_descriptor d (prr_principal_id request)))) (\<lambda>p.
     bind (reads (\<lambda>d. Inr (filter (live_of E now (prr_principal_id request)) (credentials d)))) (\<lambda>live.
     bind (each (\<lambda>c. execute (insert_credential_audit
        (credential_event (cr_id c) ''recovered'' now (prr_reason request)))) live) (\<lambda>_.
     bind (update (update_credentials (live_of E now (prr_principal_id request))
        (\<lambda>c. c\<lparr>cr_revoked_at := Some now,
               cr_reason := Some (case prr_reason request of Some r \<Rightarrow> r | None \<Rightarrow> ''principal recovery'')\<rparr>))) (\<lambda>_.
     bind (checkpoint E ''principal-recovery-revoked'') (\<lambda>_.
     bind (issue_principal E (prr_principal_id request) now) (\<lambda>replacement.
     bind (checkpoint E ''principal-recovery-issued'') (\<lambda>_.
     bind (secret E) (\<lambda>sec.
     bind (execute (insert_audit_event \<lparr>ae_id = ''recovery-'' @ sec,
        ae_event_type = ''principal-credential-recovered'', ae_actor = None,
        ae_subject_type = ''principal'', ae_subject_id = prr_principal_id request,
        ae_detail_json = json_print (json_codec (env_crypto E)) (recovery_detail (prr_reason request)),
        ae_created_at = now\<rparr>)) (\<lambda>_.
     ret \<lparr>rcv_principal = p, rcv_replacement_secret = replacement\<rparr>))))))))))"

definition recover_principal :: "env \<Rightarrow> principal_recovery_request \<Rightarrow> (store, principal_recovery) prog" where
  "recover_principal E request =
     bind (lift (map_err Invalid (validate_principal_recovery request))) (\<lambda>_.
     transaction E (recover_principal_tx E request))"

section \<open>The caller's own view\<close>

definition membership_of_row :: "membership_row \<Rightarrow> membership" where
  "membership_of_row m = \<lparr>m_space_id = mb_space_id m, m_principal_id = mb_principal_id m,
     m_can_read = mb_can_read m, m_can_append = mb_can_append m, m_can_admin = mb_can_admin m\<rparr>"

definition me :: "env \<Rightarrow> authenticated_credential \<Rightarrow> (store, me_view) prog" where
  "me E actor =
     bind (guard (ac_class actor = PrincipalClient) Unauthorized) (\<lambda>_.
     read E (
       bind (now E) (\<lambda>now.
       bind (reads (\<lambda>d. ensure (live_actor E now actor d) Unauthorized)) (\<lambda>_.
       bind (reads (\<lambda>d. active_principal d (ac_principal_id actor))) (\<lambda>_.
       bind (reads (\<lambda>d. principal_descriptor d (ac_principal_id actor))) (\<lambda>p.
       bind (reads (\<lambda>d. Inr (map membership_of_row (sort_key mb_space_id
          (filter (\<lambda>m. mb_principal_id m = ac_principal_id actor) (memberships d)))))) (\<lambda>ms.
       ret \<lparr>me_principal = p, me_memberships = ms, me_limits = default_limits\<rparr>)))))))"

section \<open>Every transaction keeps the schema and is counted\<close>

lemma retire_name_schema: "keeps preserves_schema (update (retire_name name prin))"
proof (rule schema_update)
  fix d d' n assume a: "retire_name name prin d = Inr (d', n)" and ok: "schema_ok d"
  define g where "g n = (if nm_name n = name \<and> nm_principal_id n = prin \<and> nm_kind n = ''current''
    then n\<lparr>nm_kind := ''alias''\<rparr> else n)" for n :: name_row
  have d': "d' = d\<lparr>principal_names := map g (principal_names d)\<rparr>"
    using a by (auto simp: retire_name_def Let_def g_def)
  have g: "nm_name (g n) = nm_name n" "nm_principal_id (g n) = nm_principal_id n"
    "nm_kind (g n) = ''current'' \<Longrightarrow> nm_kind n = ''current''" for n
    by (auto simp: g_def split: if_splits)
  have "distinct (map nm_principal_id (filter (\<lambda>n. nm_kind n = ''current'') (map g xs)))"
    if "distinct (map nm_principal_id (filter (\<lambda>n. nm_kind n = ''current'') xs))" for xs
    using that by (induction xs) (auto simp: g(1,2) dest!: g(3) split: if_splits)
  then show "schema_ok d'"
    using ok by (simp add: d' ok_frame comp_def image_image g(1,2))
qed

lemma update_profile_row_schema: "keeps preserves_schema (update (update_profile_row request prin))"
proof (rule schema_update)
  fix d d' n assume a: "update_profile_row request prin d = Inr (d', n)" and ok: "schema_ok d"
  then obtain f where d': "d' = d\<lparr>principals := map f (principals d)\<rparr>" and f: "\<And>p. pr_id (f p) = pr_id p"
    by (auto simp: update_profile_row_def Let_def result_simps)
  then show "schema_ok d'"
    using ok by (simp add: ok_frame comp_def image_image)
qed

lemma update_credentials_schema:
  assumes "\<And>c. cr_id (f c) = cr_id c \<and> cr_token_hash (f c) = cr_token_hash c
    \<and> cr_principal_id (f c) = cr_principal_id c \<and> cr_class (f c) = cr_class c"
  shows "keeps preserves_schema (update (update_credentials hit f))"
proof (rule schema_update)
  fix d d' n assume a: "update_credentials hit f d = Inr (d', n)" and ok: "schema_ok d"
  define g where "g c = (if hit c then f c else c)" for c
  have d': "d' = d\<lparr>credentials := map g (credentials d)\<rparr>"
    using a by (auto simp: update_credentials_def result_simps g_def)
  have "cr_id (g c) = cr_id c" "cr_token_hash (g c) = cr_token_hash c"
    "cr_principal_id (g c) = cr_principal_id c" "cr_class (g c) = cr_class c" for c
    using assms [of c] by (simp_all add: g_def)
  then show "schema_ok d'"
    using ok by (simp add: d' ok_frame comp_def image_image)
qed

lemma bootstrap_counted:
  "keeps counted (create_principal_tx i t cr)"
  "keeps counted (register_tx E h j cr)"
  "keeps counted (update_own_profile_tx E actor k ph pu)"
  "keeps counted (set_membership_tx E prin mr)"
  "keeps counted (issue_principal E prin t)"
  "keeps counted (revoke_tx E t i reason)"
  "keeps counted (recover_principal_tx E prr)"
  unfolding create_principal_tx_def register_tx_def new_registration_def update_own_profile_tx_def
    new_profile_def set_membership_tx_def issue_principal_def revoke_tx_def recover_principal_tx_def Let_def
  by (intro counted_rules)+

lemma rotate_counted: "keeps counted (rotate_tx E t cx)"
  unfolding rotate_tx_def by (intro counted_rules bootstrap_counted)

lemma bootstrap_schema:
  "keeps preserves_schema (create_principal_tx i t cr)"
  "keeps preserves_schema (register_tx E h j cr)"
  "keeps preserves_schema (update_own_profile_tx E actor k ph pu)"
  "keeps preserves_schema (set_membership_tx E prin mr)"
  "keeps preserves_schema (issue_principal E prin t)"
  "keeps preserves_schema (revoke_tx E t i reason)"
  unfolding create_principal_tx_def register_tx_def new_registration_def update_own_profile_tx_def
    new_profile_def set_membership_tx_def issue_principal_def revoke_tx_def Let_def
  by (intro schema_rules retire_name_schema update_profile_row_schema update_credentials_schema; simp)+

lemma recover_schema: "keeps preserves_schema (recover_principal_tx E prr)"
  unfolding recover_principal_tx_def
  by (intro schema_rules bootstrap_schema update_credentials_schema) simp

lemma rotate_schema: "keeps preserves_schema (rotate_tx E t cx)"
  unfolding rotate_tx_def
  by (intro schema_rules bootstrap_schema update_credentials_schema) simp_all

section \<open>Registration\<close>

lemma find_None_fresh: "(\<And>x. x \<in> set xs \<Longrightarrow> \<not> P x) \<Longrightarrow> find P (xs @ [y]) = (if P y then Some y else None)"
  by (induction xs) auto

text \<open>What a new registration writes.\<close>

lemma new_registrationD:
  assumes "new_registration E t h j req (d, z) = (Inr out, d1, z1)" and "schema_ok d"
  obtains prin cid where
    "principals d1 = principals d @ [new_principal prin (pc_display_name req) t]"
    "principal_names d1 = principal_names d @ [new_name (pc_handle req) prin t]"
    "credentials d1 = credentials d @ [new_credential cid prin h t]"
    "registration_receipts d1 = registration_receipts d @ [\<lparr>rr_token_hash = h, rr_credential_id = cid,
        rr_principal_id = prin, rr_request_json = j,
        rr_response_json = encode_json (json_codec (env_crypto E)) registration_receipt_json (ro_receipt out),
        rr_created_at = t\<rparr>]"
    "ro_receipt out = \<lparr>rg_principal = descriptor (new_principal prin (pc_display_name req) t) (pc_handle req),
        rg_credential_id = cid\<rparr>"
    "\<not> ro_replayed out" "uuid_v7_shape prin"
    "prin \<notin> pr_id ` set (principals d)" "pc_handle req \<notin> nm_name ` set (principal_names d)"
    "h \<notin> cr_token_hash ` set (credentials d)"
proof -
  obtain prin z2 da db sec z3 dc dd p de where
    steps: "principal_id E (d, z) = (Inr prin, d, z2)"
    "insert_principal (new_principal prin (pc_display_name req) t) d = Inr da"
    "insert_name (new_name (pc_handle req) prin t) da = Inr db"
    "insert_credential (new_credential (''cred-'' @ sec) prin h t) db = Inr dc"
    "insert_credential_audit (credential_event (''cred-'' @ sec) ''issued'' t None) dc = Inr dd"
    "principal_descriptor dd prin = Inr p"
    "insert_receipt \<lparr>rr_token_hash = h, rr_credential_id = ''cred-'' @ sec, rr_principal_id = prin,
       rr_request_json = j, rr_response_json = encode_json (json_codec (env_crypto E)) registration_receipt_json
          \<lparr>rg_principal = p, rg_credential_id = ''cred-'' @ sec\<rparr>, rr_created_at = t\<rparr> dd = Inr d1"
    "out = \<lparr>ro_receipt = \<lparr>rg_principal = p, rg_credential_id = ''cred-'' @ sec\<rparr>, ro_replayed = False\<rparr>"
    using assms(1) by (auto simp: new_registration_def Let_def prog_simps principal_id_def)
  note tables = insert_principalD [OF steps(2)] insert_nameD [OF steps(3)] insert_credentialD [OF steps(4)]
    insert_credential_auditD [OF steps(5)] insert_receiptD [OF steps(7)]
  have "uuid_v7_shape prin"
    using steps(1) by (auto simp: principal_id_def prog_simps principal_uuid_shape)
  moreover have "p = descriptor (new_principal prin (pc_display_name req) t) (pc_handle req)"
  proof -
    have fp: "find_principal dd prin = Some (new_principal prin (pc_display_name req) t)"
      using tables by (auto simp: find_principal_def changed_def new_principal_def intro!: find_None_fresh [THEN trans])
    have "nm_principal_id n \<noteq> prin" if "n \<in> set (principal_names d)" for n
      using that assms(2) tables(1) by (auto simp: schema_ok_def principals_ok_def new_principal_def)
    moreover have "principal_names dd = principal_names d @ [new_name (pc_handle req) prin t]"
      using tables by (simp add: changed_def)
    ultimately have "current_name dd prin = Some (pc_handle req)"
      by (auto simp: current_name_def find_None_fresh new_name_def)
    with fp steps(6) show ?thesis by (simp add: principal_descriptor_def)
  qed
  ultimately show ?thesis
    using tables by (intro that [of prin "''cred-'' @ sec"]) (auto simp: steps(8) changed_def new_principal_def new_name_def new_credential_def)
qed

lemma find_SomeD: "find P xs = Some x \<Longrightarrow> x \<in> set xs \<and> P x"
  by (auto simp: find_Some_iff)

lemma find_distinct:
  assumes "distinct (map f xs)" "x \<in> set xs"
  shows "find (\<lambda>y. f y = f x) xs = Some x"
  using assms by (induction xs) (auto simp: rev_image_eqI)

lemma replay_is_replayed: "replay_registration E t j c d = Inr out \<Longrightarrow> ro_replayed out"
  by (auto simp: replay_registration_def result_simps split: option.splits if_splits)

lemma register_tx_new:
  assumes "register_tx E h j req (d, z) = (Inr out, d1, z1)" "\<not> ro_replayed out"
  obtains t where "new_registration E t h j req (d, z\<lparr>clock_calls := clock_calls z + 1\<rparr>) = (Inr out, d1, z1)"
    "timestamp E (env_clock E (clock_calls z)) = Inr t" "find_token d h = None"
  using assms by (cases "find_token d h") (auto simp: register_tx_def prog_simps dest: replay_is_replayed)

text \<open>C18. Registration is idempotent. Once a token has registered, presenting it again
  in any later state that retains the receipt and where the credential and the principal are
  still valid, returns the original receipt for the original request and \<open>Conflict\<close> for any
  other, and changes nothing.\<close>

theorem registration_is_idempotent:
  assumes first: "register_tx E h (encode_json (json_codec (env_crypto E)) principal_create_json req) req (d, z)
      = (Inr out, d1, z1)" "\<not> ro_replayed out" "schema_ok d"
    and retained: "set (registration_receipts d1) \<subseteq> set (registration_receipts d2)" "schema_ok d2"
    and valid: "find_token d2 h = Some c" "live_credential E t c" "active_row d2 (cr_principal_id c)"
      "timestamp E (env_clock E (clock_calls z2)) = Inr t"
    and json: "json_roundtrips (json_codec (env_crypto E)) (registration_receipt_json (ro_receipt out))"
  shows "register_tx E h (encode_json (json_codec (env_crypto E)) principal_create_json req') req' (d2, z2)
    = (if encode_json (json_codec (env_crypto E)) principal_create_json req'
          = encode_json (json_codec (env_crypto E)) principal_create_json req
       then Inr (out\<lparr>ro_replayed := True\<rparr>) else Inl Conflict,
       d2, z2\<lparr>clock_calls := clock_calls z2 + 1\<rparr>)"
proof -
  let ?J = "json_codec (env_crypto E)"
  obtain t0 z0 where new: "new_registration E t0 h (encode_json ?J principal_create_json req) req (d, z0) = (Inr out, d1, z1)"
    using register_tx_new [OF first(1,2)] by metis
  obtain prin cid where out: "ro_receipt out = \<lparr>rg_principal = descriptor (new_principal prin (pc_display_name req) t0) (pc_handle req),
        rg_credential_id = cid\<rparr>" and receipt: "registration_receipts d1 = registration_receipts d @ [\<lparr>rr_token_hash = h, rr_credential_id = cid,
        rr_principal_id = prin, rr_request_json = encode_json ?J principal_create_json req,
        rr_response_json = encode_json ?J registration_receipt_json (ro_receipt out), rr_created_at = t0\<rparr>]"
    using new_registrationD [OF new first(3)] by metis
  define row where "row = \<lparr>rr_token_hash = h, rr_credential_id = cid,
        rr_principal_id = prin, rr_request_json = encode_json ?J principal_create_json req,
        rr_response_json = encode_json ?J registration_receipt_json (ro_receipt out), rr_created_at = t0\<rparr>"
  have found: "find (\<lambda>r. rr_token_hash r = h) (registration_receipts d2) = Some row"
    using find_distinct [of rr_token_hash "registration_receipts d2" row] retained receipt
    by (auto simp: schema_ok_def credentials_ok_def row_def)
  have "decode_json ?J registration_receipt_of_json registration_receipt_json
      (encode_json ?J registration_receipt_json (ro_receipt out)) = Inr (ro_receipt out)"
    using json by (intro receipt_document_roundtrip) (simp_all add: out descriptor_def new_principal_def i64_max_def)
  moreover have "cr_token_hash c = h"
    using valid(1) by (auto simp: find_token_def find_Some_iff)
  moreover have "ro_replayed (out\<lparr>ro_replayed := True\<rparr>)" by simp
  ultimately show ?thesis
    using valid found
    by (auto simp: register_tx_def bind_def now_def clock_now_def lift_def reads_def replay_registration_def
        live_credential_def active_row_def row_def split: option.splits)
qed

lemma find_fresh_append:
  "find P (xs @ [y]) = (case find P xs of Some x \<Rightarrow> Some x | None \<Rightarrow> if P y then Some y else None)"
  by (induction xs) auto

lemma find_key_fresh: "k \<notin> f ` set xs \<Longrightarrow> find (\<lambda>x. f x = k) xs = None"
  by (auto simp: find_None_iff)

text \<open>A new registration takes effect exactly as its receipt says: the token
  authenticates as the new credential and principal at any time, the handle resolves to the
  principal, and no other token or name resolves differently than before.\<close>

lemma registration_takes_effect:
  assumes "register_tx E h j req (d, z) = (Inr out, d1, z1)" "\<not> ro_replayed out" "schema_ok d"
  shows "authenticate_query E h PrincipalClient t d1
      = Inr \<lparr>ac_credential_id = rg_credential_id (ro_receipt out),
             ac_principal_id = p_id (rg_principal (ro_receipt out)), ac_class = PrincipalClient\<rparr>
    \<and> active_principal d1 (pc_handle req) = Inr (p_id (rg_principal (ro_receipt out)))
    \<and> (\<forall>h'. h' \<noteq> h \<longrightarrow> find_token d1 h' = find_token d h')
    \<and> (\<forall>n. n \<noteq> pc_handle req \<longrightarrow> find_name d1 n = find_name d n)"
proof -
  obtain t0 z0 where "new_registration E t0 h j req (d, z0) = (Inr out, d1, z1)"
    using register_tx_new [OF assms(1,2)] by metis
  then obtain prin cid where d1: "principals d1 = principals d @ [new_principal prin (pc_display_name req) t0]"
    "principal_names d1 = principal_names d @ [new_name (pc_handle req) prin t0]"
    "credentials d1 = credentials d @ [new_credential cid prin h t0]"
    "ro_receipt out = \<lparr>rg_principal = descriptor (new_principal prin (pc_display_name req) t0) (pc_handle req),
        rg_credential_id = cid\<rparr>"
    "prin \<notin> pr_id ` set (principals d)" "pc_handle req \<notin> nm_name ` set (principal_names d)"
    "h \<notin> cr_token_hash ` set (credentials d)"
    using assms(3) by (elim new_registrationD) simp_all
  have "find_principal d1 prin = Some (new_principal prin (pc_display_name req) t0)"
    using d1(5) by (simp add: find_principal_def d1(1) find_fresh_append find_key_fresh)
      (simp add: new_principal_def)
  then have "active_row d1 prin"
    by (simp add: active_row_def new_principal_def)
  moreover have "find_token d1 h = Some (new_credential cid prin h t0)"
    using d1(7) by (simp add: find_token_def d1(3) find_fresh_append find_key_fresh)
      (simp add: new_credential_def)
  moreover have "find_name d1 (pc_handle req) = Some (new_name (pc_handle req) prin t0)"
    using d1(6) by (simp add: find_name_def d1(2) find_fresh_append find_key_fresh)
      (simp add: new_name_def)
  moreover have "find_token d1 h' = find_token d h'" if "h' \<noteq> h" for h'
    using that by (simp add: find_token_def d1(3) find_fresh_append new_credential_def split: option.splits)
  moreover have "find_name d1 n = find_name d n" if "n \<noteq> pc_handle req" for n
    using that by (simp add: find_name_def d1(2) find_fresh_append new_name_def split: option.splits)
  ultimately show ?thesis
    by (simp add: authenticate_query_def active_principal_def live_credential_def unexpired_def
        new_credential_def new_name_def d1(4) descriptor_def new_principal_def)
qed

section \<open>Credentials\<close>

lemma new_credential_simps [simp]:
  "cr_id (new_credential i p h t) = i" "cr_principal_id (new_credential i p h t) = p"
  "cr_class (new_credential i p h t) = ''principal-client''" "cr_token_hash (new_credential i p h t) = h"
  "cr_expires_at (new_credential i p h t) = None" "cr_revoked_at (new_credential i p h t) = None"
  "cr_replacement (new_credential i p h t) = None"
  by (simp_all add: new_credential_def)

lemma find_map_key:
  assumes "\<And>x. k (f x) = k x"
  shows "find (\<lambda>x. k x = i) (map f xs) = map_option f (find (\<lambda>x. k x = i) xs)"
  using assms by (induction xs) auto

lemma issue_principalD:
  assumes "issue_principal E prin t (d, z) = (Inr ots, d1, z1)"
  shows "credentials d1 = credentials d @ [new_credential (ots_credential_id ots) prin (digest E (ots_secret ots)) t]
    \<and> ots_credential_id ots \<notin> cr_id ` set (credentials d)
    \<and> digest E (ots_secret ots) \<notin> cr_token_hash ` set (credentials d)
    \<and> principals d1 = principals d \<and> principal_names d1 = principal_names d"
proof -
  from assms obtain sec1 sec2 da where
    a: "insert_credential (new_credential (''cred-'' @ sec1) prin (digest E sec2) t) d = Inr da"
    "insert_credential_audit (credential_event (''cred-'' @ sec1) ''issued'' t None) da = Inr d1"
    "ots = \<lparr>ots_credential_id = ''cred-'' @ sec1, ots_secret = sec2\<rparr>"
    by (auto simp: issue_principal_def Let_def prog_simps)
  then show ?thesis
    using insert_credentialD [OF a(1)] insert_credential_auditD [OF a(2)]
    by (simp add: changed_def new_credential_def)
qed

lemma update_credentialsD:
  assumes "update (update_credentials hit f) (d, z) = (Inr n, d1, z1)"
  shows "credentials d1 = map (\<lambda>c. if hit c then f c else c) (credentials d)
    \<and> principals d1 = principals d \<and> principal_names d1 = principal_names d \<and> z1 = z"
proof -
  have id: "map (\<lambda>c. if hit c then f c else c) xs = xs" if "filter hit xs = []" for xs
    using that by (induction xs) (auto split: if_splits)
  show ?thesis
    using assms by (auto simp: prog_simps update_credentials_def result_simps id split: if_splits)
qed

lemma active_principal_id:
  assumes "active_principal d i = Inr x" "schema_ok d" "i \<in> pr_id ` set (principals d)"
  shows "active_row d i"
proof -
  have "find_name d i = None"
    using assms(2,3) by (auto simp: find_name_def find_None_iff schema_ok_def principals_ok_def)
  then show ?thesis
    using assms(1) by (simp add: active_principal_def split: if_splits)
qed

lemma find_credential_hash:
  assumes "credentials_ok d" "find_credential d i = Some c"
  shows "find_token d (cr_token_hash c) = Some c"
  using assms find_distinct [of cr_token_hash "credentials d" c]
  by (auto simp: find_credential_def find_token_def credentials_ok_def find_Some_iff)

text \<open>The credentials table after a rotation: the old row is revoked and points to the new one,
  which inherits its principal and its expiry.\<close>

lemma rotate_txD:
  assumes "rotate_tx E t req (d, z) = (Inr rot, d1, z1)"
  obtains c where "find_credential d (cx_credential_id req) = Some c" "live_credential E t c"
    "\<exists>x. active_principal d (cr_principal_id c) = Inr x"
    "credentials d1 = map (\<lambda>x. if cr_id x = cx_credential_id req
        then x\<lparr>cr_revoked_at := Some t, cr_replacement := Some (ots_credential_id (rot_replacement_secret rot)),
               cr_reason := cx_reason req\<rparr> else x)
      (credentials d @ [(new_credential (ots_credential_id (rot_replacement_secret rot)) (cr_principal_id c)
         (digest E (ots_secret (rot_replacement_secret rot))) t)\<lparr>cr_expires_at := cr_expires_at c\<rparr>])"
    "ots_credential_id (rot_replacement_secret rot) \<notin> cr_id ` set (credentials d)"
    "digest E (ots_secret (rot_replacement_secret rot)) \<notin> cr_token_hash ` set (credentials d)"
    "principals d1 = principals d" "principal_names d1 = principal_names d"
proof -
  from assms obtain c ots da za db zb n1 dc n2 zc where
    steps: "find_credential d (cx_credential_id req) = Some c" "live_credential E t c"
    "\<exists>x. active_principal d (cr_principal_id c) = Inr x"
    "issue_principal E (cr_principal_id c) t (d, z) = (Inr ots, da, za)"
    "update (update_credentials (\<lambda>x. cr_id x = ots_credential_id ots) (\<lambda>x. x\<lparr>cr_expires_at := cr_expires_at c\<rparr>)) (da, za)
      = (Inr n1, db, zb)"
    "update (update_credentials (\<lambda>x. cr_id x = cx_credential_id req)
        (\<lambda>x. x\<lparr>cr_revoked_at := Some t, cr_replacement := Some (ots_credential_id ots), cr_reason := cx_reason req\<rparr>)) (db, zb)
      = (Inr n2, dc, zc)"
    "insert_credential_audit (credential_event (cx_credential_id req) ''rotated'' t (cx_reason req)) dc = Inr d1"
    "rot_replacement_secret rot = ots"
    by (auto simp: rotate_tx_def bind_Inr reads_Inr lift_Inr ret_Inr checkpoint_Inr execute_Inr
        split: option.splits if_splits)
  note iss = issue_principalD [OF steps(4)]
  have "map (\<lambda>x. if cr_id x = ots_credential_id ots then x\<lparr>cr_expires_at := cr_expires_at c\<rparr> else x) (credentials d)
      = credentials d"
    using iss by (intro map_idI) (metis image_eqI)
  then have "credentials db = credentials d @ [(new_credential (ots_credential_id ots) (cr_principal_id c)
         (digest E (ots_secret ots)) t)\<lparr>cr_expires_at := cr_expires_at c\<rparr>]"
    using update_credentialsD [OF steps(5)] iss by (simp add: new_credential_def)
  then show ?thesis
    using steps(1-3) iss update_credentialsD [OF steps(5)] update_credentialsD [OF steps(6)]
      insert_credential_auditD [OF steps(7)]
    by (intro that [of c]) (simp_all add: steps(8) changed_def)
qed

text \<open>C17. Rotating a credential moves its authority to the replacement and loses none: the
  rotated credential was live and its token no longer authenticates, the new one-time secret
  authenticates as the same principal as long as the old credential would have, and every other
  token authenticates as before.\<close>

theorem rotation_moves_authority:
  assumes "rotate_tx E t req (d, z) = (Inr rot, d1, z1)" "schema_ok d"
  shows "\<exists>c. find_credential d (cx_credential_id req) = Some c \<and> live_credential E t c
    \<and> (\<forall>t'. authenticate_query E (cr_token_hash c) PrincipalClient t' d1 = Inl Unauthorized
         \<and> (authenticate_query E (digest E (ots_secret (rot_replacement_secret rot))) PrincipalClient t' d1
            = (if unexpired E t' (cr_expires_at c)
               then Inr \<lparr>ac_credential_id = ots_credential_id (rot_replacement_secret rot),
                         ac_principal_id = cr_principal_id c, ac_class = PrincipalClient\<rparr>
               else Inl Unauthorized)))
    \<and> (\<forall>h. h \<noteq> cr_token_hash c \<and> h \<noteq> digest E (ots_secret (rot_replacement_secret rot))
         \<longrightarrow> find_token d1 h = find_token d h)"
proof -
  let ?new = "ots_credential_id (rot_replacement_secret rot)"
  let ?h = "digest E (ots_secret (rot_replacement_secret rot))"
  obtain c where c: "find_credential d (cx_credential_id req) = Some c" "live_credential E t c"
    "\<exists>x. active_principal d (cr_principal_id c) = Inr x"
    and creds: "credentials d1 = map (\<lambda>x. if cr_id x = cx_credential_id req
        then x\<lparr>cr_revoked_at := Some t, cr_replacement := Some ?new, cr_reason := cx_reason req\<rparr> else x)
      (credentials d @ [(new_credential ?new (cr_principal_id c) ?h t)\<lparr>cr_expires_at := cr_expires_at c\<rparr>])"
    and fresh: "?new \<notin> cr_id ` set (credentials d)" "?h \<notin> cr_token_hash ` set (credentials d)"
    and same: "principals d1 = principals d"
    by (rule rotate_txD [OF assms(1)])
  have ok: "credentials_ok d" using assms(2) by (simp add: schema_ok_def)
  have id: "cr_id c = cx_credential_id req" and mem: "c \<in> set (credentials d)"
    using c(1) by (auto simp: find_credential_def find_Some_iff)
  have "cr_principal_id c \<in> pr_id ` set (principals d)"
    using ok mem by (auto simp: credentials_ok_def)
  then have "active_row d (cr_principal_id c)"
    using c(3) assms(2) active_principal_id by blast
  then have active: "active_row d1 (cr_principal_id c)"
    using same by (simp add: active_row_def find_principal_def)
  have tok: "find_token d1 h = map_option (\<lambda>x. if cr_id x = cx_credential_id req
        then x\<lparr>cr_revoked_at := Some t, cr_replacement := Some ?new, cr_reason := cx_reason req\<rparr> else x)
      (case find_token d h of Some x \<Rightarrow> Some x | None \<Rightarrow> if ?h = h
        then Some ((new_credential ?new (cr_principal_id c) ?h t)\<lparr>cr_expires_at := cr_expires_at c\<rparr>) else None)" for h
    unfolding find_token_def creds
    by (subst find_map_key) (simp_all add: find_fresh_append)
  have old: "find_token d (cr_token_hash c) = Some c"
    using find_credential_hash [OF ok c(1)] .
  have new: "find_token d ?h = None"
    using fresh(2) by (simp add: find_token_def find_key_fresh)
  have "?new \<noteq> cx_credential_id req"
    using fresh(1) mem id by (metis image_eqI)
  moreover have "find_token d1 h = find_token d h" if "h \<noteq> cr_token_hash c" "h \<noteq> ?h" for h
  proof (cases "find_token d h")
    case (Some x)
    then have "x \<in> set (credentials d)" "cr_token_hash x = h"
      by (auto simp: find_token_def find_Some_iff)
    then have "cr_id x \<noteq> cx_credential_id req"
      using that(1) id mem ok unfolding credentials_ok_def by (metis distinct_map inj_onD)
    then show ?thesis using Some by (simp add: tok)
  qed (use that in \<open>simp add: tok\<close>)
  ultimately show ?thesis
    using c(1,2) old new active
    by (auto simp: authenticate_query_def tok live_credential_def id new_credential_def)
qed

text \<open>Revocation is idempotent and final: after it the credential is revoked at the
  instant the answer reports, its token never authenticates again, and revoking a credential that
  was already revoked changes nothing and reports the first revocation.\<close>

lemma revocation_is_idempotent:
  assumes "revoke_tx E t i reason (d, z) = (Inr m, d1, z1)" "schema_ok d"
  shows "\<exists>c c1. find_credential d i = Some c \<and> find_credential d1 i = Some c1
    \<and> cr_revoked_at c1 = Some (cm_rotated_at m)
    \<and> (\<forall>t'. authenticate_query E (cr_token_hash c) PrincipalClient t' d1 = Inl Unauthorized)
    \<and> (cr_revoked_at c \<noteq> None \<longrightarrow> d1 = d \<and> Some (cm_rotated_at m) = cr_revoked_at c)"
proof -
  have ok: "credentials_ok d" using assms(2) by (simp add: schema_ok_def)
  obtain c where c: "find_credential d i = Some c"
    using assms(1) by (auto simp: revoke_tx_def bind_Inr reads_Inr result_simps)
  show ?thesis
  proof (cases "cr_revoked_at c")
    case (Some r)
    then have "d1 = d" "cm_rotated_at m = r"
      using assms(1) c by (auto simp: revoke_tx_def prog_simps result_simps)
    then show ?thesis
      using c Some find_credential_hash [OF ok c] by (auto simp: authenticate_query_def live_credential_def)
  next
    case None
    let ?f = "\<lambda>x. x\<lparr>cr_revoked_at := Some t, cr_reason := reason\<rparr>"
    have m: "cm_rotated_at m = t" and creds: "credentials d1 = map (\<lambda>x. if cr_id x = i then ?f x else x) (credentials d)"
      using assms(1) c None
      by (auto simp: revoke_tx_def bind_Inr reads_Inr ret_Inr execute_Inr checkpoint_Inr lift_Inr result_simps changed_def
          dest!: update_credentialsD insert_credential_auditD)
    have id: "cr_id c = i"
      using c by (auto simp: find_credential_def find_Some_iff)
    have "find_credential d1 i = Some (?f c)"
      using c id unfolding find_credential_def creds by (subst find_map_key) simp_all
    moreover have "find_token d1 (cr_token_hash c) = Some (?f c)"
      using find_credential_hash [OF ok c] id unfolding find_token_def creds by (subst find_map_key) simp_all
    ultimately show ?thesis
      using c m None by (auto simp: authenticate_query_def live_credential_def)
  qed
qed

lemma each_frame:
  assumes "each (\<lambda>c. execute (insert_credential_audit (f c))) xs (d, z) = (Inr u, d1, z1)"
  shows "credentials d1 = credentials d \<and> principals d1 = principals d \<and> principal_names d1 = principal_names d \<and> z1 = z"
  using assms
proof (induction xs arbitrary: d)
  case (Cons c xs)
  then obtain d2 where "insert_credential_audit (f c) d = Inr d2"
      "each (\<lambda>c. execute (insert_credential_audit (f c))) xs (d2, z) = (Inr u, d1, z1)"
    by (auto simp: prog_simps)
  then show ?case
    using Cons.IH [of d2] by (auto dest!: insert_credential_auditD simp: changed_def)
qed (simp add: prog_simps)

text \<open>C19. Recovering a principal cuts off every credential it had: after recovery the only
  credential of the principal that is unrevoked and unexpired is the one-time replacement, and the
  credentials of every other principal are as they were.\<close>

theorem recovery_leaves_only_the_replacement:
  assumes "recover_principal_tx E req (d, z) = (Inr rcv, d1, z1)"
    and "timestamp E (env_clock E (clock_calls z)) = Inr t"
  shows "filter (live_of E t (prr_principal_id req)) (credentials d1)
      = [new_credential (ots_credential_id (rcv_replacement_secret rcv)) (prr_principal_id req)
           (digest E (ots_secret (rcv_replacement_secret rcv))) t]
    \<and> filter (\<lambda>c. cr_principal_id c \<noteq> prr_principal_id req) (credentials d1)
      = filter (\<lambda>c. cr_principal_id c \<noteq> prr_principal_id req) (credentials d)"
proof -
  let ?p = "prr_principal_id req"
  define f where "f c = c\<lparr>cr_revoked_at := Some t, cr_reason := Some (case prr_reason req of Some r \<Rightarrow> r
      | None \<Rightarrow> ''principal recovery'')\<rparr>" for c :: credential_row
  from assms obtain da za db zb n dc zc ots where steps:
    "each (\<lambda>c. execute (insert_credential_audit (credential_event (cr_id c) ''recovered'' t (prr_reason req))))
       (filter (live_of E t ?p) (credentials d)) (d, z\<lparr>clock_calls := clock_calls z + 1\<rparr>) = (Inr (), da, za)"
    "update (update_credentials (live_of E t ?p) f) (da, za) = (Inr n, db, zb)"
    "issue_principal E ?p t (db, zb) = (Inr ots, dc, zc)"
    "credentials d1 = credentials dc" "rcv_replacement_secret rcv = ots"
    by (auto simp: recover_principal_tx_def bind_Inr reads_Inr ret_Inr execute_Inr checkpoint_Inr now_Inr secret_Inr
        f_def [abs_def] changed_def dest!: insert_audit_eventD)
  have creds: "credentials d1 = map (\<lambda>c. if live_of E t ?p c then f c else c) (credentials d)
      @ [new_credential (ots_credential_id ots) ?p (digest E (ots_secret ots)) t]"
    using each_frame [OF steps(1)] update_credentialsD [OF steps(2)] issue_principalD [OF steps(3)] steps(4) by simp
  have "filter (live_of E t ?p) (map (\<lambda>c. if live_of E t ?p c then f c else c) xs) = []" for xs
    by (auto simp: filter_empty_conv live_of_def live_credential_def f_def)
  moreover have "filter (\<lambda>c. cr_principal_id c \<noteq> ?p) (map (\<lambda>c. if live_of E t ?p c then f c else c) xs)
      = filter (\<lambda>c. cr_principal_id c \<noteq> ?p) xs" for xs
    by (induction xs) (auto simp: live_of_def f_def)
  ultimately show ?thesis
    using creds steps(5) by (simp add: live_of_def live_credential_def unexpired_def)
qed

section \<open>Profiles\<close>

definition updated_profile :: "profile_update_request \<Rightarrow> principal_row \<Rightarrow> principal_row" where
  "updated_profile req p = p\<lparr>pr_display_name := pu_display_name req, pr_description := pu_description req,
     pr_profile_revision := pr_profile_revision p + 1\<rparr>"

lemma retire_nameD:
  assumes "update (retire_name name prin) (d, z) = (Inr n, d1, z1)"
  shows "\<exists>g. (\<forall>x. nm_name (g x) = nm_name x \<and> nm_principal_id (g x) = nm_principal_id x)
    \<and> principal_names d1 = map g (principal_names d) \<and> principals d1 = principals d"
proof -
  let ?hit = "\<lambda>n. nm_name n = name \<and> nm_principal_id n = prin \<and> nm_kind n = ''current''"
  let ?g = "\<lambda>n. if ?hit n then n\<lparr>nm_kind := ''alias''\<rparr> else n"
  have same: "xs = map ?g xs" if "filter ?hit xs = []" for xs
    using that by (auto simp: filter_empty_conv intro!: map_idI [symmetric])
  have "principal_names d1 = map ?g (principal_names d) \<and> principals d1 = principals d"
    using assms same [of "principal_names d"]
    by (auto simp: prog_simps retire_name_def Let_def simp del: map_eq_conv split: if_splits)
  then show ?thesis
    by (intro exI [of _ ?g]) simp
qed

text \<open>Renaming the current handle: the old names stay bound, the new one is current.\<close>

lemma rename_names:
  assumes "(if old \<noteq> new then
       bind (update (retire_name old prin)) (\<lambda>_. execute (insert_name (new_name new prin t)))
     else ret ()) (d, z) = (Inr u, d1, z1)" "current_name d prin = Some old" "schema_ok d"
  shows "principals d1 = principals d \<and> current_name d1 prin = Some new
    \<and> (\<forall>n x. find_name d n = Some x \<longrightarrow> (\<exists>y. find_name d1 n = Some y \<and> nm_principal_id y = nm_principal_id x))
    \<and> (\<exists>y. find_name d1 new = Some y \<and> nm_principal_id y = prin)"
proof (cases "old = new")
  case True
  obtain x where "x \<in> set (principal_names d)" "nm_principal_id x = prin" "nm_name x = old"
    using assms(2) by (auto simp: current_name_def dest: find_SomeD)
  then have "find_name d old = Some x"
    using find_distinct [of nm_name "principal_names d" x] assms(3)
    by (simp add: find_name_def schema_ok_def principals_ok_def)
  with True assms(1,2) \<open>nm_principal_id x = prin\<close> show ?thesis by (simp add: prog_simps)
next
  case False
  then obtain da za n where steps: "update (retire_name old prin) (d, z) = (Inr n, da, za)"
    "insert_name (new_name new prin t) da = Inr d1"
    using assms(1) by (auto simp: bind_Inr execute_Inr)
  obtain g where g: "\<And>x. nm_name (g x) = nm_name x" "\<And>x. nm_principal_id (g x) = nm_principal_id x"
      "principal_names da = map g (principal_names d)" "principals da = principals d"
    using retire_nameD [OF steps(1)] by blast
  note ins = insert_nameD [OF steps(2)]
  have names: "principal_names d1 = map g (principal_names d) @ [new_name new prin t]"
    using ins g(3) by (simp add: changed_def)
  have "find (\<lambda>n. nm_principal_id n = prin \<and> nm_kind n = ''current'') (principal_names da) = None"
    using ins by (auto simp: find_None_iff new_name_def image_iff)
  then have "current_name d1 prin = Some new"
    using names g(3) by (simp add: current_name_def find_fresh_append) (simp add: new_name_def)
  moreover have old: "find (\<lambda>x. nm_name x = n) (map g (principal_names d)) = map_option g (find_name d n)" for n
    unfolding find_name_def by (rule find_map_key) (rule g(1))
  moreover have "find_name d new = None"
    using ins old [of new] by (auto simp: g(3) find_None_iff new_name_def g(1) find_name_def image_image)
  moreover have found: "find_name d1 n = (case map_option g (find_name d n) of Some y \<Rightarrow> Some y
      | None \<Rightarrow> if new = n then Some (new_name new prin t) else None)" for n
    unfolding find_name_def [of d1] names find_fresh_append old by (simp add: new_name_def)
  ultimately have "current_name d1 prin = Some new" "find_name d1 new = Some (new_name new prin t)"
    "\<And>n x. find_name d n = Some x \<Longrightarrow> find_name d1 n = Some (g x)"
    by simp_all
  then show ?thesis
    using ins g(2,4) by (auto simp: changed_def new_name_def)
qed

lemma find_principal_id: "find_principal d i = Some p \<Longrightarrow> pr_id p = i"
  by (auto simp: find_principal_def dest: find_SomeD)

lemma update_profile_rowD:
  assumes "update (update_profile_row req prin) (d, z) = (Inr 1, d1, z1)"
    "find_principal d prin = Some row" "schema_ok d"
  shows "pr_profile_revision row = pu_expected_profile_revision req
    \<and> find_principal d1 prin = Some (updated_profile req row)
    \<and> (\<forall>i. i \<noteq> prin \<longrightarrow> find_principal d1 i = find_principal d i)
    \<and> principal_names d1 = principal_names d"
proof -
  let ?hit = "\<lambda>p. pr_id p = prin \<and> pr_disabled_at p = None \<and> pr_profile_revision p = pu_expected_profile_revision req"
  let ?g = "\<lambda>p. if ?hit p then updated_profile req p else p"
  have d1: "principals d1 = map ?g (principals d)" "length (filter ?hit (principals d)) = 1"
      "principal_names d1 = principal_names d"
    using assms(1) by (auto simp: prog_simps update_profile_row_def Let_def result_simps updated_profile_def)
  from d1(2) have "filter ?hit (principals d) \<noteq> []"
    by (cases "filter ?hit (principals d)") simp_all
  then obtain x where x: "x \<in> set (principals d)" "?hit x"
    by (auto simp: filter_empty_conv)
  then have row: "row = x"
    using find_distinct [of pr_id "principals d" x] assms(2,3)
    by (simp add: find_principal_def schema_ok_def principals_ok_def)
  have "find_principal d1 i = map_option ?g (find_principal d i)" for i
    unfolding find_principal_def d1(1) by (rule find_map_key) (simp add: updated_profile_def)
  then show ?thesis
    using x row assms(2) d1(3)
    by (auto simp: map_option_case split: option.splits dest: find_principal_id)
qed

text \<open>C20. Profile updates are optimistic and handles are permanent. An update that is not a
  replay succeeds only against the revision it names and moves the profile to the next one, so a
  second update against the same revision is a \<open>Conflict\<close>; the answer is the stored profile; every
  name that resolved before (the retired handle included) still resolves to the same principal,
  the new handle resolves to the caller, and no other principal changes.\<close>

theorem profile_update_is_versioned:
  assumes "update_own_profile_tx E actor key ph req (d, z) = (Inr p, d1, z1)"
    and "find_profile_key d (ac_principal_id actor) key = None" and "schema_ok d"
  shows "\<exists>row. find_principal d (ac_principal_id actor) = Some row
    \<and> pr_profile_revision row = pu_expected_profile_revision req
    \<and> find_principal d1 (ac_principal_id actor) = Some (updated_profile req row)
    \<and> p = descriptor (updated_profile req row) (pu_handle req)
    \<and> (\<forall>n x. find_name d n = Some x \<longrightarrow> (\<exists>y. find_name d1 n = Some y \<and> nm_principal_id y = nm_principal_id x))
    \<and> (\<exists>y. find_name d1 (pu_handle req) = Some y \<and> nm_principal_id y = ac_principal_id actor)
    \<and> (\<forall>i. i \<noteq> ac_principal_id actor \<longrightarrow> find_principal d1 i = find_principal d i)
    \<and> (\<forall>t' key' ph' req' z'. pu_expected_profile_revision req' = pu_expected_profile_revision req \<longrightarrow>
         new_profile E t' actor key' ph' req' (d1, z') = (Inl Conflict, d1, z'))"
proof -
  let ?a = "ac_principal_id actor"
  from assms(1,2) obtain t z0 where "new_profile E t actor key ph req (d, z0) = (Inr p, d1, z1)"
    by (auto simp: update_own_profile_tx_def bind_Inr reads_Inr now_Inr)
  then obtain old revision da za db zb dc sec dd where
    steps: "current_profile d ?a = Inr (old, revision)" "revision = pu_expected_profile_revision req"
    "(if old \<noteq> pu_handle req then
       bind (update (retire_name old ?a)) (\<lambda>_. execute (insert_name (new_name (pu_handle req) ?a t)))
     else ret ()) (d, z0) = (Inr (), da, za)"
    "update (update_profile_row req ?a) (da, za) = (Inr 1, db, zb)"
    "principal_descriptor db ?a = Inr p"
    "insert_audit_event \<lparr>ae_id = ''profile-'' @ sec, ae_event_type = ''principal-profile-updated'',
        ae_actor = Some ?a, ae_subject_type = ''principal'', ae_subject_id = ?a,
        ae_detail_json = json_print (json_codec (env_crypto E)) (profile_detail old (p_handle p) revision (p_profile_revision p)),
        ae_created_at = t\<rparr> db = Inr dc"
    "insert_profile_key \<lparr>pk_principal_id = ?a, pk_key = key, pk_payload_hash = ph,
        pk_response_json = encode_json (json_codec (env_crypto E)) principal_json p, pk_created_at = t\<rparr> dc = Inr d1"
    by (auto simp: new_profile_def bind_Inr reads_Inr guard_Inr execute_Inr secret_Inr ret_Inr split: prod.splits)
  obtain row where row: "find_principal d ?a = Some row" "pr_profile_revision row = revision" "current_name d ?a = Some old"
    using steps(1) by (auto simp: current_profile_def split: option.splits)
  note names = rename_names [OF steps(3) row(3) assms(3)]
  have "keeps preserves_schema (if old \<noteq> pu_handle req then
       bind (update (retire_name old ?a)) (\<lambda>_. execute (insert_name (new_name (pu_handle req) ?a t)))
     else ret ())"
    by (intro schema_rules retire_name_schema)
  then have "schema_ok da"
    using steps(3) assms(3) keepsD unfolding preserves_schema_def by metis
  then have prof: "find_principal db ?a = Some (updated_profile req row)" "principal_names db = principal_names da"
      "\<And>i. i \<noteq> ?a \<Longrightarrow> find_principal db i = find_principal d i"
    using update_profile_rowD [OF steps(4), of row] names row(1) by (auto simp: find_principal_def)
  have same: "principals d1 = principals db" "principal_names d1 = principal_names db"
    using insert_audit_eventD [OF steps(6)] insert_profile_keyD [OF steps(7)] by (simp_all add: changed_def)
  have cur: "current_name db ?a = Some (pu_handle req)"
    using names prof(2) by (simp add: current_name_def)
  have p: "p = descriptor (updated_profile req row) (pu_handle req)"
    using steps(5) cur prof(1) by (simp add: principal_descriptor_def)
  have at1: "find_principal d1 i = find_principal db i" "current_name d1 i = current_name db i"
      "find_name d1 n = find_name da n" for i n
    using same prof(2) by (simp_all add: find_principal_def current_name_def find_name_def)
  have "current_profile d1 ?a = Inr (pu_handle req, pu_expected_profile_revision req + 1)"
    using at1 cur prof(1) row(2) steps(2) by (simp add: current_profile_def updated_profile_def)
  then have "new_profile E t' actor key' ph' req' (d1, z') = (Inl Conflict, d1, z')"
    if "pu_expected_profile_revision req' = pu_expected_profile_revision req" for t' key' ph' req' z'
    using that by (simp add: new_profile_def bind_def reads_def guard_def throw_def)
  then show ?thesis
    using row steps(2) prof p names at1 by simp
qed

text \<open>A profile update repeated with the same idempotency key and payload, while the
  caller's credential and principal are still valid, answers with the profile as first stored and
  changes nothing; the same key with another payload is an \<open>IdempotencyConflict\<close>.\<close>

lemma profile_update_replay:
  assumes key: "find_profile_key d (ac_principal_id actor) key = Some k"
    "pk_payload_hash k = ph" "pk_response_json k = encode_json (json_codec (env_crypto E)) principal_json p"
    and doc: "json_roundtrips (json_codec (env_crypto E)) (principal_json p)"
      "1 \<le> p_profile_revision p" "p_profile_revision p \<le> i64_max"
    and valid: "timestamp E (env_clock E (clock_calls z)) = Inr t" "active_principal d (ac_principal_id actor) = Inr i"
      "live_actor E t actor d"
  shows "update_own_profile_tx E actor key ph' req (d, z)
    = (if ph' = ph then Inr p else Inl IdempotencyConflict, d, z\<lparr>clock_calls := clock_calls z + 1\<rparr>)"
  using assms principal_document_roundtrip [OF doc]
  by (simp add: update_own_profile_tx_def bind_def reads_def guard_def throw_def now_def clock_now_def lift_def ret_def)

end
