(* ===== verification/Records.thy ===== *)
theory Records
  imports Bootstrap
begin

text \<open>
  The journal: appending records with their inbox obligations, and reading records, spaces,
  principals and threads page by page (journal-service/src/records.rs). Functions that only query
  are functions of the transaction's database; the methods are programs.
\<close>

section \<open>Reading one record\<close>

definition permitted :: "db \<Rightarrow> string \<Rightarrow> string \<Rightarrow> bool \<Rightarrow> berror + unit" where
  "permitted d prin space appending =
     ensure (active_row d prin \<and> list_ex (\<lambda>s. sp_id s = space \<and> sp_access s = ''public''
        \<and> (appending \<longrightarrow> sp_archived_at s = None)) (spaces d)) NotFound"

definition relations_of :: "db \<Rightarrow> string \<Rightarrow> relation_row list" where
  "relations_of d i = sort_key re_position (filter (\<lambda>r. re_source r = i) (record_relations d))"

definition relation_of_row :: "relation_row \<Rightarrow> berror + relation" where
  "relation_of_row r =
     and_then (ok_or CorruptJournal (find_relation_type (re_type r))) (\<lambda>t.
     Inr \<lparr>rl_type = t, rl_record_id = re_target r\<rparr>)"

definition record_of :: "db \<Rightarrow> string \<Rightarrow> berror + journal_record" where
  "record_of d i =
     and_then (ok_or NotFound (find_record d i)) (\<lambda>r.
     and_then (try_map relation_of_row (relations_of d i)) (\<lambda>rels.
     Inr \<lparr>r_id = rc_id r, r_space_id = rc_space_id r, r_seq = rc_space_seq r, r_author = rc_author r,
       r_kind = rc_kind r, r_content = rc_content r, r_run_id = rc_run_id r, r_created_at = rc_created_at r,
       r_attention = sort (map at_recipient (filter (\<lambda>a. at_record_id a = i) (attention d))),
       r_routing_key = rc_routing_key r, r_relations = rels, r_title = rc_title r\<rparr>))"

definition space_of :: "db \<Rightarrow> string \<Rightarrow> berror + space" where
  "space_of d i =
     (case find (\<lambda>s. sp_id s = i) (spaces d) of
        None \<Rightarrow> Inl (from_sqlite QueryReturnedNoRows)
      | Some s \<Rightarrow>
          if sp_access s = ''public''
          then Inr \<lparr>s_id = sp_id s, s_name = sp_name s, s_access = Public, s_archived_at = sp_archived_at s,
                     s_created_at = sp_created_at s, s_limits = default_limits\<rparr>
          else Inl (from_sqlite InvalidSqlQuery))"

definition space_of_record :: "db \<Rightarrow> string \<Rightarrow> berror + string" where
  "space_of_record d i = ok_or NotFound (map_option rc_space_id (find_record d i))"

section \<open>The cursor key and paged reads\<close>

definition cursor_codec :: "env \<Rightarrow> (db, cursor_codec) prog" where
  "cursor_codec E =
     bind (reads (\<lambda>d. Inr (cursor_secret d))) (\<lambda>stored.
     bind (case stored of
             Some key \<Rightarrow> ret key
           | None \<Rightarrow>
               bind (fill E) (\<lambda>bytes.
               bind (execute (insert_cursor_secret bytes)) (\<lambda>_. ret bytes))) (\<lambda>key.
     lift (map_err (\<lambda>_. CorruptJournal) (cursor_codec_new (env_crypto E) key))))"

definition read_paged :: "env \<Rightarrow> read_identity \<Rightarrow> (cursor_codec \<Rightarrow> (db, 'a) prog) \<Rightarrow> (store, 'a) prog" where
  "read_paged E identity operation =
     bind (connect_read_only E) (\<lambda>_.
     bind (on_snapshot (reads (\<lambda>d. Inr (cursor_secret d)))) (\<lambda>stored.
     bind (case stored of
             Some key \<Rightarrow> lift (map_err (\<lambda>_. CorruptJournal) (cursor_codec_new (env_crypto E) key))
           | None \<Rightarrow> transaction E (bind (read_actor E identity) (\<lambda>_. cursor_codec E))) (\<lambda>codec.
     bind (begin_read E) (\<lambda>_.
     on_snapshot (operation codec)))))"

text \<open>Filters are fingerprinted as the JSON text of a tuple.\<close>

definition filters_scope :: "env \<Rightarrow> cursor_route \<Rightarrow> json list \<Rightarrow> cursor_order \<Rightarrow> cursor_scope" where
  "filters_scope E route filters order =
     cursor_scope_new (env_crypto E) route (json_print (json_codec (env_crypto E)) (JArr filters)) order"

definition json_opt :: "string option \<Rightarrow> json" where
  "json_opt v = (case v of Some s \<Rightarrow> JStr s | None \<Rightarrow> JNull)"

definition presented_cursor :: "page_query \<Rightarrow> string option" where
  "presented_cursor q = (case q_cursor q of Some c \<Rightarrow> if c = [] then None else Some c | None \<Rightarrow> None)"

definition decode_cursor :: "env \<Rightarrow> cursor_codec \<Rightarrow> cursor_scope \<Rightarrow> string \<Rightarrow> berror + cursor_position" where
  "decode_cursor E codec scope cursor =
     map_err (\<lambda>_. InvalidJournal) (cursor_decode (env_crypto E) codec scope cursor)"

definition identifier_position :: "env \<Rightarrow> cursor_codec \<Rightarrow> cursor_scope \<Rightarrow> page_query \<Rightarrow> berror + string" where
  "identifier_position E codec scope query =
     (case presented_cursor query of
        None \<Rightarrow> Inr []
      | Some cursor \<Rightarrow>
          and_then (decode_cursor E codec scope cursor) (\<lambda>position.
          case position of Identifier i \<Rightarrow> Inr i | _ \<Rightarrow> Inl InvalidJournal))"

text \<open>\<open>i64::try_from\<close> of a u64.\<close>

definition i64_try_from :: "u64 \<Rightarrow> berror + int" where
  "i64_try_from n = (if uint n \<le> i64_max then Inr (uint n) else Inl InvalidJournal)"

definition sequence_position :: "env \<Rightarrow> cursor_codec \<Rightarrow> cursor_scope \<Rightarrow> page_query \<Rightarrow> berror + int \<times> string" where
  "sequence_position E codec scope query =
     (case presented_cursor query of
        None \<Rightarrow> Inr (0, [])
      | Some cursor \<Rightarrow>
          and_then (decode_cursor E codec scope cursor) (\<lambda>position.
          case position of
            Sequence n i \<Rightarrow> and_then (i64_try_from n) (\<lambda>k. Inr (k, i))
          | _ \<Rightarrow> Inl InvalidJournal))"

definition finish_page :: "env \<Rightarrow> 'a list \<Rightarrow> page_query \<Rightarrow> cursor_codec \<Rightarrow> cursor_scope
    \<Rightarrow> ('a \<Rightarrow> cursor_position) \<Rightarrow> berror + 'a page" where
  "finish_page E xs query codec scope position =
     (if length xs > effective_limit query then
        (let xs' = take (effective_limit query) xs in
         if xs' = [] then Inl Panicked
         else and_then (map_err (\<lambda>_. CorruptJournal)
                (cursor_encode (env_crypto E) codec scope (position (last xs')))) (\<lambda>token.
              Inr \<lparr>items = xs', next_cursor = Some token\<rparr>))
      else Inr \<lparr>items = xs, next_cursor = None\<rparr>)"

section \<open>Appending\<close>

definition REBUILT_APPEND_RESPONSE :: string where
  "REBUILT_APPEND_RESPONSE = ''{}''"

definition find_idempotency :: "db \<Rightarrow> string \<Rightarrow> string \<Rightarrow> string \<Rightarrow> idempotency_row option" where
  "find_idempotency d prin path key =
     find (\<lambda>k. ik_principal_id k = prin \<and> ik_path k = path \<and> ik_key k = key) (idempotency_keys d)"

definition replay_append :: "env \<Rightarrow> string \<Rightarrow> idempotency_row \<Rightarrow> db \<Rightarrow> berror + append_result" where
  "replay_append E hash previous d =
     (if ik_payload_hash previous \<noteq> hash then Inl IdempotencyConflict
      else
        and_then (if ik_response_json previous = REBUILT_APPEND_RESPONSE then
              and_then (record_of d (ik_record_id previous)) (\<lambda>record.
              Inr \<lparr>ar_record = record, ar_mailbox_created = length (r_attention record), ar_replayed = False\<rparr>)
            else map_err (\<lambda>_. CorruptJournal)
              (decode_json (json_codec (env_crypto E)) append_result_of_json append_result_json
                 (ik_response_json previous))) (\<lambda>result.
        Inr (result\<lparr>ar_replayed := True\<rparr>)))"

definition resolve_attention :: "string \<Rightarrow> string list \<Rightarrow> (db, string list) prog" where
  "resolve_attention space recipients =
     collect (\<lambda>recipient.
       bind (reads (\<lambda>d. active_principal d recipient)) (\<lambda>prin.
       bind (reads (\<lambda>d. permitted d prin space False)) (\<lambda>_.
       ret prin))) recipients"

text \<open>\<open>coalesce(max(space_seq),0)+1\<close>; an overflowing sum is a REAL, which is no \<open>i64\<close>.\<close>

definition next_sequence :: "string \<Rightarrow> db \<Rightarrow> berror + int" where
  "next_sequence space d =
     (if space_head d space < i64_max then Inr (space_head d space + 1)
      else Inl (from_sqlite InvalidColumnType))"

definition check_relation :: "string \<Rightarrow> string \<Rightarrow> int \<Rightarrow> relation \<Rightarrow> (db, unit) prog" where
  "check_relation actor space seq relation =
     bind (reads (\<lambda>d. permitted d actor space False)) (\<lambda>_.
     reads (\<lambda>d. ensure (list_ex (\<lambda>r. rc_id r = rl_record_id relation \<and> rc_space_id r = space
        \<and> rc_space_seq r < seq) (records d)) NotFound))"

definition relation_row_of :: "string \<Rightarrow> string \<Rightarrow> nat \<times> relation \<Rightarrow> relation_row" where
  "relation_row_of i at_time pr = \<lparr>re_source = i, re_type = relation_as_str (rl_type (snd pr)),
     re_target = rl_record_id (snd pr), re_created_at = at_time, re_position = int (fst pr)\<rparr>"

definition read_inbox_sequence :: "string \<Rightarrow> db \<Rightarrow> berror + int" where
  "read_inbox_sequence recipient d =
     ok_or (from_sqlite QueryReturnedNoRows) (map_of (inbox_sequences d) recipient)"

text \<open>One recipient: attention, the next inbox sequence number, and the inbox item.\<close>

definition deliver :: "env \<Rightarrow> string \<Rightarrow> string \<Rightarrow> string \<Rightarrow> (db, unit) prog" where
  "deliver E i at_time recipient =
     bind (execute (insert_attention \<lparr>at_record_id = i, at_recipient = recipient, at_created_at = at_time\<rparr>)) (\<lambda>_.
     bind (checkpoint E ''append-attention'') (\<lambda>_.
     bind (execute (bump_inbox_sequence recipient)) (\<lambda>_.
     bind (reads (read_inbox_sequence recipient)) (\<lambda>recipient_seq.
     bind (checkpoint E ''append-inbox-sequence'') (\<lambda>_.
     bind (secret E) (\<lambda>sec.
     bind (execute (insert_mailbox_item \<lparr>mi_id = ''item-'' @ sec, mi_record_id = i, mi_recipient = recipient,
        mi_created_at = at_time, mi_seq = recipient_seq, mi_acknowledged_at = None\<rparr>)) (\<lambda>_.
     checkpoint E ''append-mailbox'')))))))"

definition record_row_of :: "string \<Rightarrow> string \<Rightarrow> int \<Rightarrow> string \<Rightarrow> record_input \<Rightarrow> string \<Rightarrow> record_row" where
  "record_row_of i space seq actor input at_time = \<lparr>rc_id = i, rc_space_id = space, rc_space_seq = seq,
     rc_author = actor, rc_kind = in_kind input, rc_content = in_content input, rc_run_id = in_run_id input,
     rc_routing_key = in_routing_key input, rc_title = in_title input, rc_created_at = at_time\<rparr>"

text \<open>A genuinely new append, after the idempotency lookup.\<close>

definition write_record :: "env \<Rightarrow> string \<Rightarrow> string \<Rightarrow> int \<Rightarrow> record_input \<Rightarrow> string \<Rightarrow> string
    \<Rightarrow> (db, journal_record) prog" where
  "write_record E actor space seq input at_time i =
     bind (execute (insert_record (record_row_of i space seq actor input at_time))) (\<lambda>_.
     bind (checkpoint E ''append-record'') (\<lambda>_.
     bind (each (\<lambda>pr. execute (insert_relation (relation_row_of i at_time pr)))
        (enumerate 0 (in_relations input))) (\<lambda>_.
     bind (checkpoint E ''append-relations'') (\<lambda>_.
     bind (each (deliver E i at_time) (sort (in_attention input))) (\<lambda>_.
     ret \<lparr>r_id = i, r_space_id = space, r_seq = seq, r_author = actor, r_kind = in_kind input,
       r_content = in_content input, r_run_id = in_run_id input, r_created_at = at_time,
       r_attention = sort (in_attention input), r_routing_key = in_routing_key input,
       r_relations = in_relations input, r_title = in_title input\<rparr>)))))"

definition append_checked :: "env \<Rightarrow> string \<Rightarrow> string \<Rightarrow> string \<Rightarrow> string \<Rightarrow> string \<Rightarrow> record_input
    \<Rightarrow> (db, append_result) prog" where
  "append_checked E actor space path key hash input =
     bind (lift (map_err (\<lambda>_. InvalidJournal) (canonical_append (json_codec (env_crypto E)) input))) (\<lambda>_.
     bind (reads (next_sequence space)) (\<lambda>seq.
     bind (checkpoint E ''append-sequence'') (\<lambda>_.
     bind (each (check_relation actor space seq) (in_relations input)) (\<lambda>_.
     bind (clock_now E) (\<lambda>instant.
     bind (lift (timestamp E instant)) (\<lambda>now.
     bind (record_id E instant) (\<lambda>i.
     bind (write_record E actor space seq input now i) (\<lambda>record.
     bind (execute (insert_idempotency_key \<lparr>ik_principal_id = actor, ik_path = path, ik_key = key,
        ik_payload_hash = hash, ik_record_id = i, ik_response_json = REBUILT_APPEND_RESPONSE,
        ik_created_at = now\<rparr>)) (\<lambda>_.
     bind (checkpoint E ''append-idempotency'') (\<lambda>_.
     ret \<lparr>ar_record = record, ar_mailbox_created = length (in_attention input), ar_replayed = False\<rparr>))))))))))"

definition new_append :: "env \<Rightarrow> string \<Rightarrow> string \<Rightarrow> string \<Rightarrow> string \<Rightarrow> string \<Rightarrow> record_input
    \<Rightarrow> (db, append_result) prog" where
  "new_append E token space path key hash submitted =
     bind (journal_actor E token) (\<lambda>actor.
     bind (reads (\<lambda>d. permitted d actor space True)) (\<lambda>_.
     bind (cursor_codec E) (\<lambda>_.
     bind (resolve_attention space (in_attention submitted)) (\<lambda>recipients.
     append_checked E actor space path key hash
       (submitted\<lparr>in_attention := recipients, in_title := normalize_title (in_title submitted)\<rparr>)))))"

definition append_path :: "string \<Rightarrow> string" where
  "append_path space = ''/v1/spaces/'' @ space @ ''/records''"

definition payload_hash :: "env \<Rightarrow> record_input \<Rightarrow> string" where
  "payload_hash E input = hex (sha256 (env_crypto E)
     (as_bytes (encode_json (json_codec (env_crypto E)) record_input_json input)))"

definition append_record_tx :: "env \<Rightarrow> string \<Rightarrow> string \<Rightarrow> string \<Rightarrow> record_input \<Rightarrow> (db, append_result) prog" where
  "append_record_tx E token space key input =
     bind (append_replay_actor E token) (\<lambda>replay_actor.
     bind (reads (\<lambda>d. Inr (find_idempotency d replay_actor (append_path space) key))) (\<lambda>previous.
     case previous of
       Some p \<Rightarrow> reads (replay_append E (payload_hash E input) p)
     | None \<Rightarrow> new_append E token space (append_path space) key (payload_hash E input) input))"

definition append_record :: "env \<Rightarrow> string \<Rightarrow> string \<Rightarrow> string \<Rightarrow> record_input \<Rightarrow> (store, append_result) prog" where
  "append_record E token space key input =
     bind (guard (1 \<le> chars_count key \<and> chars_count key \<le> 255) InvalidJournal) (\<lambda>_.
     transaction E (append_record_tx E token space key input))"

section \<open>Reading records and spaces\<close>

definition get_record_as :: "env \<Rightarrow> read_identity \<Rightarrow> string \<Rightarrow> (store, journal_record) prog" where
  "get_record_as E identity i =
     read E (
       bind (read_actor E identity) (\<lambda>actor.
       bind (reads (\<lambda>d. space_of_record d i)) (\<lambda>space.
       bind (reads (\<lambda>d. permitted d actor space False)) (\<lambda>_.
       reads (\<lambda>d. record_of d i)))))"

definition get_record :: "env \<Rightarrow> string \<Rightarrow> string \<Rightarrow> (store, journal_record) prog" where
  "get_record E token i = get_record_as E (Bearer token) i"

definition get_space :: "env \<Rightarrow> string \<Rightarrow> string \<Rightarrow> (store, space) prog" where
  "get_space E token i =
     read E (
       bind (journal_actor E token) (\<lambda>actor.
       bind (reads (\<lambda>d. permitted d actor i False)) (\<lambda>_.
       reads (\<lambda>d. space_of d i))))"

text \<open>\<open>WHERE s.access='public' AND s.id>? ORDER BY s.id LIMIT ?\<close>\<close>

definition space_ids_after :: "db \<Rightarrow> string \<Rightarrow> string list" where
  "space_ids_after d after =
     sort (map sp_id (filter (\<lambda>s. sp_access s = ''public'' \<and> after < sp_id s) (spaces d)))"

definition list_spaces_as :: "env \<Rightarrow> read_identity \<Rightarrow> page_query \<Rightarrow> (store, space page) prog" where
  "list_spaces_as E identity query =
     bind (lift (map_err Invalid (validate_page_query query))) (\<lambda>_.
     read_paged E identity (\<lambda>codec.
       bind (read_actor E identity) (\<lambda>actor.
       let scope = filters_scope E RSpaces [JStr actor] OIdentifier in
       bind (lift (identifier_position E codec scope query)) (\<lambda>after.
       bind (reads (\<lambda>d. try_map (space_of d) (take (effective_limit query + 1) (space_ids_after d after)))) (\<lambda>xs.
       lift (finish_page E xs query codec scope (\<lambda>s. Identifier (s_id s))))))))"

definition list_spaces :: "env \<Rightarrow> string \<Rightarrow> page_query \<Rightarrow> (store, space page) prog" where
  "list_spaces E token query = list_spaces_as E (Bearer token) query"

definition principals_after :: "db \<Rightarrow> string \<Rightarrow> principal list" where
  "principals_after d after =
     sort_key p_id (List.map_filter (\<lambda>p.
       if pr_disabled_at p = None \<and> after < pr_id p
       then map_option (descriptor p) (current_name d (pr_id p)) else None) (principals d))"

definition list_principals :: "env \<Rightarrow> string \<Rightarrow> list_principals_query \<Rightarrow> (store, principal page) prog" where
  "list_principals E token query =
     bind (lift (map_err Invalid (validate_list_principals_query query))) (\<lambda>_.
     read_paged E (Bearer token) (\<lambda>codec.
       bind (journal_actor E token) (\<lambda>actor.
       bind (reads (\<lambda>d. permitted d actor (lp_space query) False)) (\<lambda>_.
       let scope = filters_scope E RPrincipals [JStr actor, JStr (lp_space query)] OIdentifier in
       bind (lift (identifier_position E codec scope (lp_page query))) (\<lambda>after.
       bind (reads (\<lambda>d. Inr (take (effective_limit (lp_page query) + 1) (principals_after d after)))) (\<lambda>xs.
       lift (finish_page E xs (lp_page query) codec scope (\<lambda>p. Identifier (p_id p)))))))))"

definition resolve_space_principal :: "db \<Rightarrow> string \<Rightarrow> string option \<Rightarrow> string option" where
  "resolve_space_principal d space selector =
     (case selector of None \<Rightarrow> None
      | Some sel \<Rightarrow>
          let public = list_ex (\<lambda>s. sp_id s = space \<and> sp_access s = ''public'') (spaces d) in
          Some (case active_principal d sel of Inr i \<Rightarrow> if public then i else [] | Inl _ \<Rightarrow> []))"

definition record_sequence_lower_bound :: "nat option \<Rightarrow> int \<Rightarrow> int" where
  "record_sequence_lower_bound after_seq sequence =
     max (min (case after_seq of Some n \<Rightarrow> int n | None \<Rightarrow> 0) i64_max) sequence"

definition record_matches :: "db \<Rightarrow> string option \<Rightarrow> string option \<Rightarrow> string option \<Rightarrow> relation_type option
    \<Rightarrow> record_row \<Rightarrow> bool" where
  "record_matches d author att kind relation r \<longleftrightarrow>
     pred_option (\<lambda>a. rc_author r = a) author
     \<and> pred_option (\<lambda>k. rc_kind r = k) kind
     \<and> pred_option (\<lambda>a. list_ex (\<lambda>x. at_record_id x = rc_id r \<and> at_recipient x = a) (attention d)) att
     \<and> pred_option (\<lambda>t. list_ex (\<lambda>x. re_source x = rc_id r \<and> re_type x = relation_as_str t)
         (record_relations d)) relation"

definition record_key :: "record_row \<Rightarrow> int \<times> string" where
  "record_key r = (rc_space_seq r, rc_id r)"

text \<open>\<open>LIST_RECORD_IDS\<close>\<close>

definition record_ids_after :: "db \<Rightarrow> string \<Rightarrow> (record_row \<Rightarrow> bool) \<Rightarrow> int \<Rightarrow> int \<times> string \<Rightarrow> string list" where
  "record_ids_after d space matches lower after =
     map rc_id (sort_key record_key (filter (\<lambda>r. rc_space_id r = space \<and> rc_space_seq r > lower
        \<and> after < record_key r \<and> matches r) (records d)))"

definition record_position :: "journal_record \<Rightarrow> cursor_position" where
  "record_position r = Sequence (as_u64 (r_seq r)) (r_id r)"

definition list_records_as :: "env \<Rightarrow> read_identity \<Rightarrow> string \<Rightarrow> list_records_query \<Rightarrow> (store, journal_record page) prog" where
  "list_records_as E identity space query =
     bind (lift (map_err Invalid (validate_list_records_query query))) (\<lambda>_.
     read_paged E identity (\<lambda>codec.
       bind (read_actor E identity) (\<lambda>actor.
       bind (reads (\<lambda>d. permitted d actor space False)) (\<lambda>_.
       bind (reads (\<lambda>d. Inr (resolve_space_principal d space (lr_author query)))) (\<lambda>author.
       bind (reads (\<lambda>d. Inr (resolve_space_principal d space (lr_attention query)))) (\<lambda>att.
       let scope = filters_scope E RRecords [JStr actor, JStr space,
             JInt (case lr_after_seq query of Some n \<Rightarrow> int n | None \<Rightarrow> 0), json_opt author, json_opt att,
             json_opt (lr_kind query), json_opt (map_option relation_as_str (lr_relation query))] OSequence in
       bind (lift (sequence_position E codec scope (lr_page query))) (\<lambda>after.
       let lower = record_sequence_lower_bound (lr_after_seq query) (fst after) in
       bind (reads (\<lambda>d. try_map (record_of d) (take (effective_limit (lr_page query) + 1)
          (record_ids_after d space (record_matches d author att (lr_kind query) (lr_relation query)) lower after)))) (\<lambda>xs.
       lift (finish_page E xs (lr_page query) codec scope record_position)))))))))"

definition list_records :: "env \<Rightarrow> string \<Rightarrow> string \<Rightarrow> list_records_query \<Rightarrow> (store, journal_record page) prog" where
  "list_records E token space query = list_records_as E (Bearer token) space query"

section \<open>Threads\<close>

definition THREAD_MAX_DEPTH :: nat where
  "THREAD_MAX_DEPTH = 64"

definition THREAD_MAX_NODES :: nat where
  "THREAD_MAX_NODES = 4096"

definition THREAD_MAX_EDGES :: nat where
  "THREAD_MAX_EDGES = 8192"

definition in_space :: "db \<Rightarrow> string \<Rightarrow> string \<Rightarrow> bool" where
  "in_space d space i \<longleftrightarrow> (case find_record d i of Some r \<Rightarrow> rc_space_id r = space | None \<Rightarrow> False)"

definition reply_parent :: "db \<Rightarrow> string \<Rightarrow> string \<Rightarrow> string option" where
  "reply_parent d space i = map_option re_target (find (\<lambda>x. re_source x = i \<and> re_type x = ''reply-to''
     \<and> in_space d space (re_target x)) (record_relations d))"

text \<open>The ascent to the root; \<open>ancestors\<close> is the set of nodes visited, newest first.\<close>

function thread_ascend :: "db \<Rightarrow> string \<Rightarrow> nat \<Rightarrow> nat \<Rightarrow> nat \<Rightarrow> string \<Rightarrow> string list \<Rightarrow> nat \<Rightarrow> berror + string \<times> nat" where
  "thread_ascend d space max_depth max_nodes max_edges root ancestors edges =
     (if root \<in> set ancestors then Inl CorruptJournal
      else if length (root # ancestors) > max_nodes then Inl InvalidJournal
      else case reply_parent d space root of
             None \<Rightarrow> Inr (root, edges)
           | Some parent \<Rightarrow>
               if length (root # ancestors) > max_depth \<or> edges + 1 > max_edges then Inl InvalidJournal
               else thread_ascend d space max_depth max_nodes max_edges parent (root # ancestors) (edges + 1))"
  by pat_completeness auto
termination
  by (relation "measure (\<lambda>(d, space, max_depth, max_nodes, max_edges, root, ancestors, edges). max_nodes - length ancestors)") auto

declare thread_ascend.simps [simp del]

definition thread_root_id :: "db \<Rightarrow> string \<Rightarrow> string \<Rightarrow> nat \<Rightarrow> nat \<Rightarrow> nat \<Rightarrow> berror + string \<times> nat \<times> bool" where
  "thread_root_id d anchor space max_depth max_nodes max_edges =
     and_then (thread_ascend d space max_depth max_nodes max_edges anchor [] 0) (\<lambda>(root, edges).
     Inr (root, edges, \<not> list_ex (\<lambda>x. re_source x = root \<and> re_type x = ''reply-to'') (record_relations d)))"

definition reply_children :: "db \<Rightarrow> string \<Rightarrow> string \<Rightarrow> string list" where
  "reply_children d space i = sort (map re_source (filter (\<lambda>x. re_target x = i \<and> re_type x = ''reply-to''
     \<and> in_space d space (re_source x)) (record_relations d)))"

text \<open>\<open>usize\<close> subtraction panics below zero.\<close>

definition usize_sub :: "nat \<Rightarrow> nat \<Rightarrow> berror + nat" where
  "usize_sub a b = (if b \<le> a then Inr (a - b) else Inl Panicked)"

text \<open>The descent. \<open>pending\<close> is the stack with its top first, so a node's children are pushed in
  reverse.\<close>

function thread_descend :: "db \<Rightarrow> string \<Rightarrow> nat \<Rightarrow> nat \<Rightarrow> nat \<Rightarrow> (string \<times> nat) list \<Rightarrow> string list
    \<Rightarrow> (int \<times> string) list \<Rightarrow> nat \<Rightarrow> berror + (int \<times> string) list" where
  "thread_descend d space max_depth max_nodes max_edges [] seen result edges = Inr result"
| "thread_descend d space max_depth max_nodes max_edges ((i, depth) # pending) seen result edges =
     (if i \<in> set seen then Inl CorruptJournal
      else if length (i # seen) > max_nodes \<or> depth > max_depth then Inl InvalidJournal
      else if \<not> in_space d space i then Inl (from_sqlite QueryReturnedNoRows)
      else
        (case and_then (usize_sub max_nodes (length (i # seen))) (\<lambda>a.
              and_then (usize_sub a (length pending)) (\<lambda>b.
              and_then (usize_sub max_edges edges) (\<lambda>c. Inr (min b c)))) of
           Inl e \<Rightarrow> Inl e
         | Inr remaining \<Rightarrow>
             (let children = take (remaining + 1) (reply_children d space i) in
              if length children > remaining \<or> (depth = max_depth \<and> children \<noteq> []) then Inl InvalidJournal
              else thread_descend d space max_depth max_nodes max_edges
                (rev (map (\<lambda>c. (c, depth + 1)) children) @ pending) (i # seen)
                (result @ [(case find_record d i of Some r \<Rightarrow> rc_space_seq r | None \<Rightarrow> 0, i)])
                (edges + length children))))"
  by pat_completeness auto
termination
  by (relation "measure (\<lambda>(d, space, max_depth, max_nodes, max_edges, pending, seen, result, edges). max_nodes - length seen)")
     auto

declare thread_descend.simps [simp del]

definition thread_ids :: "db \<Rightarrow> string \<Rightarrow> string \<Rightarrow> nat \<Rightarrow> nat \<Rightarrow> nat \<Rightarrow> berror + (int \<times> string) list" where
  "thread_ids d anchor space max_depth max_nodes max_edges =
     and_then (thread_root_id d anchor space max_depth max_nodes max_edges) (\<lambda>(root, root_edges, _).
     thread_descend d space max_depth max_nodes max_edges [(root, 0)] [] [] root_edges)"

definition get_thread_root_as :: "env \<Rightarrow> read_identity \<Rightarrow> string \<Rightarrow> (store, journal_record \<times> bool) prog" where
  "get_thread_root_as E identity i =
     read E (
       bind (read_actor E identity) (\<lambda>actor.
       bind (reads (\<lambda>d. space_of_record d i)) (\<lambda>space.
       bind (reads (\<lambda>d. permitted d actor space False)) (\<lambda>_.
       bind (reads (\<lambda>d. thread_root_id d i space THREAD_MAX_DEPTH THREAD_MAX_NODES THREAD_MAX_EDGES)) (\<lambda>(root_id, _, resolved).
       bind (reads (\<lambda>d. record_of d root_id)) (\<lambda>root.
       ret (root, resolved)))))))"

definition get_thread_as :: "env \<Rightarrow> read_identity \<Rightarrow> string \<Rightarrow> page_query \<Rightarrow> (store, journal_record page) prog" where
  "get_thread_as E identity i query =
     bind (lift (map_err Invalid (validate_page_query query))) (\<lambda>_.
     read_paged E identity (\<lambda>codec.
       bind (read_actor E identity) (\<lambda>actor.
       bind (reads (\<lambda>d. space_of_record d i)) (\<lambda>space.
       bind (reads (\<lambda>d. permitted d actor space False)) (\<lambda>_.
       let scope = filters_scope E RRecordThread [JStr actor, JStr i] OSequence in
       bind (lift (sequence_position E codec scope query)) (\<lambda>after.
       bind (reads (\<lambda>d. thread_ids d i space THREAD_MAX_DEPTH THREAD_MAX_NODES THREAD_MAX_EDGES)) (\<lambda>ids.
       bind (reads (\<lambda>d. try_map (record_of d) (map snd (take (effective_limit query + 1)
          (sort (filter (\<lambda>x. after < x) ids)))))) (\<lambda>xs.
       lift (finish_page E xs query codec scope record_position)))))))))"

definition get_thread :: "env \<Rightarrow> string \<Rightarrow> string \<Rightarrow> page_query \<Rightarrow> (store, journal_record page) prog" where
  "get_thread E token i query = get_thread_as E (Bearer token) i query"

section \<open>An append keeps the schema and is counted\<close>

text \<open>The programs of the service that only look, for any relation between databases.\<close>

locale db_step_order = step_order R for R :: "db \<Rightarrow> db \<Rightarrow> bool"
begin

lemma keeps_journal_actor: "keeps R (journal_actor E token)"
  unfolding journal_actor_def by (intro keeps_rules)

lemma keeps_append_replay_actor: "keeps R (append_replay_actor E token)"
  unfolding append_replay_actor_def by (intro keeps_rules)

lemma keeps_read_actor: "keeps R (read_actor E identity)"
  by (cases identity) (auto simp: read_actor_def intro!: keeps_rules keeps_journal_actor)

lemma keeps_resolve_attention: "keeps R (resolve_attention space recipients)"
  unfolding resolve_attention_def by (intro keeps_rules)

lemma keeps_check_relation: "keeps R (check_relation actor space seq relation)"
  unfolding check_relation_def by (intro keeps_rules)

lemmas keeps_actor = keeps_journal_actor keeps_append_replay_actor keeps_read_actor
  keeps_resolve_attention keeps_check_relation

end

interpretation db_counting: db_step_order counted
  by unfold_locales

interpretation db_schema: db_step_order preserves_schema
  by unfold_locales

interpretation unchanged: db_step_order "(=)"
  by unfold_locales auto

lemma append_counted: "keeps counted (cursor_codec E)" "keeps counted (append_record_tx E token space key input)"
  unfolding append_record_tx_def new_append_def append_checked_def write_record_def deliver_def cursor_codec_def
  by (intro counted_rules db_counting.keeps_actor)+

lemma append_schema: "keeps preserves_schema (cursor_codec E)" "keeps preserves_schema (append_record_tx E token space key input)"
  unfolding append_record_tx_def new_append_def append_checked_def write_record_def deliver_def cursor_codec_def
  by (intro schema_rules db_schema.keeps_actor)+

section \<open>What an append writes\<close>

lemma unchangedD: "keeps (=) m \<Longrightarrow> m (d, z) = (Inr x, d', z') \<Longrightarrow> d' = d"
  using keepsD by metis

lemma relations_written:
  assumes "each (\<lambda>pr. execute (insert_relation (relation_row_of i t pr))) prs (d, z) = (Inr u, d1, z1)"
  shows "\<exists>k. d1 = d\<lparr>record_relations := record_relations d @ map (relation_row_of i t) prs, total_changes := k\<rparr>"
  using assms
proof (induction prs arbitrary: d)
  case Nil
  then show ?case by (auto simp: prog_simps intro: exI [of _ "total_changes d"])
next
  case (Cons pr prs)
  then obtain d2 where d2: "insert_relation (relation_row_of i t pr) d = Inr d2"
      "each (\<lambda>pr. execute (insert_relation (relation_row_of i t pr))) prs (d2, z) = (Inr u, d1, z1)"
    by (auto simp: prog_simps)
  then show ?case
    using Cons.IH [OF d2(2)] insert_relationD [OF d2(1)] by (auto simp: changed_def)
qed

definition inbox_head :: "db \<Rightarrow> string \<Rightarrow> int" where
  "inbox_head d p = (case map_of (inbox_sequences d) p of Some n \<Rightarrow> n | None \<Rightarrow> 0)"

lemma bump_head:
  assumes "bump_inbox_sequence p d = Inr d'"
  shows "map_of (inbox_sequences d') p = Some (inbox_head d p + 1)"
    and "q \<noteq> p \<Longrightarrow> map_of (inbox_sequences d') q = map_of (inbox_sequences d) q"
    and "\<exists>xs k. d' = d\<lparr>inbox_sequences := xs, total_changes := k\<rparr>"
proof -
  have hit: "map_of (map (\<lambda>(q, k). if q = p then (q, k + 1) else (q, k)) xs) q
      = map_option (\<lambda>k. if q = p then k + 1 else k) (map_of xs q)" for xs q
    by (induction xs) auto
  show "map_of (inbox_sequences d') p = Some (inbox_head d p + 1)"
    "q \<noteq> p \<Longrightarrow> map_of (inbox_sequences d') q = map_of (inbox_sequences d) q"
    "\<exists>xs k. d' = d\<lparr>inbox_sequences := xs, total_changes := k\<rparr>"
    using bump_inbox_sequenceD [OF assms]
    by (auto simp: changed_def inbox_head_def hit map_of_eq_None_iff [symmetric] map_add_def
        option.map_ident split: option.splits)
qed

definition attention_of :: "string \<Rightarrow> string \<Rightarrow> string \<Rightarrow> attention_row" where
  "attention_of i t p = \<lparr>at_record_id = i, at_recipient = p, at_created_at = t\<rparr>"

text \<open>The inbox item a delivery creates.\<close>

definition delivered :: "string \<Rightarrow> string \<Rightarrow> string \<Rightarrow> int \<Rightarrow> mailbox_row \<Rightarrow> bool" where
  "delivered i t p n m \<longleftrightarrow> mi_record_id m = i \<and> mi_recipient m = p \<and> mi_created_at m = t \<and> mi_seq m = n
     \<and> mi_acknowledged_at m = None"

lemma deliver_written:
  assumes "deliver E i t p (d, z) = (Inr u, d1, z1)"
  shows "\<exists>m xs k. delivered i t p (inbox_head d p + 1) m
      \<and> d1 = d\<lparr>attention := attention d @ [attention_of i t p], inbox_sequences := xs,
               mailbox_items := mailbox_items d @ [m], total_changes := k\<rparr>
      \<and> inbox_head d1 p = inbox_head d p + 1 \<and> (\<forall>q. q \<noteq> p \<longrightarrow> inbox_head d1 q = inbox_head d q)"
proof -
  from assms obtain da db sec n where
    a: "insert_attention (attention_of i t p) d = Inr da" and b: "bump_inbox_sequence p da = Inr db"
    and n: "map_of (inbox_sequences db) p = Some n"
    and m: "insert_mailbox_item \<lparr>mi_id = ''item-'' @ sec, mi_record_id = i, mi_recipient = p,
        mi_created_at = t, mi_seq = n, mi_acknowledged_at = None\<rparr> db = Inr d1"
    by (auto simp: deliver_def attention_of_def read_inbox_sequence_def prog_simps result_simps)
  have da: "da = changed (d\<lparr>attention := attention d @ [attention_of i t p]\<rparr>)"
    using insert_attentionD [OF a] by blast
  then have head: "inbox_head da q = inbox_head d q" for q
    by (simp add: changed_def inbox_head_def)
  obtain xs k where db: "db = da\<lparr>inbox_sequences := xs, total_changes := k\<rparr>"
    using bump_head(3) [OF b] by blast
  have "n = inbox_head d p + 1"
    using bump_head(1) [OF b] n head by simp
  moreover have d1: "d1 = changed (db\<lparr>mailbox_items := mailbox_items db @ [\<lparr>mi_id = ''item-'' @ sec, mi_record_id = i,
        mi_recipient = p, mi_created_at = t, mi_seq = n, mi_acknowledged_at = None\<rparr>]\<rparr>)"
    using insert_mailbox_itemD [OF m] by blast
  moreover have "inbox_head d1 p = inbox_head d p + 1" "q \<noteq> p \<Longrightarrow> inbox_head d1 q = inbox_head d q" for q
    using bump_head(1,2) [OF b] head d1 by (simp_all add: inbox_head_def changed_def)
  ultimately show ?thesis
    by (intro exI [of _ "\<lparr>mi_id = ''item-'' @ sec, mi_record_id = i, mi_recipient = p, mi_created_at = t,
        mi_seq = n, mi_acknowledged_at = None\<rparr>"] exI [of _ xs] exI [of _ "total_changes d1"])
      (simp add: delivered_def da db changed_def)
qed

lemma deliveries_written:
  assumes "each (deliver E i t) ps (d, z) = (Inr u, d1, z1)" "distinct ps"
  shows "\<exists>ms xs k. list_all2 (\<lambda>p m. delivered i t p (inbox_head d p + 1) m) ps ms
      \<and> d1 = d\<lparr>attention := attention d @ map (attention_of i t) ps, inbox_sequences := xs,
               mailbox_items := mailbox_items d @ ms, total_changes := k\<rparr>
      \<and> (\<forall>q. inbox_head d1 q = inbox_head d q + (if q \<in> set ps then 1 else 0))"
  using assms
proof (induction ps arbitrary: d z)
  case Nil
  then show ?case
    by (intro exI [of _ "[]"] exI [of _ "inbox_sequences d"] exI [of _ "total_changes d"]) (auto simp: prog_simps)
next
  case (Cons p ps)
  then obtain d2 z2 where step: "deliver E i t p (d, z) = (Inr (), d2, z2)" "each (deliver E i t) ps (d2, z2) = (Inr u, d1, z1)"
    by (auto simp: bind_Inr)
  obtain m xs k where d2: "delivered i t p (inbox_head d p + 1) m"
      "d2 = d\<lparr>attention := attention d @ [attention_of i t p], inbox_sequences := xs,
               mailbox_items := mailbox_items d @ [m], total_changes := k\<rparr>"
      "inbox_head d2 p = inbox_head d p + 1" "\<And>q. q \<noteq> p \<Longrightarrow> inbox_head d2 q = inbox_head d q"
    using deliver_written [OF step(1)] by blast
  obtain ms xs' k' where d1: "list_all2 (\<lambda>p m. delivered i t p (inbox_head d2 p + 1) m) ps ms"
      "d1 = d2\<lparr>attention := attention d2 @ map (attention_of i t) ps, inbox_sequences := xs',
               mailbox_items := mailbox_items d2 @ ms, total_changes := k'\<rparr>"
      "\<And>q. inbox_head d1 q = inbox_head d2 q + (if q \<in> set ps then 1 else 0)"
    using Cons.IH [OF step(2)] Cons.prems(2) by auto
  have "list_all2 (\<lambda>p m. delivered i t p (inbox_head d p + 1) m) ps ms"
    using d1(1) d2(4) Cons.prems(2) by (auto simp: list_all2_conv_all_nth) (metis nth_mem)
  moreover have "inbox_head d1 q = inbox_head d q + (if q \<in> set (p # ps) then 1 else 0)" for q
    using d1(3) [of q] d2(3) d2(4) [of q] Cons.prems(2) by (cases "q = p") auto
  ultimately show ?case
    using d2(1,2) d1(2)
    by (intro exI [of _ "m # ms"] exI [of _ xs'] exI [of _ k']) simp
qed

lemma cursor_codec_written:
  assumes "cursor_codec E (d, z) = (Inr c, d1, z1)"
  shows "\<exists>key k. d1 = d\<lparr>cursor_secret := Some key, total_changes := k\<rparr> \<and> (\<forall>s. cursor_secret d = Some s \<longrightarrow> key = s)"
proof (cases "cursor_secret d")
  case None
  then obtain bytes where "insert_cursor_secret bytes d = Inr d1"
    using assms by (auto simp: cursor_codec_def prog_simps)
  then have "d1 = d\<lparr>cursor_secret := Some bytes, total_changes := total_changes d + 1\<rparr>"
    using insert_cursor_secretD [of bytes d d1] by (simp add: changed_def)
  then show ?thesis
    using None by (metis option.distinct(1))
next
  case (Some key)
  then have "d1 = d"
    using assms by (auto simp: cursor_codec_def prog_simps)
  then show ?thesis
    using Some by (intro exI [of _ key] exI [of _ "total_changes d"]) simp
qed

text \<open>The database after a new append, and the record answered.\<close>

definition appended :: "db \<Rightarrow> string \<Rightarrow> string \<Rightarrow> record_input \<Rightarrow> string \<Rightarrow> string \<Rightarrow> idempotency_row \<Rightarrow> db \<Rightarrow> bool" where
  "appended d space actor input t i key d1 \<longleftrightarrow>
     (\<exists>sec ms xs k.
        d1 = d\<lparr>cursor_secret := Some sec, records := records d @ [record_row_of i space (space_head d space + 1) actor input t],
               record_relations := record_relations d @ map (relation_row_of i t) (enumerate 0 (in_relations input)),
               attention := attention d @ map (attention_of i t) (sort (in_attention input)),
               inbox_sequences := xs, mailbox_items := mailbox_items d @ ms,
               idempotency_keys := idempotency_keys d @ [key], total_changes := k\<rparr>
        \<and> (\<forall>s. cursor_secret d = Some s \<longrightarrow> sec = s)
        \<and> list_all2 (\<lambda>p m. delivered i t p (inbox_head d p + 1) m) (sort (in_attention input)) ms
        \<and> (\<forall>q. inbox_head d1 q = inbox_head d q + (if q \<in> set (in_attention input) then 1 else 0)))"

definition result_record :: "db \<Rightarrow> string \<Rightarrow> string \<Rightarrow> record_input \<Rightarrow> string \<Rightarrow> string \<Rightarrow> journal_record" where
  "result_record d space actor input t i = \<lparr>r_id = i, r_space_id = space, r_seq = space_head d space + 1,
     r_author = actor, r_kind = in_kind input, r_content = in_content input, r_run_id = in_run_id input,
     r_created_at = t, r_attention = sort (in_attention input), r_routing_key = in_routing_key input,
     r_relations = in_relations input, r_title = in_title input\<rparr>"

lemma write_record_written:
  assumes "write_record E actor space seq input t i (d, z) = (Inr r, d1, z1)" "distinct (in_attention input)"
  shows "\<exists>ms xs k.
        d1 = d\<lparr>records := records d @ [record_row_of i space seq actor input t],
               record_relations := record_relations d @ map (relation_row_of i t) (enumerate 0 (in_relations input)),
               attention := attention d @ map (attention_of i t) (sort (in_attention input)),
               inbox_sequences := xs, mailbox_items := mailbox_items d @ ms, total_changes := k\<rparr>
        \<and> list_all2 (\<lambda>p m. delivered i t p (inbox_head d p + 1) m) (sort (in_attention input)) ms
        \<and> (\<forall>q. inbox_head d1 q = inbox_head d q + (if q \<in> set (in_attention input) then 1 else 0))
        \<and> r_id r = i \<and> i \<notin> rc_id ` set (records d)"
proof -
  from assms(1) obtain da db zb where
    a: "insert_record (record_row_of i space seq actor input t) d = Inr da"
    and b: "each (\<lambda>pr. execute (insert_relation (relation_row_of i t pr))) (enumerate 0 (in_relations input)) (da, z) = (Inr (), db, zb)"
    and c: "each (deliver E i t) (sort (in_attention input)) (db, zb) = (Inr (), d1, z1)" and r: "r_id r = i"
    by (auto simp: write_record_def bind_Inr execute_Inr checkpoint_Inr ret_Inr)
  have da: "da = changed (d\<lparr>records := records d @ [record_row_of i space seq actor input t]\<rparr>)"
    and fresh: "i \<notin> rc_id ` set (records d)"
    using insert_recordD [OF a] by (auto simp: record_row_of_def)
  obtain k where db: "db = da\<lparr>record_relations := record_relations da @ map (relation_row_of i t) (enumerate 0 (in_relations input)), total_changes := k\<rparr>"
    using relations_written [OF b] by blast
  have head: "inbox_head db q = inbox_head d q" for q
    by (simp add: db da changed_def inbox_head_def)
  have "distinct (sort (in_attention input))"
    using assms(2) by simp
  from deliveries_written [OF c this] obtain ms xs k' where w:
    "list_all2 (\<lambda>p m. delivered i t p (inbox_head db p + 1) m) (sort (in_attention input)) ms"
    "d1 = db\<lparr>attention := attention db @ map (attention_of i t) (sort (in_attention input)), inbox_sequences := xs,
               mailbox_items := mailbox_items db @ ms, total_changes := k'\<rparr>"
    "\<forall>q. inbox_head d1 q = inbox_head db q + (if q \<in> set (sort (in_attention input)) then 1 else 0)"
    by blast
  have "d1 = d\<lparr>records := records d @ [record_row_of i space seq actor input t],
      record_relations := record_relations d @ map (relation_row_of i t) (enumerate 0 (in_relations input)),
      attention := attention d @ map (attention_of i t) (sort (in_attention input)),
      inbox_sequences := xs, mailbox_items := mailbox_items d @ ms, total_changes := k'\<rparr>"
    using w(2) by (simp add: db da changed_def)
  then show ?thesis
    using w(1,3) r fresh unfolding head by auto
qed

lemma active_cong:
  assumes "principals d' = principals d"
  shows "active_row d' = active_row d"
    and "principal_names d' = principal_names d \<Longrightarrow> active_principal d' = active_principal d"
    and "spaces d' = spaces d \<Longrightarrow> permitted d' = permitted d"
  using assms
  by (intro ext; simp add: active_row_def find_principal_def active_principal_def find_name_def permitted_def
      cong: option.case_cong)+

lemma resolve_attention_written:
  assumes "resolve_attention space rs (d, z) = (Inr ps, d1, z1)"
  shows "d1 = d \<and> z1 = z \<and> list_all2 (\<lambda>r p. active_principal d r = Inr p) rs ps
    \<and> list_all (\<lambda>p. permitted d p space False = Inr ()) ps"
  using assms unfolding resolve_attention_def
  by (induction rs arbitrary: ps) (auto simp: prog_simps)

text \<open>The calls of a successful append, after its input has been resolved.\<close>

lemma append_checked_steps:
  assumes "append_checked E actor space path key hash input (d, z) = (Inr res, d1, z1)"
  obtains seq t i zf r dw zw where
    "validate_record_input input = Inr ()" "next_sequence space d = Inr seq"
    "write_record E actor space seq input t i (d, zf) = (Inr r, dw, zw)"
    "insert_idempotency_key \<lparr>ik_principal_id = actor, ik_path = path, ik_key = key,
        ik_payload_hash = hash, ik_record_id = i, ik_response_json = REBUILT_APPEND_RESPONSE,
        ik_created_at = t\<rparr> dw = Inr d1"
    "res = \<lparr>ar_record = r, ar_mailbox_created = length (in_attention input), ar_replayed = False\<rparr>"
    "uuid_v7_shape i"
proof -
  from assms obtain seq dk zk t i zf di r dw zw where
    st: "validate_record_input input = Inr ()"
    "next_sequence space d = Inr seq"
    "each (check_relation actor space seq) (in_relations input) (d, z) = (Inr (), dk, zk)"
    "record_id E (env_clock E (clock_calls zk)) (dk, zk\<lparr>clock_calls := clock_calls zk + 1\<rparr>) = (Inr i, di, zf)"
    "write_record E actor space seq input t i (di, zf) = (Inr r, dw, zw)"
    "insert_idempotency_key \<lparr>ik_principal_id = actor, ik_path = path, ik_key = key,
        ik_payload_hash = hash, ik_record_id = i, ik_response_json = REBUILT_APPEND_RESPONSE,
        ik_created_at = t\<rparr> dw = Inr d1"
    "res = \<lparr>ar_record = r, ar_mailbox_created = length (in_attention input), ar_replayed = False\<rparr>"
    unfolding append_checked_def
    by (auto simp: bind_Inr reads_Inr lift_Inr checkpoint_Inr clock_now_Inr ret_Inr execute_Inr
        canonical_append_def result_simps)
  have checks: "keeps (=) (each (check_relation actor space seq) (in_relations input))"
    by (intro unchanged.keeps_each unchanged.keeps_check_relation)
  have "dk = d" "di = dk"
    using unchangedD [OF checks st(3)] unchangedD [OF unchanged.keeps_record_id st(4)] by simp_all
  moreover have "uuid_v7_shape i"
    using st(4) by (auto simp: record_id_def prog_simps record_uuid_shape)
  ultimately show thesis
    using st by (intro that) auto
qed

lemma write_record_result:
  "write_record E actor space seq input t i (d, z) = (Inr r, d1, z1) \<Longrightarrow>
    r = \<lparr>r_id = i, r_space_id = space, r_seq = seq, r_author = actor, r_kind = in_kind input,
       r_content = in_content input, r_run_id = in_run_id input, r_created_at = t,
       r_attention = sort (in_attention input), r_routing_key = in_routing_key input,
       r_relations = in_relations input, r_title = in_title input\<rparr>"
  by (auto simp: write_record_def bind_Inr ret_Inr)

lemma new_appendD:
  assumes "new_append E token space path key hash submitted (d, z) = (Inr res, d1, z1)"
  obtains actor input t i z0 where
    "journal_actor E token (d, z) = (Inr actor, d, z0)"
    "permitted d actor space True = Inr ()"
    "input = submitted\<lparr>in_attention := in_attention input, in_title := normalize_title (in_title submitted)\<rparr>"
    "list_all2 (\<lambda>r p. active_principal d r = Inr p) (in_attention submitted) (in_attention input)"
    "well_formed_input input"
    "i \<notin> rc_id ` set (records d)" "uuid_v7_shape i" "space_head d space < i64_max"
    "appended d space actor input t i \<lparr>ik_principal_id = actor, ik_path = path, ik_key = key, ik_payload_hash = hash,
        ik_record_id = i, ik_response_json = REBUILT_APPEND_RESPONSE, ik_created_at = t\<rparr> d1"
    "res = \<lparr>ar_record = result_record d space actor input t i,
        ar_mailbox_created = length (in_attention input), ar_replayed = False\<rparr>"
proof -
  from assms obtain actor da za c dc zc recipients dr zr where
    st: "journal_actor E token (d, z) = (Inr actor, da, za)" "permitted da actor space True = Inr ()"
    "cursor_codec E (da, za) = (Inr c, dc, zc)"
    "resolve_attention space (in_attention submitted) (dc, zc) = (Inr recipients, dr, zr)"
    "append_checked E actor space path key hash
       (submitted\<lparr>in_attention := recipients, in_title := normalize_title (in_title submitted)\<rparr>) (dr, zr) = (Inr res, d1, z1)"
    unfolding new_append_def by (auto simp: bind_Inr reads_Inr)
  define input where "input = submitted\<lparr>in_attention := recipients, in_title := normalize_title (in_title submitted)\<rparr>"
  have same: "da = d" "dr = dc"
    using unchangedD [OF unchanged.keeps_journal_actor st(1)] resolve_attention_written [OF st(4)] by simp_all
  obtain sec k where dc: "dc = d\<lparr>cursor_secret := Some sec, total_changes := k\<rparr>"
      and sec: "\<forall>s. cursor_secret d = Some s \<longrightarrow> sec = s"
    using cursor_codec_written [OF st(3)] same by auto
  obtain seq t i zf r dw zw where ap: "validate_record_input input = Inr ()" "next_sequence space dc = Inr seq"
    "write_record E actor space seq input t i (dc, zf) = (Inr r, dw, zw)"
    "insert_idempotency_key \<lparr>ik_principal_id = actor, ik_path = path, ik_key = key,
        ik_payload_hash = hash, ik_record_id = i, ik_response_json = REBUILT_APPEND_RESPONSE,
        ik_created_at = t\<rparr> dw = Inr d1"
    "res = \<lparr>ar_record = r, ar_mailbox_created = length (in_attention input), ar_replayed = False\<rparr>"
    "uuid_v7_shape i"
    using append_checked_steps [OF st(5) [folded input_def, unfolded same]] by metis
  have wf: "well_formed_input input"
    using ap(1) by (simp add: validate_record_input_Inr)
  then have "distinct (in_attention input)"
    by (simp add: well_formed_input_def)
  from write_record_written [OF ap(3) this] obtain ms xs k' where w:
    "dw = dc\<lparr>records := records dc @ [record_row_of i space seq actor input t],
               record_relations := record_relations dc @ map (relation_row_of i t) (enumerate 0 (in_relations input)),
               attention := attention dc @ map (attention_of i t) (sort (in_attention input)),
               inbox_sequences := xs, mailbox_items := mailbox_items dc @ ms, total_changes := k'\<rparr>"
    "list_all2 (\<lambda>p m. delivered i t p (inbox_head dc p + 1) m) (sort (in_attention input)) ms"
    "\<forall>q. inbox_head dw q = inbox_head dc q + (if q \<in> set (in_attention input) then 1 else 0)"
    "i \<notin> rc_id ` set (records dc)"
    by blast
  have heads: "space_head dc space = space_head d space" "\<And>p. inbox_head dc p = inbox_head d p"
    by (simp_all add: dc space_head_def inbox_head_def)
  have seq: "seq = space_head d space + 1" "space_head d space < i64_max"
    using ap(2) heads by (auto simp: next_sequence_def split: if_splits)
  have d1: "d1 = changed (dw\<lparr>idempotency_keys := idempotency_keys dw @ [\<lparr>ik_principal_id = actor, ik_path = path, ik_key = key,
        ik_payload_hash = hash, ik_record_id = i, ik_response_json = REBUILT_APPEND_RESPONSE, ik_created_at = t\<rparr>]\<rparr>)"
    using insert_idempotency_keyD [OF ap(4)] by blast
  have "inbox_head d1 q = inbox_head dw q" for q
    by (simp add: d1 changed_def inbox_head_def)
  then have "appended d space actor input t i \<lparr>ik_principal_id = actor, ik_path = path, ik_key = key, ik_payload_hash = hash,
        ik_record_id = i, ik_response_json = REBUILT_APPEND_RESPONSE, ik_created_at = t\<rparr> d1"
    unfolding appended_def using w(2,3) heads sec
    by (intro exI [of _ sec] exI [of _ ms] exI [of _ xs] exI [of _ "Suc k'"])
      (simp add: d1 w(1) dc changed_def seq)
  moreover have "list_all2 (\<lambda>r p. active_principal d r = Inr p) (in_attention submitted) (in_attention input)"
    using resolve_attention_written [OF st(4)] active_cong(2) [of dc d] by (simp add: input_def dc)
  ultimately show thesis
    using st(1,2) same wf w(4) ap(5,6) seq write_record_result [OF ap(3)]
    by (intro that [of actor za input i t]) (simp_all add: input_def dc result_record_def)
qed

section \<open>Records are immutable\<close>

text \<open>How the journal evolves: rows are added at the end, and the relations and attention added
  belong to records added with them.\<close>

definition journal_grows :: "db \<Rightarrow> db \<Rightarrow> bool" where
  "journal_grows d d' \<longleftrightarrow>
     (\<exists>rs rels ats ks. records d' = records d @ rs \<and> record_relations d' = record_relations d @ rels
        \<and> attention d' = attention d @ ats \<and> idempotency_keys d' = idempotency_keys d @ ks
        \<and> (\<forall>r \<in> set rels. re_source r \<notin> rc_id ` set (records d))
        \<and> (\<forall>a \<in> set ats. at_record_id a \<notin> rc_id ` set (records d)))"

interpretation growing: db_step_order journal_grows
proof
  fix a b c :: db
  show "journal_grows a a" by (simp add: journal_grows_def)
  assume "journal_grows a b" "journal_grows b c"
  then show "journal_grows a c"
    unfolding journal_grows_def by (elim exE conjE) auto
qed

lemma record_of_grows:
  assumes "record_of d i = Inr r" "journal_grows d d'"
  shows "record_of d' i = Inr r"
proof -
  obtain x where x: "find_record d i = Some x" "i \<in> rc_id ` set (records d)"
    using assms(1) find_SomeD [of _ "records d"] by (force simp: record_of_def result_simps find_record_def)
  obtain rs rels ats where g: "records d' = records d @ rs" "record_relations d' = record_relations d @ rels"
      "attention d' = attention d @ ats"
      "\<forall>r \<in> set rels. re_source r \<notin> rc_id ` set (records d)" "\<forall>a \<in> set ats. at_record_id a \<notin> rc_id ` set (records d)"
    using assms(2) unfolding journal_grows_def by blast
  have "find_record d' i = find_record d i"
    using x(1) by (simp add: find_record_def g(1) find_append)
  moreover have "filter (\<lambda>r. re_source r = i) rels = []"
    using x(2) g(4) by (auto simp: filter_empty_conv)
  then have "relations_of d' i = relations_of d i"
    by (simp add: relations_of_def g(2))
  moreover have "filter (\<lambda>a. at_record_id a = i) ats = []"
    using x(2) g(5) by (auto simp: filter_empty_conv)
  ultimately show ?thesis
    using assms(1) by (simp add: record_of_def g(3))
qed

lemma sorted_enumerate: "sort_key re_position (map (relation_row_of i t) (enumerate n xs)) = map (relation_row_of i t) (enumerate n xs)"
proof -
  have "sorted (map re_position (map (relation_row_of i t) (enumerate n xs)))"
    by (induction xs arbitrary: n) (force simp: relation_row_of_def in_set_enumerate_eq)+
  then show ?thesis
    by (intro sort_key_id_if_sorted)
qed

lemma try_map_relations: "try_map relation_of_row (map (relation_row_of i t) (enumerate n xs)) = Inr xs"
  by (induction xs arbitrary: n) (simp_all add: relation_of_row_def relation_row_of_def)

lemma find_record_mem: "find_record d i = Some r \<Longrightarrow> r \<in> set (records d) \<and> rc_id r = i"
  by (auto simp: find_record_def dest: find_SomeD)

lemma older_same_space_ids:
  assumes "older_same_space d s t"
  shows "s \<in> rc_id ` set (records d)" "t \<in> rc_id ` set (records d)"
  using assms by (auto simp: older_same_space_def split: option.splits dest!: find_record_mem)

lemma appended_record_of:
  assumes "appended d space actor input t i key d1" "i \<notin> rc_id ` set (records d)" "schema_ok d"
  shows "record_of d1 i = Inr (result_record d space actor input t i)"
proof -
  have d1: "records d1 = records d @ [record_row_of i space (space_head d space + 1) actor input t]"
      "record_relations d1 = record_relations d @ map (relation_row_of i t) (enumerate 0 (in_relations input))"
      "attention d1 = attention d @ map (attention_of i t) (sort (in_attention input))"
    using assms(1) by (auto simp: appended_def)
  have "find_record d1 i = Some (record_row_of i space (space_head d space + 1) actor input t)"
    using assms(2) by (simp add: find_record_def d1(1) find_fresh_append find_key_fresh) (simp add: record_row_of_def)
  moreover have "filter (\<lambda>r. re_source r = i) (record_relations d) = []"
    using assms(2,3) older_same_space_ids by (auto simp: filter_empty_conv schema_ok_def records_ok_def)
  then have "relations_of d1 i = map (relation_row_of i t) (enumerate 0 (in_relations input))"
    by (simp add: relations_of_def d1(2) sorted_enumerate filter_id_conv [THEN iffD2] relation_row_of_def)
  moreover have "filter (\<lambda>a. at_record_id a = i) (attention d) = []"
    using assms(2,3) by (force simp: filter_empty_conv schema_ok_def records_ok_def)
  then have "sort (map at_recipient (filter (\<lambda>a. at_record_id a = i) (attention d1))) = sort (in_attention input)"
    by (simp add: d1(3) attention_of_def comp_def filter_map sorted_sort_id)
  ultimately show ?thesis
    by (simp add: record_of_def try_map_relations record_row_of_def result_record_def)
qed

lemma appended_grows:
  assumes "appended d space actor input t i key d1" "i \<notin> rc_id ` set (records d)"
  shows "journal_grows d d1"
  using assms unfolding appended_def journal_grows_def
  by (auto simp: relation_row_of_def attention_of_def in_set_enumerate_eq)

lemma replay_append_replayed: "replay_append E h k d = Inr res \<Longrightarrow> ar_replayed res"
  by (auto simp: replay_append_def result_simps split: if_splits)

lemma append_tx_new:
  assumes "append_record_tx E token space key input (d, z) = (Inr res, d1, z1)" "\<not> ar_replayed res"
  obtains a z0 where "append_replay_actor E token (d, z) = (Inr a, d, z0)"
    "find_idempotency d a (append_path space) key = None"
    "new_append E token space (append_path space) key (payload_hash E input) input (d, z0) = (Inr res, d1, z1)"
proof -
  from assms(1) obtain a da z0 where st: "append_replay_actor E token (d, z) = (Inr a, da, z0)"
    "(case find_idempotency da a (append_path space) key of
       Some p \<Rightarrow> reads (replay_append E (payload_hash E input) p)
     | None \<Rightarrow> new_append E token space (append_path space) key (payload_hash E input) input) (da, z0) = (Inr res, d1, z1)"
    by (auto simp: append_record_tx_def bind_Inr reads_Inr)
  moreover have "da = d"
    using unchangedD [OF unchanged.keeps_append_replay_actor st(1)] .
  ultimately show thesis
    using assms(2) that by (auto simp: reads_Inr dest: replay_append_replayed split: option.splits)
qed

text \<open>C1. An append is atomic and complete. A successful new append stores exactly the record
  it answers (reading it back gives the same value), under the next sequence number of its
  space; creates, for each addressed recipient once, one unacknowledged inbox item with that
  recipient's next inbox sequence number, and no other item; and leaves every earlier record
  as it was.\<close>

theorem append_is_complete:
  assumes "append_record_tx E token space key input (d, z) = (Inr res, d1, z1)"
    and "\<not> ar_replayed res" and "schema_ok d"
  shows "record_of d1 (r_id (ar_record res)) = Inr (ar_record res)
    \<and> r_space_id (ar_record res) = space \<and> r_seq (ar_record res) = space_head d space + 1
    \<and> distinct (r_attention (ar_record res)) \<and> ar_mailbox_created res = length (r_attention (ar_record res))
    \<and> (\<exists>ms. mailbox_items d1 = mailbox_items d @ ms
         \<and> list_all2 (\<lambda>p m. delivered (r_id (ar_record res)) (r_created_at (ar_record res)) p (inbox_head d p + 1) m)
             (r_attention (ar_record res)) ms)
    \<and> (\<forall>i r. record_of d i = Inr r \<longrightarrow> record_of d1 i = Inr r)"
proof -
  obtain a z0 where "new_append E token space (append_path space) key (payload_hash E input) input (d, z0) = (Inr res, d1, z1)"
    using append_tx_new [OF assms(1,2)] by metis
  then obtain actor inp t i k where ap: "well_formed_input inp" "i \<notin> rc_id ` set (records d)"
      "appended d space actor inp t i k d1"
      "res = \<lparr>ar_record = result_record d space actor inp t i, ar_mailbox_created = length (in_attention inp), ar_replayed = False\<rparr>"
    by (rule new_appendD) blast
  obtain ms where "mailbox_items d1 = mailbox_items d @ ms"
      "list_all2 (\<lambda>p m. delivered i t p (inbox_head d p + 1) m) (sort (in_attention inp)) ms"
    using ap(3) by (auto simp: appended_def)
  then show ?thesis
    using appended_record_of [OF ap(3,2) assms(3)] record_of_grows [OF _ appended_grows [OF ap(3,2)]] ap(1)
    by (auto simp: ap(4) result_record_def well_formed_input_def)
qed


end
