(* ===== verification/Paging.thy ===== *)
theory Paging
  imports Records
begin

text \<open>
  Keyset pagination, the contract behind every listing of the service: a query gives the rows
  whose key is above a position, in increasing key order; a page is the first rows of it, and the
  next position is the key of its last row. The locale states the contract of such a query and
  derives that walking the pages yields every row exactly once; the listings interpret it.
\<close>

text \<open>The client's loop: fetch pages of \<open>n\<close> rows (the service reads one more, to know whether there is
  a next page) and continue above the last row until there is none.\<close>

fun walk :: "('k \<Rightarrow> 'r list) \<Rightarrow> ('r \<Rightarrow> 'k) \<Rightarrow> nat \<Rightarrow> nat \<Rightarrow> 'k \<Rightarrow> 'r list" where
  "walk rows_after key 0 n a = []"
| "walk rows_after key (Suc fuel) n a =
     (let fetched = take (n + 1) (rows_after a) in
      if length fetched > n
      then take n fetched @ walk rows_after key fuel n (key (last (take n fetched)))
      else fetched)"

text \<open>The shape of the listings' queries: a filtered table, sorted by its key.\<close>

definition keyset_rows :: "'r list \<Rightarrow> ('r \<Rightarrow> bool) \<Rightarrow> ('r \<Rightarrow> 'k::linorder) \<Rightarrow> 'k \<Rightarrow> 'r list" where
  "keyset_rows table matches key a = sort_key key (filter (\<lambda>r. matches r \<and> a < key r) table)"

locale keyset_query =
  fixes rows_after :: "'k::linorder \<Rightarrow> 'r list" and key :: "'r \<Rightarrow> 'k"
  assumes rows_sorted: "sorted_wrt (\<lambda>x y. key x < key y) (rows_after a)"
    and rows_above: "a \<le> b \<Longrightarrow> rows_after b = filter (\<lambda>r. b < key r) (rows_after a)"
    and rows_key: "r \<in> set (rows_after a) \<Longrightarrow> a < key r"
begin

lemma next_page:
  assumes "n < length (rows_after a)" "0 < n"
  shows "rows_after (key (last (take n (rows_after a)))) = drop n (rows_after a)"
proof -
  let ?xs = "rows_after a" and ?k = "key (last (take n (rows_after a)))"
  have ne: "take n ?xs \<noteq> []" using assms by auto
  have sorted: "sorted_wrt (\<lambda>x y. key x < key y) (take n ?xs @ drop n ?xs)"
    using rows_sorted [of a] by simp
  have last: "last (take n ?xs) \<in> set (take n ?xs)"
    using ne by (rule last_in_set)
  have above: "?k < key r" if "r \<in> set (drop n ?xs)" for r
    using sorted last that by (auto simp only: sorted_wrt_append)
  have split: "take n ?xs = butlast (take n ?xs) @ [last (take n ?xs)]"
    using ne by simp
  have "sorted_wrt (\<lambda>x y. key x < key y) (take n ?xs)"
    using sorted by (simp only: sorted_wrt_append)
  then have "\<forall>r \<in> set (butlast (take n ?xs)). key r < ?k"
    by (subst (asm) split) (simp only: sorted_wrt_append, simp)
  then have below: "key r \<le> ?k" if "r \<in> set (take n ?xs)" for r
    using that by (subst (asm) split) auto
  have "filter (\<lambda>r. ?k < key r) (take n ?xs) = []"
    using below by (simp only: filter_empty_conv not_less) blast
  moreover have "filter (\<lambda>r. ?k < key r) (drop n ?xs) = drop n ?xs"
    using above by (simp only: filter_id_conv) blast
  ultimately have "filter (\<lambda>r. ?k < key r) (take n ?xs @ drop n ?xs) = drop n ?xs"
    by (simp only: filter_append append_Nil)
  moreover have "a \<le> ?k"
    using rows_key [OF in_set_takeD [OF last]] by simp
  ultimately show ?thesis using rows_above [of a ?k] by simp
qed

lemma walk_complete:
  assumes "0 < n" "length (rows_after a) < fuel"
  shows "walk rows_after key fuel n a = rows_after a"
  using assms
proof (induction fuel arbitrary: a)
  case (Suc fuel)
  show ?case
  proof (cases "n < length (rows_after a)")
    case True
    have "rows_after (key (last (take n (rows_after a)))) = drop n (rows_after a)"
      using next_page [OF True Suc.prems(1)] .
    moreover from this have "walk rows_after key fuel n (key (last (take n (rows_after a)))) = drop n (rows_after a)"
      using Suc True by simp
    ultimately show ?thesis
      using True by (simp add: Let_def take_take min_def)
  next
    case False
    then show ?thesis by (simp add: Let_def)
  qed
qed simp

lemma rows_distinct: "distinct (map key (rows_after a))"
proof -
  have "sorted_wrt (\<lambda>x y. key x < key y) xs \<Longrightarrow> distinct (map key xs)" for xs
    by (induction xs) auto
  then show ?thesis using rows_sorted by blast
qed

end

text \<open>A table whose matching rows have distinct keys gives such a query.\<close>

locale keyset_table =
  fixes table :: "'r list" and matches :: "'r \<Rightarrow> bool" and key :: "'r \<Rightarrow> 'k::linorder"
  assumes unique: "distinct (map key (filter matches table))"
begin

lemma keyset_rows_filter:
  "keyset_rows table matches key a = filter (\<lambda>r. a < key r) (sort_key key (filter matches table))"
  by (simp add: keyset_rows_def filter_sort conj_commute)

lemma strictly_sorted: "sorted_wrt (\<lambda>x y. key x < key y) (sort_key key (filter matches table))"
proof -
  have "distinct (map key (sort_key key (filter matches table)))"
    using unique by (simp add: distinct_map)
  then have "sorted_wrt (<) (map key (sort_key key (filter matches table)))"
    by (simp add: strict_sorted_iff)
  then show ?thesis
    by (simp add: sorted_wrt_map)
qed

end

sublocale keyset_table \<subseteq> keyset_query "keyset_rows table matches key" key
proof
  fix a b r
  show "sorted_wrt (\<lambda>x y. key x < key y) (keyset_rows table matches key a)"
    unfolding keyset_rows_filter using strictly_sorted by (rule sorted_wrt_filter)
  show "keyset_rows table matches key b = filter (\<lambda>r. b < key r) (keyset_rows table matches key a)" if "a \<le> b"
    unfolding keyset_rows_filter using that by (auto intro!: filter_cong)
  show "r \<in> set (keyset_rows table matches key a) \<Longrightarrow> a < key r"
    by (simp add: keyset_rows_filter)
qed

section \<open>Reading a listing through its cursors\<close>

text \<open>The loop of a client that knows nothing but the opaque cursors: it asks for pages of \<open>n\<close> and
  presents each page's cursor for the next.\<close>

fun drain :: "(page_query \<Rightarrow> berror + 'a page) \<Rightarrow> nat \<Rightarrow> nat \<Rightarrow> string option \<Rightarrow> berror + 'a list" where
  "drain fetch n 0 cursor = Inr []"
| "drain fetch n (Suc fuel) cursor =
     and_then (fetch \<lparr>q_cursor = cursor, q_limit = Some n\<rparr>) (\<lambda>p.
     case next_cursor p of
       None \<Rightarrow> Inr (items p)
     | Some c \<Rightarrow> and_then (drain fetch n fuel (Some c)) (\<lambda>rest. Inr (items p @ rest)))"

text \<open>A method that serves such a listing: without a cursor it starts at the beginning, and the cursor
  issued for a row leads to the rows above that row's key.\<close>

locale cursor_listing = keyset_query rows_after key
  for rows_after :: "'k::linorder \<Rightarrow> 'r list" and key :: "'r \<Rightarrow> 'k" +
  fixes fetch :: "page_query \<Rightarrow> berror + 'a page" and start :: 'k and item :: "'r \<Rightarrow> 'a"
    and E :: env and codec :: cursor_codec and scope :: cursor_scope and position :: "'a \<Rightarrow> cursor_position"
  assumes first_page: "q_cursor q = None \<Longrightarrow> fetch q
      = finish_page E (map item (take (effective_limit q + 1) (rows_after start))) q codec scope position"
    and later_page: "r \<in> set (rows_after start) \<Longrightarrow>
      cursor_encode (env_crypto E) codec scope (position (item r)) = Inr c \<Longrightarrow> q_cursor q = Some c \<Longrightarrow> fetch q
      = finish_page E (map item (take (effective_limit q + 1) (rows_after (key r)))) q codec scope position"
    and cursors_fit: "r \<in> set (rows_after start) \<Longrightarrow> \<exists>c. cursor_encode (env_crypto E) codec scope (position (item r)) = Inr c"
begin

definition serves :: "'k \<Rightarrow> string option \<Rightarrow> bool" where
  "serves a cursor \<longleftrightarrow> start \<le> a \<and> (\<forall>q. q_cursor q = cursor \<longrightarrow> fetch q
     = finish_page E (map item (take (effective_limit q + 1) (rows_after a))) q codec scope position)"

lemma next_served:
  assumes "start \<le> a" "r \<in> set (rows_after a)"
  obtains c where "cursor_encode (env_crypto E) codec scope (position (item r)) = Inr c" "serves (key r) (Some c)"
proof -
  have r: "r \<in> set (rows_after start)"
    using assms rows_above [of start a] by simp
  then obtain c where c: "cursor_encode (env_crypto E) codec scope (position (item r)) = Inr c"
    using cursors_fit by blast
  have "start \<le> key r"
    using rows_key [OF r] by simp
  then have "serves (key r) (Some c)"
    unfolding serves_def using later_page [OF r c] by simp
  with c that show thesis by blast
qed

lemma drain_from:
  assumes "serves a cursor" "0 < n" "length (rows_after a) < fuel"
  shows "drain fetch n fuel cursor = Inr (map item (rows_after a))"
  using assms
proof (induction fuel arbitrary: a cursor)
  case (Suc fuel)
  let ?q = "\<lparr>q_cursor = cursor, q_limit = Some n\<rparr>"
  have fetched: "fetch ?q = finish_page E (map item (take (n + 1) (rows_after a))) ?q codec scope position"
    using Suc.prems(1) by (simp add: serves_def effective_limit_def)
  show ?case
  proof (cases "n < length (rows_after a)")
    case True
    let ?r = "last (take n (rows_after a))"
    have ne: "take n (rows_after a) \<noteq> []" using True Suc.prems(2) by auto
    have "?r \<in> set (rows_after a)"
      using last_in_set [OF ne] by (rule in_set_takeD)
    then obtain c where c: "cursor_encode (env_crypto E) codec scope (position (item ?r)) = Inr c" "serves (key ?r) (Some c)"
      using next_served Suc.prems(1) unfolding serves_def by metis
    have rest: "rows_after (key ?r) = drop n (rows_after a)"
      using next_page [OF True Suc.prems(2)] .
    then have "drain fetch n fuel (Some c) = Inr (map item (drop n (rows_after a)))"
      using Suc.IH [OF c(2) Suc.prems(2)] Suc.prems(2,3) True by simp
    moreover have "fetch ?q = Inr \<lparr>items = map item (take n (rows_after a)), next_cursor = Some c\<rparr>"
      using fetched True c(1) ne
      by (simp add: finish_page_def effective_limit_def Let_def take_map take_take min_def last_map)
    ultimately show ?thesis
      by (simp flip: map_append)
  next
    case False
    then show ?thesis
      using fetched by (simp add: finish_page_def effective_limit_def)
  qed
qed simp

lemma drain_complete:
  assumes "0 < n" "length (rows_after start) < fuel"
  shows "drain fetch n fuel None = Inr (map item (rows_after start))"
  using assms first_page by (intro drain_from) (simp_all add: serves_def)

end

section \<open>The listings\<close>

text \<open>The databases that satisfy the schema, on which the tables' keys are unique.\<close>

typedef ok_db = "{d. schema_ok d}"
  by (rule exI [of _ empty_db]) (simp add: ok_frame empty_db_def)

lemma Rep_ok [simp]: "schema_ok (Rep_ok_db d)"
  using Rep_ok_db [of d] by simp

lemma ok_db_of: "schema_ok d \<Longrightarrow> \<exists>x. d = Rep_ok_db x"
  by (metis Abs_ok_db_inverse mem_Collect_eq)

interpretation space_listing: keyset_table "spaces (Rep_ok_db d)" "\<lambda>s. sp_access s = ''public''" sp_id for d
  by unfold_locales (use Rep_ok [of d] in \<open>auto simp: schema_ok_def spaces_ok_def intro: distinct_map_filter\<close>)

interpretation record_listing: keyset_table "records (Rep_ok_db d)"
    "\<lambda>r. rc_space_id r = space \<and> rc_space_seq r > lower \<and> matches r" rc_space_seq for d space lower matches
proof
  have "distinct (map (\<lambda>r. (rc_space_id r, rc_space_seq r)) (records (Rep_ok_db d)))"
    using Rep_ok [of d] by (simp add: schema_ok_def records_ok_def)
  then have "distinct (map (\<lambda>r. (rc_space_id r, rc_space_seq r)) (filter P (records (Rep_ok_db d))))" for P
    by (rule distinct_map_filter)
  then show "distinct (map rc_space_seq (filter (\<lambda>r. rc_space_id r = space \<and> rc_space_seq r > lower \<and> matches r)
      (records (Rep_ok_db d))))"
    by (auto simp: distinct_map inj_on_def)
qed

text \<open>Walking pages through a view of the rows and of the positions.\<close>

lemma walk_map:
  assumes "\<And>p. rows' p = map f (rows (g p))" "\<And>p r. r \<in> set (rows p) \<Longrightarrow> g (key' (f r)) = key r" "0 < n"
  shows "walk rows' key' fuel n p = map f (walk rows key fuel n (g p))"
proof (induction fuel arbitrary: p)
  case (Suc fuel)
  show ?case
  proof (cases "n < length (rows (g p))")
    case True
    then have "take n (rows (g p)) \<noteq> []" using assms(3) by auto
    then have "g (key' (f (last (take n (rows (g p)))))) = key (last (take n (rows (g p))))"
      using assms(2) by (metis in_set_takeD last_in_set)
    moreover have "last (take n (map f (rows (g p)))) = f (last (take n (rows (g p))))"
      using \<open>take n (rows (g p)) \<noteq> []\<close> by (simp add: take_map last_map)
    ultimately show ?thesis
      using True Suc by (simp add: Let_def assms(1) take_take min_def take_map)
  next
    case False
    then show ?thesis by (simp add: Let_def assms(1))
  qed
qed simp

lemma sort_key_unique:
  assumes "distinct (map f xs)" "\<And>x y. x \<in> set xs \<Longrightarrow> y \<in> set xs \<Longrightarrow> f x < f y \<Longrightarrow> g x < g y"
  shows "sort_key g xs = sort_key f xs"
proof -
  have "sorted_wrt (<) (map f (sort_key f xs))"
    using assms(1) by (simp add: strict_sorted_iff distinct_map)
  then have "sorted_wrt (\<lambda>x y. f x < f y) (sort_key f xs)"
    by (simp add: sorted_wrt_map)
  then have "sorted_wrt (\<lambda>x y. g x < g y) (sort_key f xs)"
    by (rule sorted_wrt_mono_rel [rotated]) (use assms(2) in auto)
  then have "sorted_wrt (<) (map g (sort_key f xs))"
    by (simp only: sorted_wrt_map)
  then have "sorted (map g (sort_key f xs))" "distinct (map g (sort_key f xs))"
    by (simp_all only: strict_sorted_iff)
  then show ?thesis
    by (intro sort_key_inj_key_eq) (simp_all add: distinct_map)
qed

text \<open>The records query. Its sequence lower bound makes the comparison with the cursor's
  identifier redundant, so a page is determined by the sequence number alone.\<close>

lemma record_ids_after_seq:
  assumes "schema_ok d"
  shows "record_ids_after d space matches (record_sequence_lower_bound after_seq s) (s, i)
    = map rc_id (keyset_rows (records d) (\<lambda>r. rc_space_id r = space
        \<and> rc_space_seq r > record_sequence_lower_bound after_seq 0 \<and> matches r) rc_space_seq s)"
    (is "_ = map rc_id (keyset_rows _ ?P _ _)")
proof -
  have bound: "record_sequence_lower_bound after_seq s < n \<longleftrightarrow> record_sequence_lower_bound after_seq 0 < n \<and> s < n" for n
    by (auto simp: record_sequence_lower_bound_def i64_max_def split: option.splits)
  have same: "filter (\<lambda>r. rc_space_id r = space \<and> rc_space_seq r > record_sequence_lower_bound after_seq s
        \<and> (s, i) < record_key r \<and> matches r) (records d)
      = filter (\<lambda>r. ?P r \<and> s < rc_space_seq r) (records d)"
    by (intro filter_cong refl) (auto simp: bound record_key_def)
  have "distinct (map (\<lambda>r. (rc_space_id r, rc_space_seq r)) (filter (\<lambda>r. ?P r \<and> s < rc_space_seq r) (records d)))"
    using assms by (auto simp: schema_ok_def records_ok_def intro: distinct_map_filter)
  then have "distinct (map rc_space_seq (filter (\<lambda>r. ?P r \<and> s < rc_space_seq r) (records d)))"
    by (auto simp: distinct_map inj_on_def)
  then have "sort_key record_key (filter (\<lambda>r. ?P r \<and> s < rc_space_seq r) (records d))
      = sort_key rc_space_seq (filter (\<lambda>r. ?P r \<and> s < rc_space_seq r) (records d))"
    by (rule sort_key_unique) (simp add: record_key_def)
  then show ?thesis
    by (simp only: record_ids_after_def same keyset_rows_def)
qed

definition record_seq :: "db \<Rightarrow> string \<Rightarrow> int" where
  "record_seq d i = (case find_record d i of Some r \<Rightarrow> rc_space_seq r | None \<Rightarrow> 0)"

lemma record_seq_row:
  assumes "schema_ok d" "r \<in> set (records d)"
  shows "record_seq d (rc_id r) = rc_space_seq r"
  using find_distinct [of rc_id "records d" r] assms
  by (simp add: record_seq_def find_record_def schema_ok_def records_ok_def)


end
