(* ===== verification/Inbox.thy ===== *)
theory Inbox
  imports Paging
begin

text \<open>
  The recipient side (journal-service/src/inbox.rs): listing an inbox page by page up to a fixed
  upper bound, acknowledging an item, and the delivery status of a record.
\<close>

definition in_state :: "inbox_state \<Rightarrow> mailbox_row \<Rightarrow> bool" where
  "in_state st m = (case st of
      Unacknowledged \<Rightarrow> mi_acknowledged_at m = None
    | Acknowledged \<Rightarrow> mi_acknowledged_at m \<noteq> None
    | AllItems \<Rightarrow> True)"

text \<open>The page query: the JOINs keep the items whose record is in a public space.\<close>

definition visible_item :: "db \<Rightarrow> mailbox_row \<Rightarrow> bool" where
  "visible_item d m = (case find_record d (mi_record_id m) of
      Some r \<Rightarrow> list_ex (\<lambda>s. sp_id s = rc_space_id r \<and> sp_access s = ''public'') (spaces d)
    | None \<Rightarrow> False)"

definition inbox_rows :: "db \<Rightarrow> string \<Rightarrow> inbox_state \<Rightarrow> int \<Rightarrow> int \<Rightarrow> mailbox_row list" where
  "inbox_rows d actor st after upper =
     sort_key mi_seq (filter (\<lambda>m. mi_recipient m = actor \<and> mi_seq m > after \<and> mi_seq m \<le> upper
        \<and> in_state st m \<and> visible_item d m) (mailbox_items d))"

definition inbox_upper :: "db \<Rightarrow> string \<Rightarrow> int" where
  "inbox_upper d actor = fold max (map mi_seq (filter (\<lambda>m. mi_recipient m = actor) (mailbox_items d))) 0"

definition inbox_item_of :: "db \<Rightarrow> string \<Rightarrow> mailbox_row \<Rightarrow> berror + inbox_item" where
  "inbox_item_of d actor m =
     and_then (record_of d (mi_record_id m)) (\<lambda>record.
     Inr \<lparr>ii_inbox_item_id = mi_id m, ii_recipient = actor, ii_seq = mi_seq m, ii_created_at = mi_created_at m,
       ii_acknowledged_at = mi_acknowledged_at m, ii_record = record\<rparr>)"

definition inbox_bounds :: "env \<Rightarrow> cursor_codec \<Rightarrow> cursor_scope \<Rightarrow> page_query \<Rightarrow> string \<Rightarrow> db \<Rightarrow> berror + int \<times> int" where
  "inbox_bounds E codec scope query actor d =
     (case presented_cursor query of
        Some cursor \<Rightarrow>
          and_then (decode_cursor E codec scope cursor) (\<lambda>position.
          case position of
            BoundedSequence n u \<Rightarrow>
              if n \<le> u \<and> uint u \<le> i64_max then Inr (uint n, uint u) else Inl InvalidJournal
          | _ \<Rightarrow> Inl InvalidJournal)
      | None \<Rightarrow> Inr (0, inbox_upper d actor))"

definition inbox_scope :: "env \<Rightarrow> string \<Rightarrow> inbox_state \<Rightarrow> int \<Rightarrow> cursor_scope" where
  "inbox_scope E actor st epoch =
     filters_scope E RInbox [JStr actor, JStr (inbox_state_as_str st), JInt epoch] OBoundedSequence"

definition inbox_page :: "env \<Rightarrow> string \<Rightarrow> inbox_query \<Rightarrow> db \<Rightarrow> berror + inbox_item page" where
  "inbox_page E actor query d =
     (let scope = inbox_scope E actor (iq_state query) (inbox_epoch d) in
      case cursor_secret d of
        None \<Rightarrow>
          if presented_cursor (iq_page query) \<noteq> None then Inl InvalidJournal
          else if mailbox_items d \<noteq> [] then Inl CorruptJournal
          else Inr \<lparr>items = [], next_cursor = None\<rparr>
      | Some key \<Rightarrow>
          and_then (map_err (\<lambda>_. CorruptJournal) (cursor_codec_new (env_crypto E) key)) (\<lambda>codec.
          and_then (inbox_bounds E codec scope (iq_page query) actor d) (\<lambda>(after, upper).
          and_then (try_map (inbox_item_of d actor)
            (take (effective_limit (iq_page query) + 1) (inbox_rows d actor (iq_state query) after upper))) (\<lambda>xs.
          finish_page E xs (iq_page query) codec scope
            (\<lambda>item. BoundedSequence (as_u64 (ii_seq item)) (as_u64 upper))))))"

definition inbox :: "env \<Rightarrow> string \<Rightarrow> inbox_query \<Rightarrow> (store, inbox_item page) prog" where
  "inbox E token query =
     bind (lift (map_err Invalid (validate_inbox_query query))) (\<lambda>_.
     read E (
       bind (journal_actor E token) (\<lambda>actor.
       reads (inbox_page E actor query))))"

section \<open>Acknowledging\<close>

definition owned_item_space :: "db \<Rightarrow> string \<Rightarrow> string \<Rightarrow> berror + string" where
  "owned_item_space d item actor =
     ok_or NotFound (Option.bind (find (\<lambda>m. mi_id m = item \<and> mi_recipient m = actor) (mailbox_items d))
       (\<lambda>m. map_option rc_space_id (find_record d (mi_record_id m))))"

definition set_acknowledged :: "string \<Rightarrow> string \<Rightarrow> db \<Rightarrow> sqlite_error + db \<times> nat" where
  "set_acknowledged item at_time d =
     (let hit = (\<lambda>m. mi_id m = item \<and> mi_acknowledged_at m = None) in
      Inr (d\<lparr>mailbox_items := map (\<lambda>m. if hit m then m\<lparr>mi_acknowledged_at := Some at_time\<rparr> else m) (mailbox_items d)\<rparr>,
           length (filter hit (mailbox_items d))))"

definition acknowledge_tx :: "env \<Rightarrow> string \<Rightarrow> string \<Rightarrow> (db, unit) prog" where
  "acknowledge_tx E token item =
     bind (journal_actor E token) (\<lambda>actor.
     bind (reads (\<lambda>d. owned_item_space d item actor)) (\<lambda>space.
     bind (reads (\<lambda>d. permitted d actor space False)) (\<lambda>_.
     bind (now E) (\<lambda>now.
     bind (update (set_acknowledged item now)) (\<lambda>_.
     checkpoint E ''inbox-acknowledged'')))))"

definition acknowledge_inbox_item :: "env \<Rightarrow> string \<Rightarrow> string \<Rightarrow> (store, unit) prog" where
  "acknowledge_inbox_item E token item =
     bind (lift (map_err Invalid (validate_mailbox_item_path item))) (\<lambda>_.
     transaction E (acknowledge_tx E token item))"

section \<open>Delivery status\<close>

definition receipt_rows :: "db \<Rightarrow> string \<Rightarrow> bool \<Rightarrow> string \<Rightarrow> string \<Rightarrow> mailbox_row list" where
  "receipt_rows d i all_recipients actor after =
     sort_key mi_id (filter (\<lambda>m. mi_record_id m = i \<and> (all_recipients \<or> mi_recipient m = actor)
        \<and> after < mi_id m) (mailbox_items d))"

definition receipt_of :: "mailbox_row \<Rightarrow> receipt_summary" where
  "receipt_of m = \<lparr>rs_inbox_item_id = mi_id m, rs_recipient = mi_recipient m,
     rs_state = (if mi_acknowledged_at m \<noteq> None then RAcknowledged else RUnacknowledged),
     rs_created_at = mi_created_at m, rs_acknowledged_at = mi_acknowledged_at m\<rparr>"

definition delivery_page :: "env \<Rightarrow> string \<Rightarrow> string \<Rightarrow> page_query \<Rightarrow> db \<Rightarrow> berror + receipt_summary page" where
  "delivery_page E actor i query d =
     and_then (ok_or NotFound (find_record d i)) (\<lambda>r.
     and_then (permitted d actor (rc_space_id r) False) (\<lambda>_.
     and_then (ensure (rc_author r = actor
         \<or> list_ex (\<lambda>m. mi_record_id m = i \<and> mi_recipient m = actor) (mailbox_items d)) NotFound) (\<lambda>_.
     and_then (ok_or (from_sqlite QueryReturnedNoRows) (cursor_secret d)) (\<lambda>key.
     and_then (map_err (\<lambda>_. CorruptJournal) (cursor_codec_new (env_crypto E) key)) (\<lambda>codec.
     let scope = filters_scope E RRecordDeliveryStatus [JStr actor, JStr i] OIdentifier in
     and_then (identifier_position E codec scope query) (\<lambda>after.
     finish_page E (map receipt_of (take (effective_limit query + 1)
         (receipt_rows d i (rc_author r = actor) actor after))) query codec scope
       (\<lambda>x. Identifier (rs_inbox_item_id x))))))))"

definition delivery_status_as :: "env \<Rightarrow> read_identity \<Rightarrow> string \<Rightarrow> page_query \<Rightarrow> (store, receipt_summary page) prog" where
  "delivery_status_as E identity i query =
     bind (lift (map_err Invalid (validate_record_path i))) (\<lambda>_.
     bind (lift (map_err Invalid (validate_page_query query))) (\<lambda>_.
     read E (
       bind (read_actor E identity) (\<lambda>actor.
       reads (delivery_page E actor i query)))))"

definition delivery_status :: "env \<Rightarrow> string \<Rightarrow> string \<Rightarrow> page_query \<Rightarrow> (store, receipt_summary page) prog" where
  "delivery_status E token i query = delivery_status_as E (Bearer token) i query"

section \<open>The shared viewer\<close>

text \<open>\<open>SharedViewer\<close> reads as one configured principal.\<close>

definition viewer_record :: "env \<Rightarrow> string \<Rightarrow> string \<Rightarrow> (store, journal_record) prog" where
  "viewer_record E prin i = get_record_as E (ConfiguredViewer prin) i"

definition viewer_spaces :: "env \<Rightarrow> string \<Rightarrow> page_query \<Rightarrow> (store, space page) prog" where
  "viewer_spaces E prin query = list_spaces_as E (ConfiguredViewer prin) query"

definition viewer_records :: "env \<Rightarrow> string \<Rightarrow> string \<Rightarrow> list_records_query \<Rightarrow> (store, journal_record page) prog" where
  "viewer_records E prin space query = list_records_as E (ConfiguredViewer prin) space query"

definition viewer_thread :: "env \<Rightarrow> string \<Rightarrow> string \<Rightarrow> page_query \<Rightarrow> (store, journal_record page) prog" where
  "viewer_thread E prin i query = get_thread_as E (ConfiguredViewer prin) i query"

definition viewer_thread_root :: "env \<Rightarrow> string \<Rightarrow> string \<Rightarrow> (store, journal_record \<times> bool) prog" where
  "viewer_thread_root E prin i = get_thread_root_as E (ConfiguredViewer prin) i"

definition viewer_delivery :: "env \<Rightarrow> string \<Rightarrow> string \<Rightarrow> page_query \<Rightarrow> (store, receipt_summary page) prog" where
  "viewer_delivery E prin i query = delivery_status_as E (ConfiguredViewer prin) i query"

section \<open>Acknowledging: counted, keeps the schema\<close>

lemma set_acknowledged_schema: "keeps preserves_schema (update (set_acknowledged item t))"
proof (rule schema_update)
  fix d d' n assume a: "set_acknowledged item t d = Inr (d', n)" and ok: "schema_ok d"
  define g where "g m = (if mi_id m = item \<and> mi_acknowledged_at m = None
    then m\<lparr>mi_acknowledged_at := Some t\<rparr> else m)" for m :: mailbox_row
  have d': "d' = d\<lparr>mailbox_items := map g (mailbox_items d)\<rparr>"
    using a by (auto simp: set_acknowledged_def Let_def g_def)
  have "mi_id (g m) = mi_id m" "mi_recipient (g m) = mi_recipient m" "mi_record_id (g m) = mi_record_id m"
    "mi_seq (g m) = mi_seq m" for m
    by (simp_all add: g_def)
  then show "schema_ok d'"
    using ok by (simp add: d' ok_frame comp_def image_image)
qed

lemma acknowledge_counted: "keeps counted (acknowledge_tx E token item)"
  unfolding acknowledge_tx_def by (intro counted_rules db_counting.keeps_actor)

lemma acknowledge_schema: "keeps preserves_schema (acknowledge_tx E token item)"
  unfolding acknowledge_tx_def by (intro schema_rules db_schema.keeps_actor set_acknowledged_schema)

text \<open>The row after an acknowledgement at \<open>t\<close>: an earlier acknowledgement stays.\<close>

definition acknowledged_at :: "string \<Rightarrow> mailbox_row \<Rightarrow> mailbox_row" where
  "acknowledged_at t m = m\<lparr>mi_acknowledged_at := Some (case mi_acknowledged_at m of Some t0 \<Rightarrow> t0 | None \<Rightarrow> t)\<rparr>"

lemma set_acknowledgedD:
  assumes "update (set_acknowledged item t) (d, z) = (Inr n, d1, z1)" "schema_ok d"
    and "m \<in> set (mailbox_items d)" "mi_id m = item"
  shows "mailbox_items d1 = map (\<lambda>x. if mi_id x = item then acknowledged_at t x else x) (mailbox_items d)
    \<and> (\<exists>k. d1 = d\<lparr>mailbox_items := mailbox_items d1, total_changes := k\<rparr>)
    \<and> (mi_acknowledged_at m \<noteq> None \<longrightarrow> d1 = d)"
proof -
  let ?hit = "\<lambda>m. mi_id m = item \<and> mi_acknowledged_at m = None"
  have row: "acknowledged_at t x = (if mi_acknowledged_at x = None then x\<lparr>mi_acknowledged_at := Some t\<rparr> else x)" for x
    by (cases x) (auto simp: acknowledged_at_def split: option.splits)
  have same: "map (\<lambda>x. if ?hit x then x\<lparr>mi_acknowledged_at := Some t\<rparr> else x) xs
      = map (\<lambda>x. if mi_id x = item then acknowledged_at t x else x) xs" for xs
    by (auto simp: row)
  have idle: "map (\<lambda>x. if mi_id x = item then acknowledged_at t x else x) xs = xs" if "filter ?hit xs = []" for xs
    using that by (auto simp: filter_empty_conv row intro!: map_idI)
  have "\<exists>d'. set_acknowledged item t d = Inr (d', n)
      \<and> d1 = (if n = 0 then d else d'\<lparr>total_changes := total_changes d + n\<rparr>)"
    using assms(1) by (auto simp: update_Inr)
  then have d1: "n = length (filter ?hit (mailbox_items d))"
      "d1 = (if n = 0 then d else d\<lparr>mailbox_items := map (\<lambda>x. if mi_id x = item then acknowledged_at t x else x)
         (mailbox_items d), total_changes := total_changes d + n\<rparr>)"
    by (auto simp: set_acknowledged_def Let_def same)
  have "filter ?hit (mailbox_items d) = []" if "mi_acknowledged_at m \<noteq> None"
  proof -
    have "x = m" if "x \<in> set (mailbox_items d)" "mi_id x = item" for x
      using that assms(2-4) by (auto simp: schema_ok_def mailbox_ok_def distinct_map inj_on_def)
    then show ?thesis
      using that by (auto simp: filter_empty_conv)
  qed
  then have quiet: "mi_acknowledged_at m \<noteq> None \<longrightarrow> n = 0"
    using d1(1) by simp
  show ?thesis
  proof (cases "n = 0")
    case True
    then have "d1 = d" "filter ?hit (mailbox_items d) = []" using d1 by simp_all
    then show ?thesis
      using idle [of "mailbox_items d"] by (intro conjI exI [of _ "total_changes d"]) simp_all
  next
    case False
    then show ?thesis
      using d1(2) quiet by (intro conjI exI [of _ "total_changes d + n"]) simp_all
  qed
qed

text \<open>C3. Only the recipient acknowledges, and only once. A successful acknowledgement names an
  item addressed to the authenticated caller; it marks that item and changes nothing else of the
  journal; an item that was acknowledged before keeps its first acknowledgement time, and then the
  request changes nothing at all.\<close>

theorem acknowledgement_is_owned_and_final:
  assumes "acknowledge_tx E token item (d, z) = (Inr (), d1, z1)" "schema_ok d"
  shows "\<exists>actor m t za. journal_actor E token (d, z) = (Inr actor, d, za)
    \<and> m \<in> set (mailbox_items d) \<and> mi_id m = item \<and> mi_recipient m = actor
    \<and> mailbox_items d1 = map (\<lambda>x. if mi_id x = item then acknowledged_at t x else x) (mailbox_items d)
    \<and> (\<exists>k. d1 = d\<lparr>mailbox_items := mailbox_items d1, total_changes := k\<rparr>)
    \<and> (mi_acknowledged_at m \<noteq> None \<longrightarrow> d1 = d)"
proof -
  from assms(1) obtain actor da za space t zb n where
    st: "journal_actor E token (d, z) = (Inr actor, da, za)" "owned_item_space da item actor = Inr space"
    "update (set_acknowledged item t) (da, zb) = (Inr n, d1, z1)"
    unfolding acknowledge_tx_def by (auto simp: bind_Inr reads_Inr now_Inr checkpoint_Inr)
  have da: "da = d"
    using unchangedD [OF unchanged.keeps_journal_actor st(1)] .
  obtain m where m: "m \<in> set (mailbox_items d)" "mi_id m = item" "mi_recipient m = actor"
    using st(2) da by (auto simp: owned_item_space_def result_simps bind_eq_Some_conv dest: find_SomeD)
  show ?thesis
    using st(1) m set_acknowledgedD [OF st(3) [unfolded da] assms(2) m(1,2)] unfolding da by blast
qed

section \<open>Reading an inbox to its end\<close>

lemma find_record_exists:
  assumes "schema_ok d" "i \<in> rc_id ` set (records d)"
  obtains r where "find_record d i = Some r" "r \<in> set (records d)"
  using assms find_distinct [of rc_id "records d"]
  by (auto simp: find_record_def schema_ok_def records_ok_def)

lemma record_of_exists:
  assumes "schema_ok d" "i \<in> rc_id ` set (records d)"
  obtains r where "record_of d i = Inr r"
proof -
  obtain x where x: "find_record d i = Some x"
    using assms by (rule find_record_exists)
  have "\<exists>y. relation_of_row z = Inr y" if "z \<in> set (relations_of d i)" for z
  proof -
    have "re_type z \<in> set (map relation_as_str RELATION_TYPES)"
      using that assms(1) by (auto simp: relations_of_def schema_ok_def records_ok_def)
    then show ?thesis
      by (auto simp: relation_of_row_def)
  qed
  then obtain f where "\<And>z. z \<in> set (relations_of d i) \<Longrightarrow> relation_of_row z = Inr (f z)"
    by metis
  then have "try_map relation_of_row (relations_of d i) = Inr (map f (relations_of d i))"
    by (rule try_map_total)
  with x that show thesis
    by (simp add: record_of_def)
qed

lemma visible_items:
  assumes "schema_ok d" "m \<in> set (mailbox_items d)"
  shows "visible_item d m"
proof -
  have "mi_record_id m \<in> rc_id ` set (records d)"
    using assms by (auto simp: schema_ok_def mailbox_ok_def)
  then obtain r where r: "find_record d (mi_record_id m) = Some r" "r \<in> set (records d)"
    by (rule find_record_exists [OF assms(1)])
  then have "rc_space_id r \<in> sp_id ` set (spaces d)"
    using assms(1) by (auto simp: schema_ok_def records_ok_def)
  then obtain s where "s \<in> set (spaces d)" "sp_id s = rc_space_id r"
    by force
  moreover from this have "sp_access s = ''public''"
    using assms(1) by (auto simp: schema_ok_def spaces_ok_def)
  ultimately show ?thesis
    using r by (auto simp: visible_item_def list_ex_iff)
qed

lemma fold_max_le: "(\<And>x. x \<in> set xs \<Longrightarrow> x \<le> u) \<Longrightarrow> a \<le> u \<Longrightarrow> fold max xs a \<le> (u :: int)"
  by (induction xs arbitrary: a) auto

lemma fold_max_ge: "a \<le> fold max xs a \<and> (\<forall>x \<in> set xs. x \<le> fold max xs (a :: int))"
proof (induction xs arbitrary: a)
  case (Cons x xs)
  show ?case using Cons.IH [of "max x a"] by auto
qed simp

lemma inbox_upper_bounds:
  assumes "schema_ok d"
  shows "0 \<le> inbox_upper d actor" "inbox_upper d actor \<le> i64_max"
    and "m \<in> set (mailbox_items d) \<Longrightarrow> mi_recipient m = actor \<Longrightarrow> mi_seq m \<le> inbox_upper d actor"
  using assms fold_max_ge [of 0 "map mi_seq (filter (\<lambda>m. mi_recipient m = actor) (mailbox_items d))"]
  by (auto simp: inbox_upper_def schema_ok_def mailbox_ok_def i64_max_def intro!: fold_max_le)

lemma seq_bounds:
  assumes "schema_ok d" "m \<in> set (mailbox_items d)"
  shows "0 < mi_seq m" "mi_seq m \<le> i64_max"
  using assms by (auto simp: schema_ok_def mailbox_ok_def)

lemma uint_as_u64: "0 \<le> i \<Longrightarrow> i \<le> i64_max \<Longrightarrow> uint (as_u64 i) = i"
  by (simp add: as_u64_def i64_max_def uint_word_of_int take_bit_int_eq_self_iff)

interpretation inbox_listing: keyset_table "mailbox_items (Rep_ok_db d)"
    "\<lambda>m. mi_recipient m = actor \<and> matches m" mi_seq for d actor matches
proof
  have "distinct (map (\<lambda>m. (mi_recipient m, mi_seq m)) (mailbox_items (Rep_ok_db d)))"
    using Rep_ok [of d] by (simp add: schema_ok_def mailbox_ok_def)
  then have "distinct (map (\<lambda>m. (mi_recipient m, mi_seq m)) (filter P (mailbox_items (Rep_ok_db d))))" for P
    by (rule distinct_map_filter)
  then show "distinct (map mi_seq (filter (\<lambda>m. mi_recipient m = actor \<and> matches m) (mailbox_items (Rep_ok_db d))))"
    by (auto simp: distinct_map inj_on_def)
qed

lemma inbox_rows_keyset:
  "inbox_rows d actor st a upper = keyset_rows (mailbox_items d)
     (\<lambda>m. mi_recipient m = actor \<and> (mi_seq m \<le> upper \<and> in_state st m \<and> visible_item d m)) mi_seq a"
  unfolding inbox_rows_def keyset_rows_def by (intro arg_cong [where f = "sort_key mi_seq"] filter_cong) auto

definition inbox_view :: "db \<Rightarrow> string \<Rightarrow> mailbox_row \<Rightarrow> inbox_item" where
  "inbox_view d actor m = \<lparr>ii_inbox_item_id = mi_id m, ii_recipient = actor, ii_seq = mi_seq m, ii_created_at = mi_created_at m,
     ii_acknowledged_at = mi_acknowledged_at m, ii_record = projr (record_of d (mi_record_id m))\<rparr>"

lemma inbox_item_of_view:
  assumes "schema_ok d" "m \<in> set (mailbox_items d)"
  shows "inbox_item_of d actor m = Inr (inbox_view d actor m)"
proof -
  have "mi_record_id m \<in> rc_id ` set (records d)"
    using assms by (auto simp: schema_ok_def mailbox_ok_def)
  then obtain r where "record_of d (mi_record_id m) = Inr r"
    by (rule record_of_exists [OF assms(1)])
  then show ?thesis
    by (simp add: inbox_item_of_def inbox_view_def)
qed

text \<open>A client of \<open>inbox\<close>: the cursor key exists, and the cursors of its items print, parse and fit.\<close>

definition reader_codec :: "env \<Rightarrow> byte list \<Rightarrow> cursor_codec" where
  "reader_codec E key = \<lparr>cc_key = sha256 (env_crypto E) key\<rparr>"

definition item_position :: "db \<Rightarrow> string \<Rightarrow> mailbox_row \<Rightarrow> cursor_position" where
  "item_position d actor m = BoundedSequence (as_u64 (mi_seq m)) (as_u64 (inbox_upper d actor))"

locale inbox_reader =
  fixes E :: env and d :: db and actor :: string and st :: inbox_state and secret_key :: "byte list"
  assumes ok: "schema_ok d" and stored: "cursor_secret d = Some secret_key"
    and laws: "crypto_laws (env_crypto E)"
    and payloads: "m \<in> set (mailbox_items d) \<Longrightarrow> json_roundtrips (json_codec (env_crypto E))
      (payload_json (scope_payload (env_crypto E) (inbox_scope E actor st (inbox_epoch d)) (item_position d actor m)))"
    and fit: "m \<in> set (mailbox_items d) \<Longrightarrow>
      \<exists>c. cursor_encode (env_crypto E) (reader_codec E secret_key) (inbox_scope E actor st (inbox_epoch d)) (item_position d actor m) = Inr c"
begin

abbreviation codec :: cursor_codec where
  "codec \<equiv> reader_codec E secret_key"

abbreviation scope :: cursor_scope where
  "scope \<equiv> inbox_scope E actor st (inbox_epoch d)"

lemma key_accepted: "cursor_codec_new (env_crypto E) secret_key = Inr codec"
proof -
  have "length secret_key = 32"
    using ok stored by (simp add: schema_ok_def keys_ok_def)
  then show ?thesis
    by (simp add: cursor_codec_new_def MIN_KEY_BYTES_def reader_codec_def)
qed

lemma rows_in_table: "m \<in> set (inbox_rows d actor st a upper) \<Longrightarrow> m \<in> set (mailbox_items d) \<and> mi_recipient m = actor"
  by (simp add: inbox_rows_def)

lemma page_after:
  assumes "inbox_bounds E codec scope q actor d = Inr (a, inbox_upper d actor)"
  shows "inbox_page E actor \<lparr>iq_state = st, iq_page = q, iq_wait_seconds = w\<rparr> d
    = finish_page E (map (inbox_view d actor) (take (effective_limit q + 1) (inbox_rows d actor st a (inbox_upper d actor))))
        q codec scope (\<lambda>item. BoundedSequence (as_u64 (ii_seq item)) (as_u64 (inbox_upper d actor)))"
proof -
  have "try_map (inbox_item_of d actor) (take k (inbox_rows d actor st a (inbox_upper d actor)))
      = Inr (map (inbox_view d actor) (take k (inbox_rows d actor st a (inbox_upper d actor))))" for k
    by (rule try_map_total) (auto simp: inbox_rows_def intro!: inbox_item_of_view ok dest!: in_set_takeD)
  then show ?thesis
    using assms key_accepted by (simp add: inbox_page_def stored Let_def)
qed

lemma cursor_nonempty: "cursor_encode C K s p = Inr c \<Longrightarrow> c \<noteq> []"
  by (auto simp: cursor_encode_eq_Inr)

lemma resumed_bounds:
  assumes "m \<in> set (mailbox_items d)" "mi_recipient m = actor"
    and c: "cursor_encode (env_crypto E) codec scope (item_position d actor m) = Inr c" and "q_cursor q = Some c"
  shows "inbox_bounds E codec scope q actor d = Inr (mi_seq m, inbox_upper d actor)"
proof -
  have "presented_cursor q = Some c"
    using assms(4) cursor_nonempty [OF c] by (simp add: presented_cursor_def)
  moreover have "cursor_decode (env_crypto E) codec scope c = Inr (item_position d actor m)"
    using cursor_encode_decode [OF laws payloads [OF assms(1)] c] .
  moreover have "uint (as_u64 (mi_seq m)) = mi_seq m" "uint (as_u64 (inbox_upper d actor)) = inbox_upper d actor"
    using seq_bounds [OF ok assms(1)] inbox_upper_bounds(1,2) [OF ok] by (simp_all add: uint_as_u64)
  moreover have "mi_seq m \<le> inbox_upper d actor" "inbox_upper d actor \<le> i64_max"
    using inbox_upper_bounds [OF ok] assms(1,2) by simp_all
  ultimately show ?thesis
    by (simp add: inbox_bounds_def decode_cursor_def item_position_def word_le_def)
qed

end

sublocale inbox_reader \<subseteq> cursor_listing "\<lambda>a. inbox_rows d actor st a (inbox_upper d actor)" mi_seq
    "\<lambda>q. inbox_page E actor \<lparr>iq_state = st, iq_page = q, iq_wait_seconds = 0\<rparr> d" 0 "inbox_view d actor" E codec scope
    "\<lambda>item. BoundedSequence (as_u64 (ii_seq item)) (as_u64 (inbox_upper d actor))"
proof (intro cursor_listing.intro cursor_listing_axioms.intro)
  obtain x where x: "d = Rep_ok_db x"
    using ok_db_of [OF ok] by blast
  show "keyset_query (\<lambda>a. inbox_rows d actor st a (inbox_upper d actor)) mi_seq"
    unfolding inbox_rows_keyset x by (rule inbox_listing.keyset_query_axioms)
  have pos: "BoundedSequence (as_u64 (ii_seq (inbox_view d actor m))) (as_u64 (inbox_upper d actor)) = item_position d actor m" for m
    by (simp add: inbox_view_def item_position_def)
  fix q m c
  show "q_cursor q = None \<Longrightarrow> inbox_page E actor \<lparr>iq_state = st, iq_page = q, iq_wait_seconds = 0\<rparr> d
    = finish_page E (map (inbox_view d actor) (take (effective_limit q + 1) (inbox_rows d actor st 0 (inbox_upper d actor))))
        q codec scope (\<lambda>item. BoundedSequence (as_u64 (ii_seq item)) (as_u64 (inbox_upper d actor)))"
    by (rule page_after) (simp add: inbox_bounds_def presented_cursor_def)
  assume m: "m \<in> set (inbox_rows d actor st 0 (inbox_upper d actor))"
  show "\<exists>c. cursor_encode (env_crypto E) codec scope
      (BoundedSequence (as_u64 (ii_seq (inbox_view d actor m))) (as_u64 (inbox_upper d actor))) = Inr c"
    unfolding pos using fit rows_in_table [OF m] by blast
  show "cursor_encode (env_crypto E) codec scope
      (BoundedSequence (as_u64 (ii_seq (inbox_view d actor m))) (as_u64 (inbox_upper d actor))) = Inr c \<Longrightarrow>
    q_cursor q = Some c \<Longrightarrow> inbox_page E actor \<lparr>iq_state = st, iq_page = q, iq_wait_seconds = 0\<rparr> d
    = finish_page E (map (inbox_view d actor) (take (effective_limit q + 1) (inbox_rows d actor st (mi_seq m) (inbox_upper d actor))))
        q codec scope (\<lambda>item. BoundedSequence (as_u64 (ii_seq item)) (as_u64 (inbox_upper d actor)))"
    unfolding pos using rows_in_table [OF m] by (intro page_after resumed_bounds) auto
qed

context inbox_reader
begin

lemma reader_complete:
  "0 < n \<Longrightarrow> length (inbox_rows d actor st 0 (inbox_upper d actor)) < fuel \<Longrightarrow>
    drain (\<lambda>q. inbox_page E actor \<lparr>iq_state = st, iq_page = q, iq_wait_seconds = 0\<rparr> d) n fuel None
    = Inr (map (inbox_view d actor) (inbox_rows d actor st 0 (inbox_upper d actor)))"
  by (rule drain_complete)

end

lemma inbox_rows_all:
  assumes "schema_ok d"
  shows "inbox_rows d actor st 0 (inbox_upper d actor)
    = sort_key mi_seq (filter (\<lambda>m. mi_recipient m = actor \<and> in_state st m) (mailbox_items d))"
  unfolding inbox_rows_def
  by (intro arg_cong [where f = "sort_key mi_seq"] filter_cong refl)
    (use assms in \<open>auto simp: seq_bounds inbox_upper_bounds visible_items\<close>)

text \<open>C21. An inbox is read completely through its opaque cursors. A client that keeps presenting
  the cursor of the last page receives every item of the authenticated recipient in the requested
  state, each exactly once and in inbox order, whatever the page size: the signed cursor decodes to
  the position it was issued for, and the upper bound fixed by the first page cuts nothing off.\<close>

theorem inbox_is_read_completely:
  assumes "schema_ok d" "cursor_secret d = Some key" "crypto_laws (env_crypto E)"
    and "\<forall>m \<in> set (mailbox_items d). json_roundtrips (json_codec (env_crypto E))
      (payload_json (scope_payload (env_crypto E) (inbox_scope E actor st (inbox_epoch d)) (item_position d actor m)))"
    and "\<forall>m \<in> set (mailbox_items d). \<exists>c. cursor_encode (env_crypto E) (reader_codec E key)
      (inbox_scope E actor st (inbox_epoch d)) (item_position d actor m) = Inr c"
    and "0 < n" "length (mailbox_items d) < fuel"
  shows "drain (\<lambda>q. inbox_page E actor \<lparr>iq_state = st, iq_page = q, iq_wait_seconds = 0\<rparr> d) n fuel None
    = Inr (map (inbox_view d actor)
        (sort_key mi_seq (filter (\<lambda>m. mi_recipient m = actor \<and> in_state st m) (mailbox_items d))))"
proof -
  have "inbox_reader E d actor st key"
    using assms(1-5) by unfold_locales blast+
  moreover have "length (inbox_rows d actor st 0 (inbox_upper d actor)) < fuel"
    using assms(7) by (auto simp: inbox_rows_def intro: le_less_trans [OF length_filter_le])
  ultimately show ?thesis
    using inbox_reader.reader_complete [OF _ assms(6)] inbox_rows_all [OF assms(1)] by simp
qed

lemma finish_page_items: "finish_page E xs q codec scope pos = Inr p \<Longrightarrow> set (items p) \<subseteq> set xs"
  by (auto simp: finish_page_def Let_def result_simps split: if_splits dest: in_set_takeD)

lemma rs_recipient_of: "rs_recipient (receipt_of m) = mi_recipient m"
  by (simp add: receipt_of_def)

text \<open>C24. Delivery status is private. Only the author of a record and its recipients see any of
  it, a recipient who is not the author sees only its own receipt, and every receipt shown is the
  state of an inbox item of that record.\<close>

theorem delivery_status_is_private:
  assumes "delivery_page E actor i q d = Inr p"
  shows "\<exists>r. find_record d i = Some r
    \<and> (rc_author r = actor \<or> (\<exists>m \<in> set (mailbox_items d). mi_record_id m = i \<and> mi_recipient m = actor))
    \<and> (\<forall>x \<in> set (items p). (\<exists>m \<in> set (mailbox_items d). mi_record_id m = i \<and> x = receipt_of m)
         \<and> (rc_author r \<noteq> actor \<longrightarrow> rs_recipient x = actor))"
proof -
  from assms obtain r after codec scope where
    r: "find_record d i = Some r"
    "rc_author r = actor \<or> list_ex (\<lambda>m. mi_record_id m = i \<and> mi_recipient m = actor) (mailbox_items d)"
    and page: "finish_page E (map receipt_of (take (effective_limit q + 1)
         (receipt_rows d i (rc_author r = actor) actor after))) q codec scope (\<lambda>x. Identifier (rs_inbox_item_id x)) = Inr p"
    by (auto simp: delivery_page_def result_simps Let_def)
  have "set (items p) \<subseteq> receipt_of ` set (receipt_rows d i (rc_author r = actor) actor after)"
    using finish_page_items [OF page] by (auto dest: in_set_takeD)
  then have "(\<exists>m \<in> set (mailbox_items d). mi_record_id m = i \<and> x = receipt_of m)
      \<and> (rc_author r \<noteq> actor \<longrightarrow> rs_recipient x = actor)" if "x \<in> set (items p)" for x
    using that by (auto simp: receipt_rows_def rs_recipient_of)
  then show ?thesis
    using r by (auto simp: list_ex_iff)
qed

end
