(* ===== verification/Threads.thy ===== *)
theory Threads
  imports Records
begin

text \<open>
  The bounded traversal of reply threads (\<open>thread_root_id\<close> and \<open>thread_ids\<close> of records.rs): its
  budget arithmetic never underflows, and a traversal that succeeds returns exactly the tree of
  replies below the root, the anchor included.
\<close>

section \<open>The reply relation\<close>

definition replies :: "db \<Rightarrow> string \<Rightarrow> string \<Rightarrow> string \<Rightarrow> bool" where
  "replies d space p c \<longleftrightarrow> c \<in> set (reply_children d space p)"

text \<open>The nodes below \<open>p\<close>, \<open>p\<close> included.\<close>

definition subthread :: "db \<Rightarrow> string \<Rightarrow> string \<Rightarrow> string set" where
  "subthread d space p = {x. (replies d space)\<^sup>*\<^sup>* p x}"

lemma subthread_unfold: "subthread d space p = insert p (\<Union>c \<in> set (reply_children d space p). subthread d space c)"
  by (auto simp: subthread_def replies_def elim: converse_rtranclpE intro: converse_rtranclp_into_rtranclp)

section \<open>The descent\<close>

lemma usize_sub_Inr [result_simps]: "usize_sub a b = Inr c \<longleftrightarrow> b \<le> a \<and> c = a - b"
  by (auto simp: usize_sub_def)

text \<open>Within the budgets every subtraction of the loop stays above zero.\<close>

lemma thread_descend_not_panicked:
  assumes "length seen + length pending \<le> max_nodes" "edges \<le> max_edges"
  shows "thread_descend d space max_depth max_nodes max_edges pending seen result edges \<noteq> Inl Panicked"
  using assms
proof (induction d space max_depth max_nodes max_edges pending seen result edges rule: thread_descend.induct)
  case (1 d space max_depth max_nodes max_edges seen result edges)
  then show ?case by (simp add: thread_descend.simps)
next
  case (2 d space max_depth max_nodes max_edges i depth pending seen result edges)
  let ?r = "min (max_nodes - length (i # seen) - length pending) (max_edges - edges)"
  have subs: "and_then (usize_sub max_nodes (length (i # seen))) (\<lambda>a.
      and_then (usize_sub a (length pending)) (\<lambda>b.
      and_then (usize_sub max_edges edges) (\<lambda>c. Inr (min b c)))) = Inr ?r"
    using "2.prems" by (simp add: usize_sub_def)
  let ?cs = "take (?r + 1) (reply_children d space i)"
  show ?case
  proof (cases "i \<in> set seen \<or> length (i # seen) > max_nodes \<or> depth > max_depth \<or> \<not> in_space d space i
      \<or> length ?cs > ?r \<or> (depth = max_depth \<and> ?cs \<noteq> [])")
    case True
    then show ?thesis
      using subs by (auto simp: thread_descend.simps from_sqlite_def Let_def)
  next
    case False
    then have "thread_descend d space max_depth max_nodes max_edges
        (rev (map (\<lambda>c. (c, depth + 1)) ?cs) @ pending) (i # seen)
        (result @ [(case find_record d i of Some r \<Rightarrow> rc_space_seq r | None \<Rightarrow> 0, i)])
        (edges + length ?cs) \<noteq> Inl Panicked"
      using "2.prems" by (intro "2.IH" [OF _ _ _ subs refl]) auto
    with False show ?thesis
      using subs by (auto simp: thread_descend.simps Let_def)
  qed
qed

lemma thread_descend_exact:
  assumes "thread_descend d space max_depth max_nodes max_edges pending seen result edges = Inr out"
    "distinct seen" "map snd result = rev seen" "length seen \<le> max_nodes"
  shows "distinct (map snd out) \<and> length out \<le> max_nodes
    \<and> set (map snd out) = set seen \<union> (\<Union>p \<in> set pending. subthread d space (fst p))"
  using assms
proof (induction d space max_depth max_nodes max_edges pending seen result edges rule: thread_descend.induct)
  case (1 d space max_depth max_nodes max_edges seen result edges)
  then have "out = result" by (simp add: thread_descend.simps)
  moreover have "length result = length seen"
    using "1.prems"(3) by (metis length_map length_rev)
  ultimately show ?case using 1 by simp
next
  case (2 d space max_depth max_nodes max_edges i depth pending seen result edges)
  obtain rem where sub: "and_then (usize_sub max_nodes (length (i # seen))) (\<lambda>a.
      and_then (usize_sub a (length pending)) (\<lambda>b.
      and_then (usize_sub max_edges edges) (\<lambda>c. Inr (min b c)))) = Inr rem"
    and ok: "i \<notin> set seen" "length (i # seen) \<le> max_nodes" "\<not> depth > max_depth" "in_space d space i"
    using "2.prems"(1) by (auto simp: thread_descend.simps split: if_splits sum.splits)
  let ?cs = "take (rem + 1) (reply_children d space i)"
  have few: "\<not> (length ?cs > rem \<or> depth = max_depth \<and> ?cs \<noteq> [])"
    and rec: "thread_descend d space max_depth max_nodes max_edges (rev (map (\<lambda>c. (c, depth + 1)) ?cs) @ pending)
        (i # seen) (result @ [(case find_record d i of Some r \<Rightarrow> rc_space_seq r | None \<Rightarrow> 0, i)]) (edges + length ?cs) = Inr out"
    using "2.prems"(1) ok sub by (auto simp: thread_descend.simps Let_def split: if_splits)
  from few have all: "?cs = reply_children d space i" by simp
  have "distinct (map snd out) \<and> length out \<le> max_nodes \<and> set (map snd out) = set (i # seen)
      \<union> (\<Union>p \<in> set (rev (map (\<lambda>c. (c, depth + 1)) ?cs) @ pending). subthread d space (fst p))"
    using "2.prems"(2,3) ok rec few by (intro "2.IH" [OF _ _ _ sub refl]) auto
  then show ?case
    unfolding all using subthread_unfold [of d space i] by auto
qed

section \<open>The ascent\<close>

lemma thread_ascend_cases:
  assumes "thread_ascend d space max_depth max_nodes max_edges root ancestors edges = Inr (apex, n)"
  shows "reply_parent d space apex = None \<and> 1 \<le> max_nodes \<and> (edges \<le> max_edges \<longrightarrow> n \<le> max_edges)
    \<and> (in_space d space root \<longrightarrow> root \<in> subthread d space apex \<and> in_space d space apex)"
  using assms
proof (induction d space max_depth max_nodes max_edges root ancestors edges rule: thread_ascend.induct)
  case (1 d space max_depth max_nodes max_edges root ancestors edges)
  show ?case
  proof (cases "reply_parent d space root")
    case None
    then show ?thesis
      using "1.prems" by (auto simp: thread_ascend.simps [of d space max_depth max_nodes max_edges root ancestors edges]
          subthread_def split: if_splits)
  next
    case (Some p)
    have ok: "root \<notin> set ancestors" "\<not> length (root # ancestors) > max_nodes"
        "\<not> (length (root # ancestors) > max_depth \<or> edges + 1 > max_edges)"
      and rec: "thread_ascend d space max_depth max_nodes max_edges p (root # ancestors) (edges + 1) = Inr (apex, n)"
      using "1.prems" Some
      by (auto simp: thread_ascend.simps [of d space max_depth max_nodes max_edges root ancestors edges] split: if_splits)
    obtain x where x: "x \<in> set (record_relations d)" "re_source x = root" "re_type x = ''reply-to''"
        "in_space d space p" "re_target x = p"
      using Some by (auto simp: reply_parent_def dest!: find_SomeD)
    then have "in_space d space root \<Longrightarrow> replies d space p root"
      by (auto simp: replies_def reply_children_def)
    then show ?thesis
      using "1.IH" [OF ok(1,2) Some ok(3) rec] x(4) ok(3)
      by (auto simp: subthread_def intro: rtranclp.rtrancl_into_rtrancl)
  qed
qed

section \<open>The thread of a record\<close>

text \<open>The budget arithmetic of the thread traversal never underflows, whatever the
  database and the limits: \<open>thread_ids\<close> returns a list or one of its errors, never a panic.\<close>

lemma thread_ids_never_panics:
  "thread_ids d anchor space max_depth max_nodes max_edges \<noteq> Inl Panicked"
proof -
  have asc: "thread_ascend d space max_depth max_nodes max_edges root ancestors edges \<noteq> Inl Panicked" for root ancestors edges
  proof (induction d space max_depth max_nodes max_edges root ancestors edges rule: thread_ascend.induct)
    case (1 d space max_depth max_nodes max_edges root ancestors edges)
    then show ?case
      by (auto simp: thread_ascend.simps [of d space max_depth max_nodes max_edges root ancestors edges] split: option.splits)
  qed
  show ?thesis
  proof (cases "thread_ascend d space max_depth max_nodes max_edges anchor [] 0")
    case (Inl e)
    then show ?thesis
      using asc [of anchor "[]" 0] by (auto simp: thread_ids_def thread_root_id_def)
  next
    case (Inr r)
    then obtain apex n where r: "thread_ascend d space max_depth max_nodes max_edges anchor [] 0 = Inr (apex, n)"
      by (cases r) auto
    show ?thesis
      using thread_ascend_cases [OF r]
      by (simp add: thread_ids_def thread_root_id_def r thread_descend_not_panicked)
  qed
qed

text \<open>C23. A thread is returned whole or not at all. When \<open>thread_ids\<close> succeeds for a record of the
  space, its result lists, without repetition and within the node budget, exactly the records
  reachable by replies from the thread's root, which has no parent in the space; and the record
  asked for is among them.\<close>

theorem thread_ids_exact:
  assumes "thread_ids d anchor space max_depth max_nodes max_edges = Inr ids" "in_space d space anchor"
  shows "\<exists>root. reply_parent d space root = None \<and> set (map snd ids) = subthread d space root
    \<and> anchor \<in> set (map snd ids) \<and> distinct (map snd ids) \<and> length ids \<le> max_nodes"
proof -
  obtain root n where r: "thread_ascend d space max_depth max_nodes max_edges anchor [] 0 = Inr (root, n)"
    and ids: "thread_descend d space max_depth max_nodes max_edges [(root, 0)] [] [] n = Inr ids"
    using assms(1) by (auto simp: thread_ids_def thread_root_id_def result_simps)
  show ?thesis
    using thread_ascend_cases [OF r] thread_descend_exact [OF ids] assms(2) by auto
qed

end
