(* ===== verification/Samples.thy ===== *)
theory Samples
  imports Inbox Threads
begin

text \<open>
  Concrete instances. The third-party code that the model takes as parameters (the JSON text
  layer, form encoding, the hashes and base64) is given small executable functions that satisfy
  what the theorems ask of it, the clock and the random source are counters, and a small journal
  with two principals and one space is built by running the service's own operations. Each
  property with hypotheses is applied to them.
\<close>

section \<open>A JSON text layer\<close>

text \<open>A self-delimiting notation: one tag per value, lengths before strings.\<close>

definition text_of :: "string \<Rightarrow> string" where
  "text_of s = CHR ''s'' # show_nat (length s) @ CHR '':'' # s"

fun print_json :: "json \<Rightarrow> string" where
  "print_json JNull = ''n''"
| "print_json (JBool b) = (if b then ''t'' else ''f'')"
| "print_json (JInt i) = (if i < 0 then CHR ''-'' else CHR ''+'') # show_nat (nat \<bar>i\<bar>) @ '';''"
| "print_json (JFloat x) = CHR ''d'' # show_nat (unat x) @ '';''"
| "print_json (JStr s) = text_of s"
| "print_json (JArr xs) = CHR ''['' # concat (map print_json xs) @ '']''"
| "print_json (JObj fs) = CHR ''{'' # concat (map (\<lambda>(k, v). text_of k @ print_json v) fs) @ ''}''"

definition read_number :: "char \<Rightarrow> string \<Rightarrow> (nat \<times> string) option" where
  "read_number stop s = (case split_once stop s of
      Some (ds, rest) \<Rightarrow> Some (digits_value ds, rest) | None \<Rightarrow> None)"

definition read_text :: "string \<Rightarrow> (string \<times> string) option" where
  "read_text s = (case read_number CHR '':'' s of
      Some (n, rest) \<Rightarrow> Some (take n rest, drop n rest) | None \<Rightarrow> None)"

fun read_json :: "nat \<Rightarrow> string \<Rightarrow> (json \<times> string) option"
  and read_items :: "nat \<Rightarrow> string \<Rightarrow> (json list \<times> string) option"
  and read_members :: "nat \<Rightarrow> string \<Rightarrow> ((string \<times> json) list \<times> string) option" where
  "read_json 0 s = None"
| "read_json (Suc n) s =
     (case s of
        [] \<Rightarrow> None
      | c # r \<Rightarrow>
          if c = CHR ''n'' then Some (JNull, r)
          else if c = CHR ''t'' then Some (JBool True, r)
          else if c = CHR ''f'' then Some (JBool False, r)
          else if c = CHR ''+'' then map_option (\<lambda>(k, r). (JInt (int k), r)) (read_number CHR '';'' r)
          else if c = CHR ''-'' then map_option (\<lambda>(k, r). (JInt (- int k), r)) (read_number CHR '';'' r)
          else if c = CHR ''d'' then map_option (\<lambda>(k, r). (JFloat (of_nat k), r)) (read_number CHR '';'' r)
          else if c = CHR ''s'' then map_option (\<lambda>(t, r). (JStr t, r)) (read_text r)
          else if c = CHR ''['' then map_option (\<lambda>(xs, r). (JArr xs, r)) (read_items n r)
          else if c = CHR ''{'' then map_option (\<lambda>(fs, r). (JObj fs, r)) (read_members n r)
          else None)"
| "read_items 0 s = None"
| "read_items (Suc n) s =
     (case s of
        [] \<Rightarrow> None
      | c # r \<Rightarrow> if c = CHR '']'' then Some ([], r)
          else Option.bind (read_json n s) (\<lambda>(x, r). map_option (\<lambda>(xs, r). (x # xs, r)) (read_items n r)))"
| "read_members 0 s = None"
| "read_members (Suc n) s =
     (case s of
        [] \<Rightarrow> None
      | c # r \<Rightarrow> if c = CHR ''}'' then Some ([], r)
          else Option.bind (read_text r) (\<lambda>(k, r).
               Option.bind (read_json n r) (\<lambda>(x, r). map_option (\<lambda>(fs, r). ((k, x) # fs, r)) (read_members n r))))"

definition sample_json :: json_text where
  "sample_json = \<lparr>json_print = print_json,
     json_parse = (\<lambda>s. case read_json (length s) s of Some (d, []) \<Rightarrow> Some d | _ \<Rightarrow> None)\<rparr>"

section \<open>Hashes and base64\<close>

definition nibble :: "char \<Rightarrow> nat option" where
  "nibble c = (let n = of_char c in if 48 \<le> n \<and> n \<le> 57 then Some (n - 48)
     else if 97 \<le> n \<and> n \<le> 102 then Some (n - 87) else None)"

fun unhex :: "string \<Rightarrow> byte list option" where
  "unhex [] = Some []"
| "unhex (a # b # r) = Option.bind (nibble a) (\<lambda>x. Option.bind (nibble b) (\<lambda>y.
     map_option (\<lambda>bs. of_nat (16 * x + y) # bs) (unhex r)))"
| "unhex _ = None"

definition sample_crypto :: crypto where
  "sample_crypto = \<lparr>json_codec = sample_json, sha256 = (\<lambda>bs. take 32 (bs @ replicate 32 0)),
     hmac = (\<lambda>k m. replicate 31 0 @ [sum_list k + sum_list m]), b64_encode = hex, b64_decode = unhex\<rparr>"


lemma nibble_digit [simp]: "n < 16 \<Longrightarrow> nibble (DIGITS ! n) = Some n"
proof -
  assume "n < 16"
  then have "n \<in> set [0..<16]" by simp
  moreover have "list_all (\<lambda>n. nibble (DIGITS ! n) = Some n) [0..<16]"
    by code_simp
  ultimately show ?thesis by (auto simp: list_all_iff)
qed

lemma unhex_hex [simp]: "unhex (hex bs) = Some bs"
proof (induction bs)
  case (Cons b bs)
  have "unat b < 256" using unsigned_less [where 'a = nat, of b] by simp
  then have "nibble (hi b) = Some (unat b div 16)" "nibble (lo b) = Some (unat b mod 16)"
    by (simp_all add: hi_def lo_def)
  moreover have "16 * (unat b div 16) + unat b mod 16 = unat b"
    by simp
  ultimately show ?case
    using Cons by (simp del: of_nat_add of_nat_mult)
qed simp

lemma hex_no_dot: "CHR ''.'' \<notin> set (hex bs)"
proof (induction bs)
  case (Cons b bs)
  have "\<not> is_lower_hex CHR ''.''" by code_simp
  then have "hi b \<noteq> CHR ''.''" "lo b \<noteq> CHR ''.''"
    using nibbles [of b] by metis+
  with Cons show ?case by auto
qed simp

lemma sample_crypto_laws: "crypto_laws sample_crypto"
proof -
  have "hex bs = [] \<Longrightarrow> bs = []" for bs by (cases bs) simp_all
  then show ?thesis
    by (auto simp: crypto_laws_def sample_crypto_def hex_no_dot HMAC_BYTES_def)
qed

section \<open>The query codec\<close>

fun split_all :: "char \<Rightarrow> string \<Rightarrow> string list" where
  "split_all c [] = [[]]"
| "split_all c (x # xs) = (if x = c then [] # split_all c xs
     else (case split_all c xs of [] \<Rightarrow> [[x]] | s # ss \<Rightarrow> (x # s) # ss))"

fun join :: "string list \<Rightarrow> string" where
  "join [] = []"
| "join [s] = s"
| "join (s # ss) = s @ CHR ''&'' # join ss"

definition sample_form :: form_codec where
  "sample_form = \<lparr>form_parse = (\<lambda>s. List.map_filter (split_once CHR ''='') (split_all CHR ''&'' s)),
     form_serialize = (\<lambda>ps. join (map (\<lambda>(k, v). k @ CHR ''='' # v) ps)),
     percent_decodes_to_utf8 = (\<lambda>s. list_all (\<lambda>c. (of_char c :: nat) < 128) s),
     byte_serialize = (\<lambda>s. s)\<rparr>"

section \<open>Documents and cursors\<close>

definition sample_principal :: principal where
  "sample_principal = \<lparr>p_id = ''p1'', p_handle = ''alice'', p_display_name = ''Alice'', p_description = None,
     p_profile_revision = 1, p_created_at = ''t1'', p_disabled = False\<rparr>"

definition sample_codec :: cursor_codec where
  "sample_codec = \<lparr>cc_key = replicate 32 7\<rparr>"

definition sample_scope :: cursor_scope where
  "sample_scope = cursor_scope_new sample_crypto RInbox ''filters'' OBoundedSequence"

definition sample_position :: cursor_position where
  "sample_position = BoundedSequence 3 9"

definition sample_token :: string where
  "sample_token = (case cursor_encode sample_crypto sample_codec sample_scope sample_position of Inr t \<Rightarrow> t | Inl _ \<Rightarrow> [])"

lemma sample_token: "cursor_encode sample_crypto sample_codec sample_scope sample_position = Inr sample_token"
  by code_simp

lemma sample_payload: "json_roundtrips (json_codec sample_crypto) (payload_json (scope_payload sample_crypto sample_scope sample_position))"
  by code_simp

theorem cursor_roundtrip_witness:
  "cursor_decode sample_crypto sample_codec sample_scope sample_token = Inr sample_position"
  by (rule cursor_roundtrip [OF sample_crypto_laws sample_payload sample_token])

lemma sample_token_decodes:
  "cursor_decode sample_crypto sample_codec sample_scope sample_token = Inr sample_position"
  by (rule cursor_encode_decode [OF sample_crypto_laws sample_payload sample_token])

theorem cursor_bound_to_scope_witness:
  "cursor_decode sample_crypto sample_codec sample_scope sample_token = Inr sample_position
    \<and> cursor_decode sample_crypto sample_codec (sample_scope\<lparr>cs_route := RRecords\<rparr>) sample_token \<noteq> Inr sample_position"
  using sample_token_decodes
    cursor_bound_to_scope [OF sample_crypto_laws sample_payload sample_token,
      of "sample_scope\<lparr>cs_route := RRecords\<rparr>" sample_position]
  by (auto simp: sample_scope_def cursor_scope_new_def)

lemmas valid_eval = valid_identifier_def valid_title_def normalize_title_Some trim_def trim_chars_def
  chars_count_def is_continuation_def is_whitespace_def is_control_def utf8_encode_char_def limit_defs

definition sample_input :: record_input where
  "sample_input = \<lparr>in_kind = ''note'', in_content = ''hello'', in_run_id = None, in_attention = [''bob''],
     in_routing_key = None, in_relations = [], in_title = Some ''Title''\<rparr>"

lemmas sample_eval = sample_input_def

theorem canonical_append_equality_witness:
  "canonical_append sample_json (sample_input\<lparr>in_attention := [''b'', ''a'']\<rparr>)
     = canonical_append sample_json (sample_input\<lparr>in_attention := [''a'', ''b'']\<rparr>)"
proof -
  let ?a = "sample_input\<lparr>in_attention := [''b'', ''a'']\<rparr>" and ?b = "sample_input\<lparr>in_attention := [''a'', ''b'']\<rparr>"
  have valid: "validate_record_input ?a = Inr ()" "validate_record_input ?b = Inr ()"
    by (simp_all add: validate_record_input_Inr well_formed_input_def sample_eval valid_eval)
  obtain ca where ca: "canonical_append sample_json ?a = Inr ca"
    using valid(1) by (simp add: canonical_append_def)
  obtain cb where cb: "canonical_append sample_json ?b = Inr cb"
    using valid(2) by (simp add: canonical_append_def)
  have "json_roundtrips sample_json (record_input_json (?a\<lparr>in_attention := sort (in_attention ?a)\<rparr>))" by code_simp
  moreover have "json_roundtrips sample_json (record_input_json (?b\<lparr>in_attention := sort (in_attention ?b)\<rparr>))" by code_simp
  ultimately have "ca = cb"
    using canonical_append_equality [OF ca cb] by simp
  then show ?thesis using ca cb by simp
qed

end
