(* ===== verification/Search.thy ===== *)
theory Search
  imports Threads Paging
begin

text \<open>
  Full-text search and the batched thread breadcrumbs of the shared viewer
  (\<open>search_records_as\<close> and \<open>get_thread_roots_as\<close> of journal-service/src/records.rs). The text
  index is the parameter \<open>env_search\<close>; what the two SQL statements select, order and render from
  it is modelled. The main results: a search visits every visible match exactly once, page by
  page, in either order; and the one recursive query that resolves the thread roots of a whole
  page agrees with the loop that resolves one.
\<close>

section \<open>Scores\<close>

text \<open>The order of finite \<open>f64\<close> values is the order of their sign and magnitude.\<close>

definition f64_key :: "u64 \<Rightarrow> int" where
  "f64_key bits = (if uint bits < 2 ^ 63 then uint bits else - (uint bits - 2 ^ 63))"

definition F64_MAX :: u64 where
  "F64_MAX = 0x7FEFFFFFFFFFFFFF"

section \<open>The search query\<close>

record search_result =
  sr_record :: journal_record
  sr_score :: u64
  sr_snippet :: "string option"

datatype search_consistency = BestEffort | Deterministic

record search_page =
  sg_items :: "search_result list"
  sg_next_cursor :: "string option"
  sg_order :: search_order
  sg_consistency :: "search_consistency option"

definition starts_with :: "string \<Rightarrow> string \<Rightarrow> bool" where
  "starts_with s prefix \<longleftrightarrow> take (length prefix) s = prefix"

fun search_error :: "sqlite_error \<Rightarrow> berror" where
  "search_error (SqliteFailure code (Some message)) =
     (if code = 1 \<and> (starts_with message ''fts5:'' \<or> starts_with message ''unterminated string''
          \<or> starts_with message ''no such column:'')
      then InvalidJournal else from_sqlite (SqliteFailure code (Some message)))"
| "search_error e = from_sqlite e"

text \<open>The lower bound in whole seconds, rounded up.\<close>

definition since_bound :: "env \<Rightarrow> string option \<Rightarrow> berror + int option" where
  "since_bound E since =
     (case since of
        None \<Rightarrow> Inr None
      | Some t \<Rightarrow>
          and_then (ok_or InvalidJournal (se_timestamp (env_search E) t)) (\<lambda>nanos.
          let seconds = nanos div 10 ^ 9 + (if nanos mod 10 ^ 9 \<noteq> 0 then 1 else 0) in
          if - (2 ^ 63) \<le> seconds \<and> seconds \<le> i64_max then Inr (Some seconds) else Inl InvalidJournal))"

text \<open>The conditions of \<open>SEARCH_FROM\<close> other than MATCH.\<close>

definition search_visible :: "env \<Rightarrow> db \<Rightarrow> string \<Rightarrow> string \<Rightarrow> string option \<Rightarrow> string option \<Rightarrow> int option
    \<Rightarrow> record_row \<Rightarrow> bool" where
  "search_visible E d actor space author att since r \<longleftrightarrow>
     list_ex (\<lambda>s. sp_id s = rc_space_id r \<and> sp_access s = ''public'') (spaces d)
     \<and> active_row d actor \<and> rc_space_id r = space
     \<and> pred_option (\<lambda>a. rc_author r = a) author
     \<and> pred_option (\<lambda>a. list_ex (\<lambda>x. at_record_id x = rc_id r \<and> at_recipient x = a) (attention d)) att
     \<and> pred_option (\<lambda>t. case se_unixepoch (env_search E) (rc_created_at r) of Some u \<Rightarrow> u \<ge> t | None \<Rightarrow> False) since"

definition search_score :: "env \<Rightarrow> string \<Rightarrow> record_row \<Rightarrow> u64" where
  "search_score E q r = se_score (env_search E) q (rc_content r)"

text \<open>\<open>search_page_sql\<close> in its two orders: above a sequence number, and below a score (above an
  identifier at that score).\<close>

definition search_seq_rows :: "db \<Rightarrow> (record_row \<Rightarrow> bool) \<Rightarrow> int \<Rightarrow> record_row list" where
  "search_seq_rows d hit sequence =
     sort_key record_key (filter (\<lambda>r. hit r \<and> rc_space_seq r > sequence) (records d))"

definition rank_key :: "env \<Rightarrow> string \<Rightarrow> record_row \<Rightarrow> int \<times> string" where
  "rank_key E q r = (- f64_key (search_score E q r), rc_id r)"

definition search_rank_rows :: "env \<Rightarrow> db \<Rightarrow> string \<Rightarrow> (record_row \<Rightarrow> bool) \<Rightarrow> u64 \<Rightarrow> string \<Rightarrow> record_row list" where
  "search_rank_rows E d q hit score i =
     sort_key (rank_key E q) (filter (\<lambda>r. hit r
       \<and> (f64_key (search_score E q r) < f64_key score
          \<or> f64_key (search_score E q r) = f64_key score \<and> i < rc_id r)) (records d))"

definition search_rows :: "env \<Rightarrow> db \<Rightarrow> string \<Rightarrow> search_records_query \<Rightarrow> string \<Rightarrow> string option \<Rightarrow> string option
    \<Rightarrow> int option \<Rightarrow> int \<times> u64 \<times> string \<Rightarrow> berror + record_row list" where
  "search_rows E d actor query space author att since position =
     (case position of (sequence, score, i) \<Rightarrow>
      and_then (map_err search_error (se_match (env_search E) (sq_q query))) (\<lambda>matching.
      let hit = (\<lambda>r. matching (rc_content r) \<and> search_visible E d actor space author att since r) in
      Inr (take (effective_limit (sq_page query) + 1)
        (case sq_order query of
           Seq \<Rightarrow> search_seq_rows d hit sequence
         | Rank \<Rightarrow> search_rank_rows E d (sq_q query) hit score i))))"

definition search_position :: "env \<Rightarrow> cursor_codec \<Rightarrow> cursor_scope \<Rightarrow> page_query \<Rightarrow> berror + int \<times> u64 \<times> string" where
  "search_position E codec scope query =
     (case presented_cursor query of
        None \<Rightarrow> Inr (0, F64_MAX, [])
      | Some cursor \<Rightarrow>
          and_then (decode_cursor E codec scope cursor) (\<lambda>position.
          case position of
            Sequence n i \<Rightarrow> and_then (i64_try_from n) (\<lambda>k. Inr (k, 0, i))
          | RankAt bits i \<Rightarrow> if finite_f64 bits then Inr (0, bits, i) else Inl InvalidJournal
          | _ \<Rightarrow> Inl InvalidJournal))"

text \<open>The second statement renders one row: its score and the first 1024 characters of its snippet.\<close>

definition render_hit :: "env \<Rightarrow> db \<Rightarrow> string \<Rightarrow> record_row \<Rightarrow> berror + search_result" where
  "render_hit E d q r =
     and_then (record_of d (rc_id r)) (\<lambda>record.
     Inr \<lparr>sr_record = record, sr_score = search_score E q r,
       sr_snippet = Some (utf8_encode (take 1024 (utf8_chars (se_snippet (env_search E) q (rc_content r)))))\<rparr>)"

definition result_position :: "search_order \<Rightarrow> search_result \<Rightarrow> cursor_position" where
  "result_position order r =
     (case order of
        Rank \<Rightarrow> RankAt (sr_score r) (r_id (sr_record r))
      | Seq \<Rightarrow> Sequence (as_u64 (r_seq (sr_record r))) (r_id (sr_record r)))"

definition search_codec_tx :: "env \<Rightarrow> read_identity \<Rightarrow> string \<Rightarrow> (db, cursor_codec) prog" where
  "search_codec_tx E identity space =
     bind (read_actor E identity) (\<lambda>actor.
     bind (reads (\<lambda>d. permitted d actor space False)) (\<lambda>_.
     cursor_codec E))"

definition search_order_of :: "search_order \<Rightarrow> cursor_order" where
  "search_order_of order = (case order of Rank \<Rightarrow> ORank | Seq \<Rightarrow> OSequence)"

definition search_read :: "env \<Rightarrow> read_identity \<Rightarrow> string \<Rightarrow> search_records_query \<Rightarrow> cursor_codec
    \<Rightarrow> (db, search_page) prog" where
  "search_read E identity space query codec =
     bind (read_actor E identity) (\<lambda>actor.
     bind (reads (\<lambda>d. permitted d actor space False)) (\<lambda>_.
     bind (lift (since_bound E (sq_since query))) (\<lambda>since.
     bind (reads (\<lambda>d. Inr (resolve_space_principal d space (sq_author query)))) (\<lambda>author.
     bind (reads (\<lambda>d. Inr (resolve_space_principal d space (sq_attention query)))) (\<lambda>att.
     let scope = filters_scope E RSearch [JStr actor, JStr space, JStr (sq_q query), json_opt author,
           json_opt att, json_opt (sq_since query)] (search_order_of (sq_order query)) in
     bind (lift (search_position E codec scope (sq_page query))) (\<lambda>position.
     bind (reads (\<lambda>d. search_rows E d actor query space author att since position)) (\<lambda>rows.
     bind (reads (\<lambda>d. try_map (render_hit E d (sq_q query)) rows)) (\<lambda>xs.
     bind (lift (finish_page E xs (sq_page query) codec scope (result_position (sq_order query)))) (\<lambda>p.
     ret \<lparr>sg_items = items p, sg_next_cursor = next_cursor p, sg_order = sq_order query,
       sg_consistency = Some (case sq_order query of Rank \<Rightarrow> BestEffort | Seq \<Rightarrow> Deterministic)\<rparr>)))))))))"

definition search_records_as :: "env \<Rightarrow> read_identity \<Rightarrow> string \<Rightarrow> search_records_query \<Rightarrow> (store, search_page) prog" where
  "search_records_as E identity space query =
     bind (lift (map_err Invalid (validate_search_records_query (se_timestamp (env_search E)) query))) (\<lambda>_.
     bind (connect_read_only E) (\<lambda>_.
     bind (on_snapshot (reads (\<lambda>d. Inr (cursor_secret d)))) (\<lambda>stored.
     bind (case stored of
             Some key \<Rightarrow> lift (map_err (\<lambda>_. CorruptJournal) (cursor_codec_new (env_crypto E) key))
           | None \<Rightarrow> transaction E (search_codec_tx E identity space)) (\<lambda>codec.
     bind (begin_read E) (\<lambda>_.
     on_snapshot (search_read E identity space query codec))))))"

definition search_records :: "env \<Rightarrow> string \<Rightarrow> string \<Rightarrow> search_records_query \<Rightarrow> (store, search_page) prog" where
  "search_records E token space query = search_records_as E (Bearer token) space query"

section \<open>Thread roots of a page\<close>

text \<open>SQLite's \<open>instr(s, t) = 0\<close> is the absence of \<open>t\<close> in \<open>s\<close>.\<close>

fun occurs :: "string \<Rightarrow> string \<Rightarrow> bool" where
  "occurs t [] \<longleftrightarrow> t = []"
| "occurs t (c # s) \<longleftrightarrow> starts_with (c # s) t \<or> occurs t s"

text \<open>The recursive part of the query: the rows (node, depth) reached from one node, \<open>n\<close> further
  levels deep, with the visited identifiers in \<open>path\<close>.\<close>

definition comma :: "string \<Rightarrow> string" where
  "comma i = '','' @ i @ '',''"

definition chain_edges :: "db \<Rightarrow> string \<Rightarrow> string \<Rightarrow> string \<Rightarrow> relation_row list" where
  "chain_edges d space path node = filter (\<lambda>x. re_source x = node \<and> re_type x = ''reply-to''
     \<and> in_space d space (re_target x) \<and> \<not> occurs (comma (re_target x)) path) (record_relations d)"

primrec chain_rows :: "db \<Rightarrow> string \<Rightarrow> nat \<Rightarrow> string \<Rightarrow> string \<Rightarrow> nat \<Rightarrow> (string \<times> nat) list" where
  "chain_rows d space 0 path node depth = [(node, depth)]"
| "chain_rows d space (Suc n) path node depth = (node, depth) #
     concat (map (\<lambda>x. chain_rows d space n (path @ re_target x @ '','') (re_target x) (depth + 1))
       (chain_edges d space path node))"

text \<open>\<open>deepest\<close>: the node of the greatest depth.\<close>

definition deepest :: "(string \<times> nat) list \<Rightarrow> string" where
  "deepest rows = fst (fold (\<lambda>x m. if snd m < snd x then x else m) (tl rows) (hd rows))"

definition has_reply_edge :: "db \<Rightarrow> string \<Rightarrow> bool" where
  "has_reply_edge d i = list_ex (\<lambda>x. re_source x = i \<and> re_type x = ''reply-to'') (record_relations d)"

text \<open>One candidate: the record, its deepest ancestor, and whether the chain is unresolved.\<close>

definition root_candidate :: "db \<Rightarrow> record_row \<Rightarrow> string \<times> string \<times> bool" where
  "root_candidate d r =
     (let root = deepest (chain_rows d (rc_space_id r) THREAD_MAX_DEPTH (comma (rc_id r)) (rc_id r) 0) in
      (rc_id r, root, has_reply_edge d root))"

definition root_entry :: "db \<Rightarrow> string \<times> string \<times> bool \<Rightarrow> string \<times> string \<times> string option" where
  "root_entry d c = (case c of (i, root, unresolved) \<Rightarrow>
     if unresolved then (i, i, None)
     else (i, root, Option.bind (find_record d root) rc_title))"

text \<open>The records named by \<open>ids\<close> that the actor may read, in table order.\<close>

definition permitted_rows :: "db \<Rightarrow> string \<Rightarrow> string list \<Rightarrow> record_row list" where
  "permitted_rows d actor ids = filter (\<lambda>r. rc_id r \<in> set ids
     \<and> permitted d actor (rc_space_id r) False = Inr ()) (records d)"

text \<open>The result is a map from record to root and title, as an association list.\<close>

definition thread_roots :: "db \<Rightarrow> string \<Rightarrow> string list \<Rightarrow> (string \<times> string \<times> string option) list" where
  "thread_roots d actor ids = map (root_entry d \<circ> root_candidate d) (permitted_rows d actor ids)"

definition get_thread_roots_as :: "env \<Rightarrow> read_identity \<Rightarrow> string list
    \<Rightarrow> (store, (string \<times> string \<times> string option) list) prog" where
  "get_thread_roots_as E identity ids =
     read E (
       bind (read_actor E identity) (\<lambda>actor.
       reads (\<lambda>d. Inr (thread_roots d actor ids))))"

section \<open>A search visits every match once\<close>

text \<open>Both orders are keyset queries over the matching records.\<close>

lemma search_seq_keyset:
  assumes "schema_ok d" "\<And>r. hit r \<Longrightarrow> rc_space_id r = space"
  shows "search_seq_rows d hit s = keyset_rows (records d) hit rc_space_seq s"
proof -
  have "distinct (map (\<lambda>r. (rc_space_id r, rc_space_seq r)) (filter (\<lambda>r. hit r \<and> s < rc_space_seq r) (records d)))"
    using assms(1) by (auto simp: schema_ok_def records_ok_def intro: distinct_map_filter)
  then have "distinct (map rc_space_seq (filter (\<lambda>r. hit r \<and> s < rc_space_seq r) (records d)))"
    using assms(2) by (auto simp: distinct_map inj_on_def)
  then have "sort_key record_key (filter (\<lambda>r. hit r \<and> s < rc_space_seq r) (records d))
      = sort_key rc_space_seq (filter (\<lambda>r. hit r \<and> s < rc_space_seq r) (records d))"
    by (rule sort_key_unique) (simp add: record_key_def)
  then show ?thesis
    by (simp only: search_seq_rows_def keyset_rows_def)
qed

lemma search_rank_keyset:
  "search_rank_rows E d q hit score i = keyset_rows (records d) hit (rank_key E q) (- f64_key score, i)"
  unfolding search_rank_rows_def keyset_rows_def
  by (intro arg_cong [where f = "sort_key (rank_key E q)"] filter_cong) (auto simp: rank_key_def)

interpretation ranked_listing: keyset_table "records (Rep_ok_db d)" hit "rank_key E q" for d hit E q
proof
  have "distinct (map rc_id (records (Rep_ok_db d)))"
    using Rep_ok [of d] by (simp add: schema_ok_def records_ok_def)
  then have "distinct (map rc_id (filter hit (records (Rep_ok_db d))))"
    by (rule distinct_map_filter)
  then show "distinct (map (rank_key E q) (filter hit (records (Rep_ok_db d))))"
    by (auto simp: distinct_map inj_on_def rank_key_def)
qed


text \<open>Walking a ranked search through its positions gives every match, best first.\<close>

lemma ranked_search_complete:
  assumes "schema_ok d" "0 < n" "length (records d) < fuel"
    "\<And>r. r \<in> set (records d) \<Longrightarrow> f64_key (search_score E q r) < f64_key F64_MAX"
  shows "walk (\<lambda>(score, i). search_rank_rows E d q hit score i) (\<lambda>r. (search_score E q r, rc_id r)) fuel n (F64_MAX, [])
    = sort_key (rank_key E q) (filter hit (records d))"
proof -
  obtain x where x: "d = Rep_ok_db x"
    using ok_db_of [OF assms(1)] by blast
  let ?rows = "keyset_rows (records d) hit (rank_key E q)"
  have view: "walk (\<lambda>(score, i). search_rank_rows E d q hit score i) (\<lambda>r. (search_score E q r, rc_id r)) fuel n (F64_MAX, [])
      = map (\<lambda>r. r) (walk ?rows (rank_key E q) fuel n ((\<lambda>(score, i). (- f64_key score, i)) (F64_MAX, [])))"
    by (rule walk_map) (auto simp: search_rank_keyset rank_key_def assms(2))
  have "?rows (- f64_key F64_MAX, []) = sort_key (rank_key E q) (filter hit (records d))"
    unfolding keyset_rows_def using assms(4)
    by (intro arg_cong [where f = "sort_key (rank_key E q)"] filter_cong) (auto simp: rank_key_def)
  moreover have "walk ?rows (rank_key E q) fuel n (- f64_key F64_MAX, []) = ?rows (- f64_key F64_MAX, [])"
    using assms(2,3)
    by (intro ranked_listing.walk_complete [of n x hit E q, folded x])
      (auto simp: keyset_rows_def intro: le_less_trans [OF length_filter_le])
  ultimately show ?thesis using view by simp
qed

text \<open>A search answers only to an active principal, and only with records of the space asked for
  that match its query.\<close>

lemma search_rows_visible:
  assumes "search_rows E d actor query space author att since pos = Inr rows" "r \<in> set rows"
  shows "r \<in> set (records d) \<and> rc_space_id r = space \<and> active_row d actor
    \<and> (\<exists>m. se_match (env_search E) (sq_q query) = Inr m \<and> m (rc_content r))"
  using assms
  by (cases "sq_order query"; cases pos)
    (auto simp: search_rows_def result_simps Let_def search_visible_def search_seq_rows_def search_rank_rows_def
      dest!: in_set_takeD)

section \<open>The batched ascent agrees with the loop\<close>

definition comma_path :: "string list \<Rightarrow> string" where
  "comma_path ids = CHR '','' # concat (map (\<lambda>i. i @ '','') ids)"

lemma comma_path_snoc: "comma_path (ids @ [i]) = comma_path ids @ i @ '',''"
  by (simp add: comma_path_def)

lemma comma_path_single: "comma_path [i] = comma i"
  by (simp add: comma_path_def comma_def)

lemma occurs_skip:
  assumes "CHR '','' \<notin> set i" "occurs (CHR '','' # t) (i @ s)"
  shows "occurs (CHR '','' # t) s"
  using assms by (induction i) (auto simp: starts_with_def)

lemma comma_free_prefix:
  assumes "CHR '','' \<notin> set p" "CHR '','' \<notin> set i" "take (length p + 1) (i @ '','' @ s) = p @ '',''"
  shows "p = i"
proof -
  have "p @ '','' @ drop (length p + 1) (i @ '','' @ s) = i @ '','' @ s"
    using assms(3) append_take_drop_id [of "length p + 1" "i @ '','' @ s"] by simp
  then have "takeWhile (\<lambda>c. c \<noteq> CHR '','') (p @ '','' @ drop (length p + 1) (i @ '','' @ s))
      = takeWhile (\<lambda>c. c \<noteq> CHR '','') (i @ '','' @ s)"
    by simp
  moreover have "takeWhile (\<lambda>c. c \<noteq> CHR '','') (x @ CHR '','' # y) = x" if "CHR '','' \<notin> set x" for x y
    using that by (subst takeWhile_append2) auto
  ultimately show ?thesis using assms(1,2) by simp
qed

lemma occurs_comma_path:
  assumes "list_all (\<lambda>i. CHR '','' \<notin> set i) ids" "CHR '','' \<notin> set p" "occurs (comma p) (comma_path ids)"
  shows "p \<in> set ids"
  using assms(1,3)
proof (induction ids)
  case Nil
  then show ?case by (simp add: comma_path_def comma_def starts_with_def)
next
  case (Cons i ids)
  have path: "comma_path (i # ids) = CHR '','' # i @ comma_path ids"
    by (simp add: comma_path_def)
  from Cons.prems(2) consider "starts_with (CHR '','' # i @ comma_path ids) (comma p)"
    | "occurs (CHR '','' # p @ '','') (i @ comma_path ids)"
    unfolding path by (auto simp: comma_def)
  then show ?case
  proof cases
    case 1
    then have "take (length p + 1) (i @ '','' @ concat (map (\<lambda>i. i @ '','') ids)) = p @ '',''"
      by (simp add: starts_with_def comma_def comma_path_def)
    then show ?thesis
      using comma_free_prefix [OF assms(2)] Cons.prems(1) by simp
  next
    case 2
    then have "occurs (comma p) (comma_path ids)"
      using occurs_skip Cons.prems(1) by (auto simp: comma_def)
    then show ?thesis using Cons by simp
  qed
qed

text \<open>Rows along a chain are at least as deep as where it starts.\<close>

lemma chain_rows_Cons: "\<exists>rest. chain_rows d space n path node depth = (node, depth) # rest"
  by (cases n) auto

lemma deepest_step: "deepest ((a, k) # (b, Suc k) # rest) = deepest ((b, Suc k) # rest)"
  by (simp add: deepest_def)

text \<open>On a sound database a record has at most one parent, an older record of its space.\<close>

lemma filter_unique:
  "distinct (map f (filter P xs)) \<Longrightarrow> x \<in> set xs \<Longrightarrow> P x \<Longrightarrow> f x = k \<Longrightarrow> filter (\<lambda>y. f y = k \<and> P y) xs = [x]"
proof (induction xs)
  case (Cons y ys)
  show ?case
  proof (cases "y = x")
    case True
    then have "filter (\<lambda>y. f y = k \<and> P y) ys = []"
      using Cons.prems by (auto simp: filter_empty_conv image_iff)
    then show ?thesis using True Cons.prems by simp
  next
    case False
    then have "\<not> (f y = k \<and> P y)"
      using Cons.prems by (auto simp: image_iff)
    then show ?thesis using Cons False by (auto split: if_splits)
  qed
qed simp

lemma reply_edge_sound:
  assumes "schema_ok d" "x \<in> set (record_relations d)" "re_source x = i" "in_space d space i"
  shows "in_space d space (re_target x) \<and> record_seq d (re_target x) < record_seq d i"
proof -
  have "older_same_space d (re_source x) (re_target x)"
    using assms(1,2) by (simp add: schema_ok_def records_ok_def)
  then show ?thesis
    using assms(3,4) by (auto simp: older_same_space_def in_space_def record_seq_def split: option.splits)
qed

lemma reply_parent_cases:
  assumes "schema_ok d" "in_space d space i"
  obtains "reply_parent d space i = None" "\<not> has_reply_edge d i" "\<And>path. chain_edges d space path i = []"
  | p where "reply_parent d space i = Some p" "has_reply_edge d i" "in_space d space p" "record_seq d p < record_seq d i"
      "\<And>path. \<not> occurs (comma p) path \<Longrightarrow> \<exists>x. re_target x = p \<and> chain_edges d space path i = [x]"
proof (cases "has_reply_edge d i")
  case False
  then have "\<not> (re_source x = i \<and> re_type x = ''reply-to'')" if "x \<in> set (record_relations d)" for x
    using that by (auto simp: has_reply_edge_def list_ex_iff)
  then show thesis
    using that(1) False by (auto simp: reply_parent_def chain_edges_def find_None_iff filter_empty_conv)
next
  case True
  then obtain x where x: "x \<in> set (record_relations d)" "re_source x = i" "re_type x = ''reply-to''"
    by (auto simp: has_reply_edge_def list_ex_iff)
  have one: "distinct (map re_source (filter (\<lambda>r. re_type r = ''reply-to'') (record_relations d)))"
    using assms(1) by (simp add: schema_ok_def records_ok_def)
  have sound: "in_space d space (re_target x)" "record_seq d (re_target x) < record_seq d i"
    using reply_edge_sound [OF assms(1) x(1,2) assms(2)] by auto
  have only: "y = x" if "y \<in> set (record_relations d)" "re_source y = i" "re_type y = ''reply-to''" for y
    using one x that by (auto simp: distinct_map inj_on_def)
  have found: "reply_parent d space i = Some (re_target x)"
  proof -
    let ?P = "\<lambda>y. re_source y = i \<and> re_type y = ''reply-to'' \<and> in_space d space (re_target y)"
    obtain y where y: "find ?P (record_relations d) = Some y"
      using x sound(1) by (cases "find ?P (record_relations d)") (auto simp: find_None_iff)
    then have "y = x" using only find_SomeD [OF y] by blast
    with y show ?thesis by (simp add: reply_parent_def)
  qed
  have edges: "chain_edges d space path i = [x]" if "\<not> occurs (comma (re_target x)) path" for path
  proof -
    have "chain_edges d space path i = filter (\<lambda>y. re_source y = i \<and> re_type y = ''reply-to'') (record_relations d)"
      unfolding chain_edges_def using only sound(1) that by (intro filter_cong refl) blast
    then show ?thesis using filter_unique [where f = re_source and P = "\<lambda>r. re_type r = ''reply-to''", OF one x(1)] x(2,3) by simp
  qed
  show thesis
  proof (rule that(2) [OF found True sound])
    show "\<exists>y. re_target y = re_target x \<and> chain_edges d space path i = [y]" if "\<not> occurs (comma (re_target x)) path" for path
      using edges [OF that] by (intro exI [of _ x]) simp
  qed
qed


lemma chain_agrees:
  assumes "schema_ok d" "list_all (\<lambda>r. CHR '','' \<notin> set (rc_id r)) (records d)"
    "in_space d space node" "n + length ancestors = THREAD_MAX_DEPTH" "edges = length ancestors"
    "list_all (\<lambda>a. record_seq d node < record_seq d a \<and> CHR '','' \<notin> set a) ancestors"
    "apex = deepest (chain_rows d space n (comma_path (rev (node # ancestors))) node (length ancestors))"
  shows "(if has_reply_edge d apex
      then thread_ascend d space THREAD_MAX_DEPTH THREAD_MAX_NODES THREAD_MAX_EDGES node ancestors edges = Inl InvalidJournal
      else \<exists>k. thread_ascend d space THREAD_MAX_DEPTH THREAD_MAX_NODES THREAD_MAX_EDGES node ancestors edges = Inr (apex, k))"
  using assms(3-)
proof (induction n arbitrary: node ancestors edges)
  case 0
  have new: "node \<notin> set ancestors" using "0.prems"(4) by (auto simp: list_all_iff)
  have bounds: "length ancestors = 64" "edges = 64" "THREAD_MAX_DEPTH = 64" "THREAD_MAX_NODES = 4096" "THREAD_MAX_EDGES = 8192"
    using "0.prems"(2,3) by (simp_all add: THREAD_MAX_DEPTH_def THREAD_MAX_NODES_def THREAD_MAX_EDGES_def)
  show ?case
    using new bounds "0.prems"(5)
    by (cases rule: reply_parent_cases [OF assms(1) "0.prems"(1)])
      (simp_all add: thread_ascend.simps [of d space _ _ _ node] deepest_def)
next
  case (Suc n)
  have new: "node \<notin> set ancestors" using Suc.prems(4) by (auto simp: list_all_iff)
  have bounds: "length ancestors < 64" "edges = length ancestors" "THREAD_MAX_DEPTH = 64" "THREAD_MAX_NODES = 4096"
      "THREAD_MAX_EDGES = 8192"
    using Suc.prems(2,3) by (simp_all add: THREAD_MAX_DEPTH_def THREAD_MAX_NODES_def THREAD_MAX_EDGES_def)
  have named: "CHR '','' \<notin> set i" if "in_space d space i" for i
    using assms(2) that by (auto simp: in_space_def find_record_def list_all_iff dest: find_SomeD split: option.splits)
  show ?case
  proof (cases rule: reply_parent_cases [OF assms(1) Suc.prems(1)])
    case 1
    then show ?thesis
      using new bounds Suc.prems(5) by (simp add: thread_ascend.simps [of d space _ _ _ node] deepest_def)
  next
    case (2 p)
    have clear: "\<not> occurs (comma p) (comma_path (rev (node # ancestors)))"
    proof
      assume "occurs (comma p) (comma_path (rev (node # ancestors)))"
      moreover have "list_all (\<lambda>i. CHR '','' \<notin> set i) (rev (node # ancestors))"
        using Suc.prems(4) named [OF Suc.prems(1)] by (auto simp: list_all_iff)
      ultimately have "p \<in> set (rev (node # ancestors))"
        using occurs_comma_path named [OF 2(3)] by blast
      then show False using 2(4) Suc.prems(4) by (auto simp: list_all_iff)
    qed
    then obtain x where x: "re_target x = p" "chain_edges d space (comma_path (rev (node # ancestors))) node = [x]"
      using 2(5) by blast
    obtain rest where rest: "chain_rows d space n (comma_path (rev (p # node # ancestors))) p (Suc (length ancestors))
        = (p, Suc (length ancestors)) # rest"
      using chain_rows_Cons by blast
    have "chain_rows d space (Suc n) (comma_path (rev (node # ancestors))) node (length ancestors)
        = (node, length ancestors) # (p, Suc (length ancestors)) # rest"
      using x rest comma_path_snoc [of "rev (node # ancestors)" p] by simp
    then have apex: "apex = deepest (chain_rows d space n (comma_path (rev (p # node # ancestors))) p (length (node # ancestors)))"
      using Suc.prems(5) rest deepest_step by simp
    have older: "list_all (\<lambda>a. record_seq d p < record_seq d a \<and> CHR '','' \<notin> set a) (node # ancestors)"
      using Suc.prems(4) 2(4) named [OF Suc.prems(1)] by (auto simp: list_all_iff)
    have up: "thread_ascend d space THREAD_MAX_DEPTH THREAD_MAX_NODES THREAD_MAX_EDGES node ancestors edges
        = thread_ascend d space THREAD_MAX_DEPTH THREAD_MAX_NODES THREAD_MAX_EDGES p (node # ancestors) (edges + 1)"
      using new bounds 2(1) by (simp add: thread_ascend.simps [of d space _ _ _ node])
    have "Suc (n + length ancestors) = THREAD_MAX_DEPTH" using Suc.prems(2) by simp
    then show ?thesis
      unfolding up using Suc.prems(3) by (intro Suc.IH [OF 2(3) _ _ older apex]) simp_all
  qed
qed

lemma map_of_distinct_keys:
  "distinct (map f xs) \<Longrightarrow> x \<in> set xs \<Longrightarrow> map_of (map (\<lambda>y. (f y, g y)) xs) (f x) = Some (g x)"
  by (induction xs) (auto simp: image_iff)

text \<open>C36. The breadcrumbs of a whole page, resolved by one recursive SQL query, agree with the loop
  that resolves the thread of one record. For every record among those asked for that the viewer
  may read, the batched result holds the root the loop finds and that root's title when the chain
  resolves within the depth limit, and the record itself without a title when it does not; for any
  other identifier it holds nothing. Record identifiers are UUID texts, which have no comma.\<close>

theorem thread_roots_agree:
  assumes "schema_ok d" "list_all (\<lambda>r. CHR '','' \<notin> set (rc_id r)) (records d)"
  shows "map_of (thread_roots d actor ids) i =
    (case find_record d i of
       Some r \<Rightarrow>
         if i \<in> set ids \<and> permitted d actor (rc_space_id r) False = Inr () then
           Some (case thread_root_id d i (rc_space_id r) THREAD_MAX_DEPTH THREAD_MAX_NODES THREAD_MAX_EDGES of
                   Inr (root, _, True) \<Rightarrow> (root, Option.bind (find_record d root) rc_title)
                 | _ \<Rightarrow> (i, None))
         else None
     | None \<Rightarrow> None)"
proof -
  let ?val = "\<lambda>r. snd (root_entry d (root_candidate d r))"
  have entries: "thread_roots d actor ids = map (\<lambda>r. (rc_id r, ?val r)) (permitted_rows d actor ids)"
    by (auto simp: thread_roots_def root_candidate_def root_entry_def Let_def)
  have keys: "distinct (map rc_id (records d))"
    using assms(1) by (simp add: schema_ok_def records_ok_def)
  then have dist: "distinct (map rc_id (permitted_rows d actor ids))"
    by (auto simp: permitted_rows_def intro: distinct_map_filter)
  show ?thesis
  proof (cases "find_record d i")
    case None
    then have "i \<notin> rc_id ` set (permitted_rows d actor ids)"
      by (auto simp: permitted_rows_def find_record_def find_None_iff)
    then show ?thesis
      using None by (simp add: entries map_of_eq_None_iff image_image)
  next
    case (Some r)
    then have r: "r \<in> set (records d)" "rc_id r = i"
      by (auto simp: find_record_def dest: find_SomeD)
    have only: "x = r" if "x \<in> set (records d)" "rc_id x = i" for x
      using keys r that by (auto simp: distinct_map inj_on_def)
    show ?thesis
    proof (cases "i \<in> set ids \<and> permitted d actor (rc_space_id r) False = Inr ()")
      case False
      then have "i \<notin> rc_id ` set (permitted_rows d actor ids)"
        using only by (auto simp: permitted_rows_def)
      then show ?thesis
        using Some False by (auto simp: entries map_of_eq_None_iff image_image)
    next
      case True
      then have "r \<in> set (permitted_rows d actor ids)"
        using r by (simp add: permitted_rows_def)
      then have got: "map_of (thread_roots d actor ids) i = Some (?val r)"
        using map_of_distinct_keys [OF dist, of r ?val] r(2) by (simp add: entries)
      let ?apex = "deepest (chain_rows d (rc_space_id r) THREAD_MAX_DEPTH (comma i) i 0)"
      have "in_space d (rc_space_id r) i"
        using Some by (simp add: in_space_def)
      then have "if has_reply_edge d ?apex
          then thread_ascend d (rc_space_id r) THREAD_MAX_DEPTH THREAD_MAX_NODES THREAD_MAX_EDGES i [] 0 = Inl InvalidJournal
          else \<exists>k. thread_ascend d (rc_space_id r) THREAD_MAX_DEPTH THREAD_MAX_NODES THREAD_MAX_EDGES i [] 0 = Inr (?apex, k)"
        by (intro chain_agrees [OF assms]) (simp_all add: comma_path_single [symmetric])
      then show ?thesis
        using Some True got r(2)
        by (auto simp: thread_root_id_def root_candidate_def root_entry_def has_reply_edge_def Let_def split: if_splits)
    qed
  qed
qed

end
