(* ===== verification/Service.thy ===== *)
theory Service
  imports Inbox Search
begin

text \<open>
  The service as a state machine: the public methods of \<open>BootstrapService\<close> as requests, a step
  that serves one, and the states reachable from a fresh store. A step may succeed or fail, at
  any point and with any storage fault; the invariants hold either way.
\<close>

section \<open>Requests\<close>

datatype request =
    CreatePrincipal principal_create_request
  | Register string principal_create_request
  | UpdateOwnProfile authenticated_credential string profile_update_request
  | CreateSpace space_create_request
  | SetMembership membership_request
  | Authenticate string
  | AuthenticateAppendReplay string
  | RotateCredential credential_rotate_request
  | RevokeCredential string "string option"
  | RecoverPrincipal principal_recovery_request
  | Me authenticated_credential
  | AppendRecord string string string record_input
  | GetRecord read_identity string
  | GetSpace string string
  | ListSpaces read_identity page_query
  | ListPrincipals string list_principals_query
  | ListRecords read_identity string list_records_query
  | GetThread read_identity string page_query
  | GetThreadRoot read_identity string
  | GetThreadRoots read_identity "string list"
  | SearchRecords read_identity string search_records_query
  | ReadInbox string inbox_query
  | AcknowledgeInboxItem string string
  | DeliveryStatus read_identity string page_query
  | VerifyViewer string

definition void :: "(store, 'a) prog \<Rightarrow> (store, unit) prog" where
  "void m = bind m (\<lambda>_. ret ())"

fun serve :: "env \<Rightarrow> request \<Rightarrow> (store, unit) prog" where
  "serve E (CreatePrincipal req) = void (create_principal E req)"
| "serve E (Register token req) = void (register E token req)"
| "serve E (UpdateOwnProfile actor key req) = void (update_own_profile E actor key req)"
| "serve E (CreateSpace req) = void (create_space E req)"
| "serve E (SetMembership req) = void (set_membership E req)"
| "serve E (Authenticate token) = void (authenticate E token PrincipalClient)"
| "serve E (AuthenticateAppendReplay token) = void (authenticate_append_replay E token)"
| "serve E (RotateCredential req) = void (rotate_credential E req)"
| "serve E (RevokeCredential i reason) = void (revoke E i reason)"
| "serve E (RecoverPrincipal req) = void (recover_principal E req)"
| "serve E (Me actor) = void (me E actor)"
| "serve E (AppendRecord token space key input) = void (append_record E token space key input)"
| "serve E (GetRecord identity i) = void (get_record_as E identity i)"
| "serve E (GetSpace token i) = void (get_space E token i)"
| "serve E (ListSpaces identity q) = void (list_spaces_as E identity q)"
| "serve E (ListPrincipals token q) = void (list_principals E token q)"
| "serve E (ListRecords identity space q) = void (list_records_as E identity space q)"
| "serve E (GetThread identity i q) = void (get_thread_as E identity i q)"
| "serve E (GetThreadRoot identity i) = void (get_thread_root_as E identity i)"
| "serve E (GetThreadRoots identity ids) = void (get_thread_roots_as E identity ids)"
| "serve E (SearchRecords identity space q) = void (search_records_as E identity space q)"
| "serve E (ReadInbox token q) = void (inbox E token q)"
| "serve E (AcknowledgeInboxItem token i) = void (acknowledge_inbox_item E token i)"
| "serve E (DeliveryStatus identity i q) = void (delivery_status_as E identity i q)"
| "serve E (VerifyViewer prin) = void (viewer_verify E prin)"

inductive step :: "env \<Rightarrow> store \<times> sources \<Rightarrow> store \<times> sources \<Rightarrow> bool" for E where
  served: "serve E req w = (r, w') \<Longrightarrow> step E w w'"

inductive_cases step_cases: "step E w w'"

section \<open>What a request does to the store\<close>

text \<open>\<open>always R m\<close>: whether \<open>m\<close> succeeds or fails, the stores before and after are related.\<close>

definition always :: "(store \<Rightarrow> store \<Rightarrow> bool) \<Rightarrow> (store, 'a) prog \<Rightarrow> bool" where
  "always R m \<longleftrightarrow> (\<forall>s z. R s (fst (snd (m (s, z)))))"

text \<open>The contract of a relation between stores that lies over a relation \<open>D\<close> between databases: a
  storage call that commits nothing keeps it, and so does committing a database related by \<open>D\<close>.\<close>

locale service_order = step_order R for R :: "store \<Rightarrow> store \<Rightarrow> bool" +
  fixes D :: "db \<Rightarrow> db \<Rightarrow> bool"
  assumes attempts: "R s (s\<lparr>transactions := n\<rparr>)"
    and finishes: "finish_transaction fault d (s\<lparr>transactions := n\<rparr>) = (rf, s') \<Longrightarrow> D (central s) d \<Longrightarrow> R s s'"
begin

lemma always_pure:
  "always R (ret x)" "always R (throw e)" "always R (lift r)" "always R (guard b e)" "always R (now E)"
  "always R (clock_now E)" "always R (fill E)" "always R fetch_add_sequence" "always R (reads f)"
  "always R (on_snapshot op)"
  by (auto simp: always_def ret_def throw_def lift_def guard_def now_def clock_now_def fill_def fetch_add_sequence_def
      reads_def on_snapshot_def bind_def refl split: prod.splits sum.splits)

lemma always_bind:
  assumes "always R m" "\<And>x. always R (f x)"
  shows "always R (bind m f)"
  unfolding always_def
proof (intro allI)
  fix s z
  obtain r s1 z1 where m: "m (s, z) = (r, s1, z1)" by (cases "m (s, z)")
  then have 1: "R s s1" using assms(1) unfolding always_def by (metis fst_conv snd_conv)
  show "R s (fst (snd (bind m f (s, z))))"
  proof (cases r)
    case (Inr x)
    have "R s1 (fst (snd (f x (s1, z1))))" using assms(2) unfolding always_def by blast
    with 1 have "R s (fst (snd (f x (s1, z1))))" by (rule trans)
    then show ?thesis using m Inr by (simp add: bind_def)
  qed (use m 1 in \<open>simp add: bind_def\<close>)
qed

lemma always_principal_id: "always R (principal_id E)"
  unfolding principal_id_def by (intro always_bind always_pure)

lemma always_io: "always R (connect_read_only E)" "always R (begin_read E)"
  by (simp_all add: always_def connect_read_only_def begin_read_def storage_io_def attempts)

lemma always_transaction:
  assumes "keeps D op"
  shows "always R (transaction E op)"
  unfolding always_def
proof (intro allI)
  fix s z
  obtain r s' z' where run: "with_transaction_for (env_faults E) StorageFailed op (s, z) = (r, s', z')"
    by (cases "with_transaction_for (env_faults E) StorageFailed op (s, z)")
  from run have "R s s'"
  proof (cases rule: with_transaction_cases)
    case (ran v d rf)
    then show ?thesis
      using finishes [OF ran(3)] keepsD [OF assms ran(1)] by simp
  qed (simp_all add: attempts)
  then show "R s (fst (snd (transaction E op (s, z))))"
    by (simp add: transaction_def run)
qed

lemma always_case_option: "always R m \<Longrightarrow> (\<And>x. always R (f x)) \<Longrightarrow> always R (case v of None \<Rightarrow> m | Some x \<Rightarrow> f x)"
  by (simp split: option.splits)

lemmas always_rules = always_pure always_bind always_principal_id always_io always_case_option

lemma always_read: "always R (read E op)"
  unfolding read_def by (intro always_rules)

lemma always_read_paged:
  "keeps D (bind (read_actor E identity) (\<lambda>_. cursor_codec E)) \<Longrightarrow> always R (read_paged E identity op)"
  unfolding read_paged_def by (intro always_rules always_transaction)

end

section \<open>The transactions of the service\<close>

text \<open>Every operation the service runs inside a transaction keeps \<open>D\<close>.\<close>

definition transactions_keep :: "env \<Rightarrow> (db \<Rightarrow> db \<Rightarrow> bool) \<Rightarrow> bool" where
  "transactions_keep E D \<longleftrightarrow>
     (\<forall>i t cr. keeps D (create_principal_tx i t cr)) \<and> (\<forall>h j cr. keeps D (register_tx E h j cr))
     \<and> (\<forall>actor k ph pu. keeps D (update_own_profile_tx E actor k ph pu)) \<and> (\<forall>row. keeps D (execute (insert_space row)))
     \<and> (\<forall>f :: db \<Rightarrow> berror + string. keeps D (reads f)) \<and> (\<forall>prin mr. keeps D (set_membership_tx E prin mr))
     \<and> (\<forall>t cx. keeps D (rotate_tx E t cx)) \<and> (\<forall>t i reason. keeps D (revoke_tx E t i reason))
     \<and> (\<forall>prr. keeps D (recover_principal_tx E prr))
     \<and> (\<forall>token space key input. keeps D (append_record_tx E token space key input))
     \<and> (\<forall>identity. keeps D (bind (read_actor E identity) (\<lambda>_. cursor_codec E)))
     \<and> (\<forall>token item. keeps D (acknowledge_tx E token item))
     \<and> (\<forall>identity space. keeps D (search_codec_tx E identity space))
     \<and> (\<forall>identity. keeps D (bind (read_actor E identity) (\<lambda>_. ret ())))"

context service_order
begin

lemma serve_always:
  assumes "transactions_keep E D"
  shows "always R (serve E req)"
proof -
  note keep = assms [unfolded transactions_keep_def]
  show ?thesis
    using keep
    by (cases req)
      (auto simp: void_def create_principal_def register_def update_own_profile_def create_space_def set_membership_def
        authenticate_def authenticate_append_replay_def rotate_credential_def revoke_def recover_principal_def me_def
        append_record_def get_record_as_def get_space_def list_spaces_as_def list_principals_def list_records_as_def
        get_thread_as_def get_thread_root_as_def get_thread_roots_as_def search_records_as_def inbox_def acknowledge_inbox_item_def delivery_status_as_def viewer_verify_def
        intro!: always_rules always_read always_read_paged always_transaction)
qed

lemma step_related:
  assumes "transactions_keep E D" "step E w w'"
  shows "R (fst w) (fst w')"
proof -
  obtain req r where "serve E req (fst w, snd w) = (r, fst w', snd w')"
    using assms(2) by (auto elim: step_cases)
  then show ?thesis
    using serve_always [OF assms(1), of req] unfolding always_def by (metis fst_conv snd_conv)
qed

lemma steps_related:
  assumes "transactions_keep E D" "(step E)\<^sup>*\<^sup>* w w'"
  shows "R (fst w) (fst w')"
  using assms(2) by induction (auto intro: refl trans step_related [OF assms(1)])

end

section \<open>The invariants of the service\<close>

lemma counted_transactions: "transactions_keep E counted"
  unfolding transactions_keep_def search_codec_tx_def
  by (intro conjI allI bootstrap_counted rotate_counted append_counted acknowledge_counted counted_rules db_counting.keeps_actor)

lemma schema_transactions: "transactions_keep E preserves_schema"
  unfolding transactions_keep_def search_codec_tx_def
  by (intro conjI allI bootstrap_schema recover_schema rotate_schema append_schema acknowledge_schema schema_rules
      db_schema.keeps_actor)

text \<open>The tables of the journal itself, which only \<open>append_record\<close> writes.\<close>

definition same_journal :: "db \<Rightarrow> db \<Rightarrow> bool" where
  "same_journal d d' \<longleftrightarrow> records d' = records d \<and> record_relations d' = record_relations d
     \<and> attention d' = attention d \<and> idempotency_keys d' = idempotency_keys d"

lemma same_journal_grows: "same_journal d d' \<Longrightarrow> journal_grows d d'"
  by (auto simp: same_journal_def journal_grows_def)

lemma update_same_journal:
  assumes "\<And>d d' n. f d = Inr (d', n) \<Longrightarrow> same_journal d d'"
  shows "keeps journal_grows (update f)"
  by (auto simp: keeps_def update_Inr same_journal_def intro!: same_journal_grows dest!: assms)

lemma grows_execute:
  "keeps journal_grows (execute (insert_principal r0))"
  "keeps journal_grows (execute (insert_name r1))"
  "keeps journal_grows (execute (insert_credential r2))"
  "keeps journal_grows (execute (insert_receipt r3))"
  "keeps journal_grows (execute (insert_credential_audit r4))"
  "keeps journal_grows (execute (insert_audit_event r5))"
  "keeps journal_grows (execute (insert_profile_key r6))"
  "keeps journal_grows (execute (insert_space r7))"
  "keeps journal_grows (execute (upsert_membership r8))"
  "keeps journal_grows (execute (insert_cursor_secret r9))"
  by (intro growing.keeps_execute same_journal_grows,
      auto simp: same_journal_def changed_def dest!: insert_principalD insert_nameD insert_credentialD insert_receiptD
        insert_credential_auditD insert_audit_eventD insert_profile_keyD insert_spaceD upsert_membershipD insert_cursor_secretD)+

lemma grows_update:
  "keeps journal_grows (update (retire_name n p))"
  "keeps journal_grows (update (update_profile_row req p))"
  "keeps journal_grows (update (update_credentials hit f))"
  "keeps journal_grows (update (set_acknowledged item t))"
  by (intro update_same_journal, auto simp: same_journal_def retire_name_def update_profile_row_def update_credentials_def
      set_acknowledged_def Let_def result_simps)+

lemma append_tx_replayed:
  assumes "append_record_tx E token space key input (d, z) = (Inr res, d1, z1)" "ar_replayed res"
  shows "d1 = d"
proof -
  from assms(1) obtain a da z0 where st: "append_replay_actor E token (d, z) = (Inr a, da, z0)"
    "(case find_idempotency da a (append_path space) key of
       Some p \<Rightarrow> reads (replay_append E (payload_hash E input) p)
     | None \<Rightarrow> new_append E token space (append_path space) key (payload_hash E input) input) (da, z0) = (Inr res, d1, z1)"
    by (auto simp: append_record_tx_def bind_Inr reads_Inr)
  have "da = d" using unchangedD [OF unchanged.keeps_append_replay_actor st(1)] .
  moreover have "\<not> ar_replayed res" if "find_idempotency da a (append_path space) key = None"
    using st(2) that by (auto elim!: new_appendD)
  ultimately show ?thesis
    using st(2) assms(2) by (auto simp: reads_Inr split: option.splits)
qed

lemma append_grows: "keeps journal_grows (append_record_tx E token space key input)"
  unfolding keeps_def
proof (intro allI impI)
  fix d z res d1 z1 assume run: "append_record_tx E token space key input (d, z) = (Inr res, d1, z1)"
  show "journal_grows d d1"
  proof (cases "ar_replayed res")
    case False
    then obtain a z0 where "new_append E token space (append_path space) key (payload_hash E input) input (d, z0) = (Inr res, d1, z1)"
      using append_tx_new [OF run] by metis
    then obtain actor inp t i k where "i \<notin> rc_id ` set (records d)" "appended d space actor inp t i k d1"
      by (rule new_appendD) blast
    then show ?thesis by (intro appended_grows)
  next
    case True
    then show ?thesis using append_tx_replayed [OF run] growing.refl by simp
  qed
qed

lemmas grows_rules = growing.keeps_rules growing.keeps_actor grows_execute grows_update append_grows

lemma growing_transactions: "transactions_keep E journal_grows"
  unfolding transactions_keep_def create_principal_tx_def register_tx_def new_registration_def update_own_profile_tx_def
    new_profile_def set_membership_tx_def rotate_tx_def issue_principal_def revoke_tx_def recover_principal_tx_def
    acknowledge_tx_def search_codec_tx_def cursor_codec_def Let_def
  by (intro conjI allI grows_rules)

text \<open>Three relations between stores over them.\<close>

interpretation schema_service: service_order "\<lambda>s s'. schema_ok (central s) \<longrightarrow> schema_ok (central s')" preserves_schema
proof
  fix fault d s n rf s'
  assume "finish_transaction fault d (s\<lparr>transactions := n\<rparr>) = (rf, s')" "preserves_schema (central s) d"
  then show "schema_ok (central s) \<longrightarrow> schema_ok (central s')"
    using schema_inv.finish_committed [of fault d "s\<lparr>transactions := n\<rparr>" rf s'] schema_inv.committed_inv [of d "central s'"]
    by (auto simp: preserves_schema_def)
qed auto

interpretation audit_service: service_order "\<lambda>s s'. audit_consistent s \<longrightarrow> audit_consistent s'" counted
proof
  fix fault d s n rf s'
  assume "finish_transaction fault d (s\<lparr>transactions := n\<rparr>) = (rf, s')" "counted (central s) d"
  then show "audit_consistent s \<longrightarrow> audit_consistent s'"
    using finish_consistent [of fault d "s\<lparr>transactions := n\<rparr>" rf s'] by (auto simp: counted_def)
qed auto

lemma journal_grows_committed: "committed_as d d' \<Longrightarrow> journal_grows d d'"
  by (auto simp: committed_as_def same_journal_def changed_def intro!: same_journal_grows)

interpretation journal_service: service_order "\<lambda>s s'. journal_grows (central s) (central s')" journal_grows
proof
  fix fault d s n rf s'
  assume "finish_transaction fault d (s\<lparr>transactions := n\<rparr>) = (rf, s')" "journal_grows (central s) d"
  then show "journal_grows (central s) (central s')"
    using schema_inv.finish_committed [of fault d "s\<lparr>transactions := n\<rparr>" rf s'] growing.refl growing.trans
      journal_grows_committed [of d "central s'"] by auto
qed (auto intro: growing.refl growing.trans)

text \<open>A store from which the service starts: an empty database of the current schema, and, when it is
  protected, an audit that holds the baseline event \<open>open_with_lock\<close> writes.\<close>

definition baseline_event :: "db \<Rightarrow> audit_event" where
  "baseline_event d = \<lparr>ev_revision = 0, ev_snapshot = Some (take_snapshot d), ev_outcome = Committed\<rparr>"

definition initial :: "store \<Rightarrow> bool" where
  "initial s \<longleftrightarrow> (\<exists>j b. central s = empty_db\<lparr>journal_id := j, audit_required := b\<rparr>)
     \<and> pred_option (\<lambda>a. a = \<lparr>au_format = 1, au_journal_id = journal_id (central s), au_open = True,
          au_events = [baseline_event (central s)], au_recovery_events = []\<rparr>) (audit s)"

inductive reachable :: "env \<Rightarrow> store \<times> sources \<Rightarrow> bool" for E where
  fresh: "initial s \<Longrightarrow> reachable E (s, z)"
| next_request: "reachable E w \<Longrightarrow> step E w w' \<Longrightarrow> reachable E w'"

lemma initial_ok:
  assumes "initial s"
  shows "schema_ok (central s)" "audit_consistent s"
proof -
  obtain j b where d: "central s = empty_db\<lparr>journal_id := j, audit_required := b\<rparr>"
    using assms by (auto simp: initial_def)
  show "schema_ok (central s)"
    by (simp add: d ok_frame empty_db_def)
  have "anchor_revision (central s) = 0"
    by (simp add: d empty_db_def)
  then show "audit_consistent s"
    using assms by (cases "audit s")
      (simp_all add: initial_def audit_consistent_def audit_events_ok_def describes_def baseline_event_def)
qed

lemma reachable_ok:
  assumes "reachable E w"
  shows "schema_ok (central (fst w)) \<and> audit_consistent (fst w)"
  using assms
proof induction
  case (fresh s z)
  then show ?case using initial_ok by simp
next
  case (next_request w w')
  then show ?case
    using schema_service.step_related [OF schema_transactions] audit_service.step_related [OF counted_transactions] by blast
qed

end
