(* ===== verification/Sample_Journal.thy ===== *)
theory Sample_Journal
  imports Samples Service
begin

text \<open>
  A small journal: two principals with one credential each, a public space with a record and a
  reply to it, and one inbox item. The service's operations are run on it, and the properties of
  the storage layer and the service applied to those runs.
\<close>

section \<open>The environment\<close>

definition noise :: "nat \<Rightarrow> nat \<Rightarrow> byte" where
  "noise n i = of_nat (n + i)"

definition sample_time :: "int \<Rightarrow> string" where
  "sample_time s = CHR ''t'' # show_nat (nat s)"

text \<open>A text index that matches substrings; the empty query is malformed.\<close>

definition occurs_in :: "string \<Rightarrow> string \<Rightarrow> bool" where
  "occurs_in q t = list_ex (\<lambda>i. take (length q) (drop i t) = q) [0..<length t]"

definition sample_search :: search_engine where
  "sample_search = \<lparr>se_match = (\<lambda>q. if q = [] then Inl (SqliteFailure 1 (Some ''fts5: syntax error'')) else Inr (occurs_in q)),
     se_score = (\<lambda>_ _. 0x3FF0000000000000), se_snippet = (\<lambda>_ t. t),
     se_unixepoch = (\<lambda>t. Some (int (digits_value (tl t)))),
     se_timestamp = (\<lambda>t. Some (int (digits_value (tl t)) * 10 ^ 9))\<rparr>"

definition sample_env :: env where
  "sample_env = \<lparr>env_crypto = sample_crypto, env_clock = (\<lambda>n. int n * 10 ^ 9),
     env_random = (\<lambda>n. Some (noise n)), env_format_timestamp = (\<lambda>s. Some (sample_time s)),
     env_julianday = (\<lambda>t. Some (int (digits_value (tl t)))),
     env_search = sample_search, env_failpoint = None, env_faults = (\<lambda>_ _. None)\<rparr>"

definition sources0 :: sources where
  "sources0 = \<lparr>clock_calls = 1, random_calls = 0, principal_sequence = 0\<rparr>"

definition token_a :: string where
  "token_a = replicate 64 CHR ''a''"

definition token_b :: string where
  "token_b = replicate 64 CHR ''b''"

lemma token_shape [simp]: "bearer_token token_a" "bearer_token token_b"
  by code_simp+

definition hash_a :: string where
  "hash_a = digest sample_env token_a"

definition hash_b :: string where
  "hash_b = digest sample_env token_b"

lemma hashes [simp]: "hash_a \<noteq> hash_b" "hash_b \<noteq> hash_a" "digest sample_env token_a = hash_a" "digest sample_env token_b = hash_b"
  by (code_simp, code_simp, simp_all add: hash_a_def hash_b_def)

section \<open>The journal\<close>

definition sample_record :: "string \<Rightarrow> int \<Rightarrow> string \<Rightarrow> record_row" where
  "sample_record i seq author = \<lparr>rc_id = i, rc_space_id = ''s'', rc_space_seq = seq, rc_author = author,
     rc_kind = ''note'', rc_content = ''text'', rc_run_id = None, rc_routing_key = None, rc_title = None,
     rc_created_at = ''t0''\<rparr>"

definition sample_db :: db where
  "sample_db = empty_db\<lparr>
     principals := [new_principal ''pa'' ''Alice'' ''t0'', new_principal ''pb'' ''Bob'' ''t0''],
     principal_names := [new_name ''alice'' ''pa'' ''t0'', new_name ''bob'' ''pb'' ''t0''],
     credentials := [new_credential ''ca'' ''pa'' hash_a ''t0'', new_credential ''cb'' ''pb'' hash_b ''t0''],
     spaces := [\<lparr>sp_id = ''s'', sp_name = ''Space'', sp_access = ''public'', sp_created_at = ''t0'', sp_archived_at = None\<rparr>],
     records := [sample_record ''r1'' 1 ''pa'', sample_record ''r2'' 2 ''pb''],
     record_relations := [\<lparr>re_source = ''r2'', re_type = ''reply-to'', re_target = ''r1'', re_created_at = ''t0'', re_position = 0\<rparr>],
     attention := [attention_of ''r1'' ''t0'' ''pb''],
     inbox_sequences := [(''pb'', 1)],
     mailbox_items := [\<lparr>mi_id = ''m1'', mi_record_id = ''r1'', mi_recipient = ''pb'', mi_created_at = ''t0'', mi_seq = 1,
       mi_acknowledged_at = None\<rparr>],
     cursor_secret := Some (replicate 32 5)\<rparr>"

lemmas rows = new_principal_def new_name_def sample_record_def attention_of_def

lemma sample_ok: "schema_ok sample_db"
  by (simp add: ok_frame sample_db_def empty_db_def rows i64_max_def RELATION_TYPES_def)

section \<open>Running programs\<close>

lemma bind_weak_cong: "m = m' \<Longrightarrow> w = w' \<Longrightarrow> bind m f w = bind m' f w'"
  by simp

text \<open>The primitives as functions of the world, and the sources of the sample.\<close>

lemma sample_env_sel [simp]:
  "env_crypto sample_env = sample_crypto" "env_clock sample_env n = int n * 10 ^ 9"
  "env_random sample_env n = Some (noise n)" "env_format_timestamp sample_env s = Some (sample_time s)"
  "env_julianday sample_env t = Some (int (digits_value (tl t)))" "env_failpoint sample_env = None"
  "env_faults sample_env n st = None"
  by (simp_all add: sample_env_def)

lemma sample_json_sel [simp]: "json_codec sample_crypto = sample_json"
  by (simp add: sample_crypto_def)

lemma sources_run:
  "now E (d, z) = (timestamp E (env_clock E (clock_calls z)), d, z\<lparr>clock_calls := clock_calls z + 1\<rparr>)"
  "clock_now E (d, z) = (Inr (env_clock E (clock_calls z)), d, z\<lparr>clock_calls := clock_calls z + 1\<rparr>)"
  "fill sample_env (d, z) = (Inr (map (noise (random_calls z)) [0..<32]), d, z\<lparr>random_calls := random_calls z + 1\<rparr>)"
  "secret sample_env (d, z) = (Inr (hex (map (noise (random_calls z)) [0..<32])), d, z\<lparr>random_calls := random_calls z + 1\<rparr>)"
  "checkpoint sample_env b = ret ()"
  by (simp_all add: now_def clock_now_def fill_def secret_def bind_def lift_def ret_def checkpoint_def)

lemmas run_eval = ret_def throw_def bind_def lift_def reads_def execute_def update_def guard_def fetch_add_sequence_def
  sources_run sources0_def i64_max_def changed_def timestamp_def millis_since_epoch_def Let_def

lemmas lookups = find_token_def find_name_def find_principal_def find_credential_def find_record_def
  active_row_def active_principal_def current_name_def live_credential_def unexpired_def permitted_def

lemmas sample_db = sample_db_def empty_db_def rows


lemma validate_input_ok [simp]: "well_formed_input i \<Longrightarrow> validate_record_input i = Inr ()"
  by (simp add: validate_record_input_Inr)

definition sample_note :: record_input where
  "sample_note = sample_input\<lparr>in_title := None\<rparr>"


text \<open>The identifiers drawn at the n-th call of the random source.\<close>

definition drawn :: "nat \<Rightarrow> byte list" where
  "drawn n = map (noise n) [0..<32]"

lemma length_drawn [simp]: "length (drawn n) = 32"
  by (simp add: drawn_def)

lemma record_uuid_fresh [simp]:
  "length s \<noteq> 36 \<Longrightarrow> record_uuid m (drawn n) \<noteq> s" "length s \<noteq> 36 \<Longrightarrow> s \<noteq> record_uuid m (drawn n)"
  using record_uuid_shape [of "drawn n" m] by (auto simp: uuid_v7_shape_def)

lemmas append_eval = append_record_tx_def append_replay_actor_def append_replay_query_def journal_actor_def
  authenticate_query_def new_append_def cursor_codec_def cursor_codec_new_def MIN_KEY_BYTES_def resolve_attention_def
  find_idempotency_def append_checked_def record_id_def write_record_def deliver_def insert_defs between_def
  next_sequence_def space_head_def read_inbox_sequence_def record_row_of_def sql_length_def
  canonical_append_def well_formed_input_def valid_eval sample_note_def sample_input_def append_path_def

section \<open>Appending\<close>

lemma append_run:
  obtains res d1 z1 where "append_record_tx sample_env token_a ''s'' ''k'' sample_note (sample_db, sources0) = (Inr res, d1, z1)"
    "\<not> ar_replayed res" "r_author (ar_record res) = ''pa''" "r_attention (ar_record res) = [''pb'']"
    "credentials d1 = credentials sample_db" "total_changes d1 = 5"
  using that by (simp add: append_eval run_eval lookups sample_db drawn_def [symmetric] cong: bind_weak_cong)

theorem append_is_complete_witness:
  "\<exists>res d1 z1. append_record_tx sample_env token_a ''s'' ''k'' sample_note (sample_db, sources0) = (Inr res, d1, z1)
    \<and> record_of d1 (r_id (ar_record res)) = Inr (ar_record res) \<and> r_seq (ar_record res) = 3
    \<and> (\<exists>m. mailbox_items d1 = mailbox_items sample_db @ [m] \<and> mi_recipient m = ''pb'' \<and> mi_seq m = 2)"
proof -
  obtain res d1 z1 where run: "append_record_tx sample_env token_a ''s'' ''k'' sample_note (sample_db, sources0) = (Inr res, d1, z1)"
    "\<not> ar_replayed res" "r_attention (ar_record res) = [''pb'']"
    by (rule append_run)
  have "space_head sample_db ''s'' = 2" "inbox_head sample_db ''pb'' = 1"
    by (simp_all add: space_head_def inbox_head_def sample_db)
  then show ?thesis
    using append_is_complete [OF run(1,2) sample_ok] run
    by (auto simp: list_all2_Cons1 delivered_def)
qed


section \<open>Thread roots\<close>

theorem thread_roots_agree_witness:
  "map_of (thread_roots sample_db ''pb'' [''r2'', ''missing'']) ''r2'' = Some (''r1'', None)
    \<and> map_of (thread_roots sample_db ''pb'' [''r2'', ''missing'']) ''missing'' = None"
proof -
  have plain: "list_all (\<lambda>r. CHR '','' \<notin> set (rc_id r)) (records sample_db)"
    by (simp add: sample_db)
  have "thread_root_id sample_db ''r2'' ''s'' THREAD_MAX_DEPTH THREAD_MAX_NODES THREAD_MAX_EDGES = Inr (''r1'', 1, True)"
    by (simp add: thread_root_id_def thread_ascend.simps reply_parent_def in_space_def lookups sample_db
        THREAD_MAX_DEPTH_def THREAD_MAX_NODES_def THREAD_MAX_EDGES_def)
  moreover have "find_record sample_db ''r2'' = Some (sample_record ''r2'' 2 ''pb'')"
      "find_record sample_db ''r1'' = Some (sample_record ''r1'' 1 ''pa'')" "find_record sample_db ''missing'' = None"
      "permitted sample_db ''pb'' ''s'' False = Inr ()"
    by (simp_all add: lookups sample_db)
  ultimately show ?thesis
    using thread_roots_agree [OF sample_ok plain, of "''pb''" "[''r2'', ''missing'']" "''r2''"]
      thread_roots_agree [OF sample_ok plain, of "''pb''" "[''r2'', ''missing'']" "''missing''"]
    by (simp add: sample_record_def)
qed

section \<open>Transactions\<close>

definition sample_store :: store where
  "sample_store = \<lparr>central = sample_db, audit = Some \<lparr>au_format = 1, au_journal_id = journal_id sample_db, au_open = True,
     au_events = [\<lparr>ev_revision = 0, ev_snapshot = Some (take_snapshot sample_db), ev_outcome = Committed\<rparr>],
     au_recovery_events = []\<rparr>,
     transactions = 0\<rparr>"

lemma sample_store_consistent: "audit_consistent sample_store"
  by (simp add: audit_consistent_def sample_store_def audit_events_ok_def describes_def) (simp add: sample_db)

lemmas transaction_eval = with_transaction_for_def open_transaction_def ensure_open_def head_def head_event_def
  finish_transaction_def prepare_intent_def prepare_def prepare_revision_def committed_def attempt_def
  complete_event_def release_superseded_snapshots_def

lemma transaction_run:
  obtains v s' z' where "with_transaction_for (\<lambda>_ _. None) StorageFailed
      (append_record_tx sample_env token_a ''s'' ''k'' sample_note) (sample_store, sources0) = (Inr v, s', z')"
proof -
  obtain res d1 z1 where run: "append_record_tx sample_env token_a ''s'' ''k'' sample_note (sample_db, sources0) = (Inr res, d1, z1)"
    "total_changes d1 = 5"
    by (rule append_run)
  have "total_changes sample_db = 0" "anchor_revision sample_db = 0"
    by (simp_all add: sample_db)
  then show thesis
    using that run by (simp add: transaction_eval sample_store_def Let_def i64_max_def)
qed

theorem transaction_atomic_witness:
  "\<exists>v s' z' d. with_transaction_for (\<lambda>_ _. None) StorageFailed
      (append_record_tx sample_env token_a ''s'' ''k'' sample_note) (sample_store, sources0) = (Inr v, s', z')
    \<and> append_record_tx sample_env token_a ''s'' ''k'' sample_note (central sample_store, sources0) = (Inr v, d, z')
    \<and> committed_as d (central s')"
proof -
  obtain v s' z' where run: "with_transaction_for (\<lambda>_ _. None) StorageFailed
      (append_record_tx sample_env token_a ''s'' ''k'' sample_note) (sample_store, sources0) = (Inr v, s', z')"
    by (rule transaction_run)
  show ?thesis
    using transaction_atomic [OF run sample_store_consistent] run by auto
qed

definition stopped_store :: store where
  "stopped_store = sample_store\<lparr>audit := Some \<lparr>au_format = 1, au_journal_id = journal_id sample_db, au_open = True,
     au_events = [\<lparr>ev_revision = 1, ev_snapshot = Some (take_snapshot sample_db), ev_outcome = Prepared\<rparr>],
     au_recovery_events = []\<rparr>\<rparr>"

theorem unresolved_intent_refuses_witness:
  "\<exists>e. with_transaction_for (\<lambda>_ _. None) StorageFailed
      (append_record_tx sample_env token_a ''s'' ''k'' sample_note) (stopped_store, sources0)
    = (Inl (StorageFailed e), stopped_store\<lparr>transactions := 1\<rparr>, sources0)"
proof -
  have "head_prepared stopped_store" "transactions stopped_store = 0"
    by (simp_all add: head_prepared_def head_event_def stopped_store_def sample_store_def)
  then show ?thesis
    using unresolved_intent_refuses [of stopped_store] by simp
qed

theorem generated_ids_witness: "validate_uuid_v7 ''record_id'' (record_uuid 5000 (drawn 0)) = Inr ()"
proof -
  have "record_id sample_env (5 * 10 ^ 9) (sample_db, sources0)
      = (Inr (record_uuid 5000 (drawn 0)), sample_db, sources0\<lparr>random_calls := 1\<rparr>)"
    by (simp add: record_id_def run_eval drawn_def cong: bind_weak_cong)
  then show ?thesis
    by (intro generated_ids_are_uuid_v7 disjI2)
qed

section \<open>Principals and credentials\<close>

definition sample_request :: principal_create_request where
  "sample_request = \<lparr>pc_handle = ''carol'', pc_display_name = ''Carol''\<rparr>"

abbreviation sample_request_json :: string where
  "sample_request_json \<equiv> encode_json (json_codec (env_crypto sample_env)) principal_create_json sample_request"

lemma sample_principal_id [simp]: "principal_uuid 2000 (drawn 0) 0 = ''00000000-07d0-7607-8809-0a0b0c0d0e0f''"
  by code_simp

lemmas register_eval = register_tx_def new_registration_def principal_id_def insert_defs between_def sql_length_def
  chars_count_def is_continuation_def credential_event_def principal_descriptor_def descriptor_def sample_request_def

lemma cred_fresh [simp]: "''cred-'' @ hex (drawn n) \<noteq> ''ca''" "''cred-'' @ hex (drawn n) \<noteq> ''cb''"
  by simp_all

lemma hash_fresh [simp]: "hash_a \<noteq> ''hc''" "hash_b \<noteq> ''hc''" "''hc'' \<noteq> hash_a" "''hc'' \<noteq> hash_b"
  by code_simp+

definition sample_outcome :: registration_outcome where
  "sample_outcome = \<lparr>ro_receipt = \<lparr>rg_principal = \<lparr>p_id = ''00000000-07d0-7607-8809-0a0b0c0d0e0f'', p_handle = ''carol'',
        p_display_name = ''Carol'', p_description = None, p_profile_revision = 1, p_created_at = sample_time 1, p_disabled = False\<rparr>,
        rg_credential_id = ''cred-'' @ hex (drawn 1)\<rparr>, ro_replayed = False\<rparr>"

lemma register_run:
  obtains d1 z1 where "register_tx sample_env ''hc'' sample_request_json sample_request (sample_db, sources0) = (Inr sample_outcome, d1, z1)"
    "find_token d1 ''hc'' = Some (new_credential (''cred-'' @ hex (drawn 1)) ''00000000-07d0-7607-8809-0a0b0c0d0e0f'' ''hc'' (sample_time 1))"
    "active_row d1 ''00000000-07d0-7607-8809-0a0b0c0d0e0f''"
  using that by (simp add: sample_outcome_def register_eval run_eval lookups sample_db drawn_def [symmetric] cong: bind_weak_cong)

lemma sample_outcome_new: "\<not> ro_replayed sample_outcome"
  by (simp add: sample_outcome_def)

theorem registration_is_idempotent_witness:
  "\<exists>d1 z1. register_tx sample_env ''hc'' sample_request_json sample_request (sample_db, sources0) = (Inr sample_outcome, d1, z1)
    \<and> register_tx sample_env ''hc'' sample_request_json sample_request (d1, sources0)
      = (Inr (sample_outcome\<lparr>ro_replayed := True\<rparr>), d1, sources0\<lparr>clock_calls := 2\<rparr>)"
proof -
  obtain d1 z1 where run: "register_tx sample_env ''hc'' sample_request_json sample_request (sample_db, sources0) = (Inr sample_outcome, d1, z1)"
    and row: "find_token d1 ''hc'' = Some (new_credential (''cred-'' @ hex (drawn 1)) ''00000000-07d0-7607-8809-0a0b0c0d0e0f'' ''hc'' (sample_time 1))"
    "active_row d1 ''00000000-07d0-7607-8809-0a0b0c0d0e0f''"
    by (rule register_run)
  have ok: "schema_ok d1"
    using keepsD [OF bootstrap_schema(2) run] sample_ok by (simp add: preserves_schema_def)
  have json: "json_roundtrips (json_codec (env_crypto sample_env)) (registration_receipt_json (ro_receipt sample_outcome))"
    by code_simp
  have time: "timestamp sample_env (env_clock sample_env (clock_calls sources0)) = Inr (sample_time 1)"
    by (simp add: run_eval)
  have "sources0\<lparr>clock_calls := clock_calls sources0 + 1\<rparr> = sources0\<lparr>clock_calls := 2\<rparr>"
    by (simp add: sources0_def)
  then show ?thesis
    using registration_is_idempotent [OF run sample_outcome_new sample_ok subset_refl ok row(1) _ _ time json, of sample_request] run row(2)
    by (simp add: live_credential_def unexpired_def)
qed

definition sample_rotation :: credential_rotate_request where
  "sample_rotation = \<lparr>cx_credential_id = ''ca'', cx_reason = None\<rparr>"

lemma digest_fresh [simp]: "digest sample_env (hex (drawn (Suc 0))) \<noteq> hash_a" "digest sample_env (hex (drawn (Suc 0))) \<noteq> hash_b"
  by code_simp+

lemmas credential_eval = rotate_tx_def issue_principal_def update_credentials_def insert_defs credential_event_def parse_class_def
  sample_rotation_def new_credential_def

theorem rotation_moves_authority_witness:
  "\<exists>rot d1 z1. rotate_tx sample_env ''t1'' sample_rotation (sample_db, sources0) = (Inr rot, d1, z1)
    \<and> authenticate_query sample_env hash_a PrincipalClient ''t2'' d1 = Inl Unauthorized
    \<and> authenticate_query sample_env (digest sample_env (ots_secret (rot_replacement_secret rot))) PrincipalClient ''t2'' d1
      = Inr \<lparr>ac_credential_id = ots_credential_id (rot_replacement_secret rot), ac_principal_id = ''pa'', ac_class = PrincipalClient\<rparr>"
proof -
  obtain rot d1 z1 where run: "rotate_tx sample_env ''t1'' sample_rotation (sample_db, sources0) = (Inr rot, d1, z1)"
    by (simp add: credential_eval run_eval lookups sample_db drawn_def [symmetric] cong: bind_weak_cong)
  have "find_credential sample_db (cx_credential_id sample_rotation) = Some (new_credential ''ca'' ''pa'' hash_a ''t0'')"
    by (simp add: find_credential_def sample_rotation_def sample_db)
  then show ?thesis
    using rotation_moves_authority [OF run sample_ok] run by (auto simp: unexpired_def)
qed

definition sample_recovery :: principal_recovery_request where
  "sample_recovery = \<lparr>prr_principal_id = ''pa'', prr_reason = None\<rparr>"

theorem recovery_leaves_only_the_replacement_witness:
  "\<exists>rcv d1 z1. recover_principal_tx sample_env sample_recovery (sample_db, sources0) = (Inr rcv, d1, z1)
    \<and> length (filter (live_of sample_env (sample_time 1) ''pa'') (credentials d1)) = 1
    \<and> filter (\<lambda>c. cr_principal_id c \<noteq> ''pa'') (credentials d1) = [new_credential ''cb'' ''pb'' hash_b ''t0'']"
proof -
  obtain rcv d1 z1 where run: "recover_principal_tx sample_env sample_recovery (sample_db, sources0) = (Inr rcv, d1, z1)"
    by (simp add: recover_principal_tx_def principal_descriptor_def live_of_def sample_recovery_def credential_eval run_eval
        lookups sample_db drawn_def [symmetric] cong: bind_weak_cong)
  have time: "timestamp sample_env (env_clock sample_env (clock_calls sources0)) = Inr (sample_time 1)"
    by (simp add: run_eval)
  show ?thesis
    using recovery_leaves_only_the_replacement [OF run time] run
    by (auto simp: sample_recovery_def) (simp add: sample_db)
qed

definition sample_actor :: authenticated_credential where
  "sample_actor = \<lparr>ac_credential_id = ''ca'', ac_principal_id = ''pa'', ac_class = PrincipalClient\<rparr>"

definition sample_profile :: profile_update_request where
  "sample_profile = \<lparr>pu_handle = ''alicia'', pu_display_name = ''Alicia'', pu_description = None, pu_expected_profile_revision = 1\<rparr>"

theorem profile_update_is_versioned_witness:
  "\<exists>p d1 z1. update_own_profile_tx sample_env sample_actor ''k'' ''ph'' sample_profile (sample_db, sources0) = (Inr p, d1, z1)
    \<and> p_profile_revision p = 2 \<and> (\<exists>y. find_name d1 ''alice'' = Some y \<and> nm_principal_id y = ''pa'')"
proof -
  obtain p d1 z1 where run: "update_own_profile_tx sample_env sample_actor ''k'' ''ph'' sample_profile (sample_db, sources0) = (Inr p, d1, z1)"
    by (simp add: update_own_profile_tx_def find_profile_key_def new_profile_def live_actor_def current_profile_def retire_name_def
        update_profile_row_def principal_descriptor_def descriptor_def insert_defs between_def sql_length_def chars_count_def is_continuation_def
        sample_actor_def sample_profile_def run_eval lookups sample_db drawn_def [symmetric] cong: bind_weak_cong)
  have none: "find_profile_key sample_db (ac_principal_id sample_actor) ''k'' = None"
    by (simp add: find_profile_key_def sample_db)
  have row: "find_principal sample_db ''pa'' = Some (new_principal ''pa'' ''Alice'' ''t0'')"
      "find_name sample_db ''alice'' = Some (new_name ''alice'' ''pa'' ''t0'')"
    by (simp_all add: find_principal_def find_name_def sample_db)
  note versioned = profile_update_is_versioned [OF run none sample_ok]
  have "\<exists>y. find_name d1 ''alice'' = Some y \<and> nm_principal_id y = nm_principal_id (new_name ''alice'' ''pa'' ''t0'')"
    using versioned row(2) by blast
  moreover have "p_profile_revision p = 2"
    using versioned row(1) by (auto simp: sample_actor_def descriptor_def updated_profile_def new_principal_def)
  ultimately show ?thesis
    using run by (simp add: new_name_def)
qed

section \<open>Reading\<close>

theorem thread_ids_exact_witness:
  "\<exists>ids. thread_ids sample_db ''r2'' ''s'' 64 4096 8192 = Inr ids \<and> set (map snd ids) = {''r1'', ''r2''}"
proof -
  have ids: "thread_ids sample_db ''r2'' ''s'' 64 4096 8192 = Inr [(1, ''r1''), (2, ''r2'')]"
    by (simp add: thread_ids_def thread_root_id_def thread_ascend.simps thread_descend.simps reply_parent_def reply_children_def
        in_space_def usize_sub_def find_record_def sample_db)
  have "in_space sample_db ''s'' ''r2''"
    by (simp add: in_space_def find_record_def sample_db)
  then show ?thesis
    using thread_ids_exact [OF ids] ids by auto
qed


theorem acknowledgement_witness:
  "\<exists>d1 z1. acknowledge_tx sample_env token_b ''m1'' (sample_db, sources0) = (Inr (), d1, z1)
    \<and> (\<exists>t. map mi_acknowledged_at (mailbox_items d1) = [Some t])"
proof -
  obtain d1 z1 where run: "acknowledge_tx sample_env token_b ''m1'' (sample_db, sources0) = (Inr (), d1, z1)"
    by (simp add: acknowledge_tx_def journal_actor_def authenticate_query_def owned_item_space_def set_acknowledged_def
        run_eval lookups sample_db cong: bind_weak_cong)
  have "mailbox_items sample_db = [\<lparr>mi_id = ''m1'', mi_record_id = ''r1'', mi_recipient = ''pb'', mi_created_at = ''t0'', mi_seq = 1,
       mi_acknowledged_at = None\<rparr>]"
    by (simp add: sample_db)
  then show ?thesis
    using acknowledgement_is_owned_and_final [OF run sample_ok] run by (auto simp: acknowledged_at_def)
qed

definition sample_inbox_scope :: cursor_scope where
  "sample_inbox_scope = inbox_scope sample_env ''pb'' AllItems 0"

lemma sample_inbox_cursor:
  "\<exists>c. cursor_encode sample_crypto \<lparr>cc_key = sha256 sample_crypto (replicate 32 5)\<rparr> sample_inbox_scope (BoundedSequence 1 1) = Inr c"
  "json_roundtrips sample_json (payload_json (scope_payload sample_crypto sample_inbox_scope (BoundedSequence 1 1)))"
proof -
  have "\<not> isl (cursor_encode sample_crypto \<lparr>cc_key = sha256 sample_crypto (replicate 32 5)\<rparr> sample_inbox_scope (BoundedSequence 1 1))"
    by code_simp
  then show "\<exists>c. cursor_encode sample_crypto \<lparr>cc_key = sha256 sample_crypto (replicate 32 5)\<rparr> sample_inbox_scope (BoundedSequence 1 1) = Inr c"
    by (metis sum.collapse(2))
  show "json_roundtrips sample_json (payload_json (scope_payload sample_crypto sample_inbox_scope (BoundedSequence 1 1)))"
    by code_simp
qed

interpretation sample_reader: inbox_reader sample_env sample_db "''pb''" AllItems "replicate 32 5"
proof
  have upper: "inbox_upper sample_db ''pb'' = 1" and epoch: "inbox_epoch sample_db = 0"
    by (simp_all add: inbox_upper_def sample_db)
  have row: "mi_seq m = 1" if "m \<in> set (mailbox_items sample_db)" for m
    using that by (simp add: sample_db)
  have one: "as_u64 1 = 1" by (simp add: as_u64_def)
  show "schema_ok sample_db" by (rule sample_ok)
  show "cursor_secret sample_db = Some (replicate 32 5)" by (simp add: sample_db)
  show "crypto_laws (env_crypto sample_env)" using sample_crypto_laws by simp
  fix m assume "m \<in> set (mailbox_items sample_db)"
  note m = row [OF this]
  show "json_roundtrips (json_codec (env_crypto sample_env)) (payload_json (scope_payload (env_crypto sample_env)
      (inbox_scope sample_env ''pb'' AllItems (inbox_epoch sample_db))
      (item_position sample_db ''pb'' m)))"
    using sample_inbox_cursor(2) by (simp add: m upper epoch one item_position_def sample_inbox_scope_def)
  show "\<exists>c. cursor_encode (env_crypto sample_env) (reader_codec sample_env (replicate 32 5))
      (inbox_scope sample_env ''pb'' AllItems (inbox_epoch sample_db)) (item_position sample_db ''pb'' m) = Inr c"
    using sample_inbox_cursor(1) by (simp add: m upper epoch one item_position_def sample_inbox_scope_def reader_codec_def)
qed

theorem inbox_is_read_completely_witness:
  "drain (\<lambda>q. inbox_page sample_env ''pb'' \<lparr>iq_state = AllItems, iq_page = q, iq_wait_seconds = 0\<rparr> sample_db) 1 5 None
    = Inr (map (inbox_view sample_db ''pb'') (mailbox_items sample_db))"
proof -
  have "length (mailbox_items sample_db) < 5" "cursor_secret sample_db = Some (replicate 32 5)"
    by (simp_all add: sample_db)
  then have "drain (\<lambda>q. inbox_page sample_env ''pb'' \<lparr>iq_state = AllItems, iq_page = q, iq_wait_seconds = 0\<rparr> sample_db) 1 5 None
      = Inr (map (inbox_view sample_db ''pb'')
          (sort_key mi_seq (filter (\<lambda>m. mi_recipient m = ''pb'' \<and> in_state AllItems m) (mailbox_items sample_db))))"
    using sample_reader.payloads sample_reader.fit sample_crypto_laws
    by (intro inbox_is_read_completely [OF sample_ok]) auto
  then show ?thesis
    by (simp add: sample_db in_state_def)
qed

theorem delivery_status_is_private_witness:
  "\<exists>p. delivery_page sample_env ''pb'' ''r1'' \<lparr>q_cursor = None, q_limit = Some 5\<rparr> sample_db = Inr p
    \<and> (\<forall>x \<in> set (items p). rs_recipient x = ''pb'')"
proof -
  obtain p where p: "delivery_page sample_env ''pb'' ''r1'' \<lparr>q_cursor = None, q_limit = Some 5\<rparr> sample_db = Inr p"
    by (simp add: delivery_page_def permitted_def cursor_codec_new_def MIN_KEY_BYTES_def identifier_position_def
        presented_cursor_def finish_page_def effective_limit_def receipt_rows_def lookups sample_db Let_def)
  have "find_record sample_db ''r1'' = Some (sample_record ''r1'' 1 ''pa'')"
    by (simp add: find_record_def sample_db)
  then show ?thesis
    using delivery_status_is_private [OF p] p by (auto simp: sample_record_def)
qed

section \<open>The service\<close>

definition initial_store :: store where
  "initial_store = \<lparr>central = empty_db\<lparr>journal_id := ''j'', audit_required := True\<rparr>,
     audit = Some \<lparr>au_format = 1, au_journal_id = ''j'', au_open = True,
       au_events = [baseline_event (empty_db\<lparr>journal_id := ''j'', audit_required := True\<rparr>)], au_recovery_events = []\<rparr>,
     transactions = 0\<rparr>"

abbreviation sample_append :: request where
  "sample_append \<equiv> AppendRecord token_a ''s'' ''k'' sample_note"

definition sample_creation :: request where
  "sample_creation = CreateSpace \<lparr>sc_id = ''s'', sc_name = ''Space'', sc_access = Public\<rparr>"

lemma sample_space_valid: "validate_space_create \<lparr>sc_id = ''s'', sc_name = ''Space'', sc_access = Public\<rparr> = Inr ()"
  by code_simp

lemma initial_store_initial: "initial initial_store"
  by (auto simp: initial_def initial_store_def)

end
