(* ===== verification/Api.thy ===== *)
theory Api
  imports Search
begin

text \<open>
  The JSON bodies of the HTTP interface (journal-protocol/src/dto.rs, journal-domain/src/lib.rs):
  the requests a client posts and the responses the daemon answers with. A serialiser lists the
  members in field order and leaves out what \<open>skip_serializing_if\<close> leaves out; a deserialiser reads
  members by name and, for a struct that denies unknown fields, refuses any other member.
\<close>

section \<open>Reading structs\<close>

definition known_fields :: "string list \<Rightarrow> json \<Rightarrow> (string \<times> json) list option" where
  "known_fields names v =
     Option.bind (struct_fields names v) (\<lambda>fs. if list_all (\<lambda>(k, _). k \<in> set names) fs then Some fs else None)"

text \<open>\<open>deserialize_required_nullable\<close>: the member must be there, and may be null.\<close>

definition required_nullable :: "(string \<times> json) list \<Rightarrow> string \<Rightarrow> string option option" where
  "required_nullable fs k = field fs k json_nullable_str"

definition json_of_opt :: "string option \<Rightarrow> json" where
  "json_of_opt v = (case v of Some s \<Rightarrow> JStr s | None \<Rightarrow> JNull)"

definition json_nat :: "json \<Rightarrow> nat option" where
  "json_nat v = map_option unat (json_u64 v)"

section \<open>Requests\<close>

definition principal_create_of_json :: "json \<Rightarrow> principal_create_request option" where
  "principal_create_of_json v =
     Option.bind (known_fields [''handle'', ''display_name''] v) (\<lambda>fs.
     Option.bind (field fs ''handle'' json_str) (\<lambda>handle.
     Option.bind (field fs ''display_name'' json_str) (\<lambda>display_name.
     Some \<lparr>pc_handle = handle, pc_display_name = display_name\<rparr>)))"

definition profile_update_of_json :: "json \<Rightarrow> profile_update_request option" where
  "profile_update_of_json v =
     Option.bind (known_fields [''handle'', ''display_name'', ''description'', ''expected_profile_revision''] v) (\<lambda>fs.
     Option.bind (field fs ''handle'' json_str) (\<lambda>handle.
     Option.bind (field fs ''display_name'' json_str) (\<lambda>display_name.
     Option.bind (default_field fs ''description'' None json_non_null_str) (\<lambda>description.
     Option.bind (field fs ''expected_profile_revision'' json_i64) (\<lambda>revision.
     Some \<lparr>pu_handle = handle, pu_display_name = display_name, pu_description = description,
       pu_expected_profile_revision = revision\<rparr>)))))"

definition access_names :: "(string \<times> space_access) list" where
  "access_names = [(''public'', Public)]"

definition space_create_json :: "space_create_request \<Rightarrow> json" where
  "space_create_json r = JObj [(''id'', JStr (sc_id r)), (''name'', JStr (sc_name r)),
     (''access'', JStr (space_access_as_str (sc_access r)))]"

definition space_create_of_json :: "json \<Rightarrow> space_create_request option" where
  "space_create_of_json v =
     Option.bind (known_fields [''id'', ''name'', ''access''] v) (\<lambda>fs.
     Option.bind (field fs ''id'' json_str) (\<lambda>i.
     Option.bind (field fs ''name'' json_str) (\<lambda>name.
     Option.bind (field fs ''access'' (unit_variant access_names)) (\<lambda>access.
     Some \<lparr>sc_id = i, sc_name = name, sc_access = access\<rparr>))))"

definition membership_request_json :: "membership_request \<Rightarrow> json" where
  "membership_request_json r = JObj [(''space_id'', JStr (mr_space_id r)), (''principal_id'', JStr (mr_principal_id r)),
     (''can_read'', JBool (mr_can_read r)), (''can_append'', JBool (mr_can_append r)),
     (''can_admin'', JBool (mr_can_admin r))]"

definition membership_request_of_json :: "json \<Rightarrow> membership_request option" where
  "membership_request_of_json v =
     Option.bind (known_fields [''space_id'', ''principal_id'', ''can_read'', ''can_append'', ''can_admin''] v) (\<lambda>fs.
     Option.bind (field fs ''space_id'' json_str) (\<lambda>space_id.
     Option.bind (field fs ''principal_id'' json_str) (\<lambda>principal_id.
     Option.bind (default_field fs ''can_read'' False json_bool) (\<lambda>can_read.
     Option.bind (default_field fs ''can_append'' False json_bool) (\<lambda>can_append.
     Option.bind (default_field fs ''can_admin'' False json_bool) (\<lambda>can_admin.
     Some \<lparr>mr_space_id = space_id, mr_principal_id = principal_id, mr_can_read = can_read,
       mr_can_append = can_append, mr_can_admin = can_admin\<rparr>))))))"

definition credential_rotate_json :: "credential_rotate_request \<Rightarrow> json" where
  "credential_rotate_json r = JObj ([(''credential_id'', JStr (cx_credential_id r))] @ opt_member ''reason'' (cx_reason r))"

definition credential_rotate_of_json :: "json \<Rightarrow> credential_rotate_request option" where
  "credential_rotate_of_json v =
     Option.bind (known_fields [''credential_id'', ''reason''] v) (\<lambda>fs.
     Option.bind (field fs ''credential_id'' json_str) (\<lambda>credential_id.
     Option.bind (default_field fs ''reason'' None json_non_null_str) (\<lambda>reason.
     Some \<lparr>cx_credential_id = credential_id, cx_reason = reason\<rparr>)))"

definition principal_recovery_json :: "principal_recovery_request \<Rightarrow> json" where
  "principal_recovery_json r = JObj ([(''principal_id'', JStr (prr_principal_id r))] @ opt_member ''reason'' (prr_reason r))"

definition principal_recovery_of_json :: "json \<Rightarrow> principal_recovery_request option" where
  "principal_recovery_of_json v =
     Option.bind (known_fields [''principal_id'', ''reason''] v) (\<lambda>fs.
     Option.bind (field fs ''principal_id'' json_str) (\<lambda>principal_id.
     Option.bind (default_field fs ''reason'' None json_non_null_str) (\<lambda>reason.
     Some \<lparr>prr_principal_id = principal_id, prr_reason = reason\<rparr>)))"

definition record_input_of_json :: "json \<Rightarrow> record_input option" where
  "record_input_of_json v =
     Option.bind (known_fields [''kind'', ''content'', ''run_id'', ''attention'', ''routing_key'', ''relations'', ''title''] v) (\<lambda>fs.
     Option.bind (field fs ''kind'' json_str) (\<lambda>kind.
     Option.bind (field fs ''content'' json_str) (\<lambda>content.
     Option.bind (default_field fs ''run_id'' None json_non_null_str) (\<lambda>run_id.
     Option.bind (default_field fs ''attention'' [] (json_list json_str)) (\<lambda>att.
     Option.bind (default_field fs ''routing_key'' None json_non_null_str) (\<lambda>routing_key.
     Option.bind (default_field fs ''relations'' [] (json_list relation_of_json)) (\<lambda>rels.
     Option.bind (default_field fs ''title'' None json_non_null_str) (\<lambda>title.
     Some \<lparr>in_kind = kind, in_content = content, in_run_id = run_id, in_attention = att,
       in_routing_key = routing_key, in_relations = rels, in_title = title\<rparr>))))))))"

section \<open>Responses\<close>

definition limits_json :: "limits \<Rightarrow> json" where
  "limits_json l = JObj [(''content_bytes'', JInt (int (l_content_bytes l))), (''relations'', JInt (int (l_relations l))),
     (''attention_recipients'', JInt (int (l_attention_recipients l))), (''page_size'', JInt (int (l_page_size l)))]"

definition limits_of_json :: "json \<Rightarrow> limits option" where
  "limits_of_json v =
     Option.bind (struct_fields [''content_bytes'', ''relations'', ''attention_recipients'', ''page_size''] v) (\<lambda>fs.
     Option.bind (field fs ''content_bytes'' json_nat) (\<lambda>content_bytes.
     Option.bind (field fs ''relations'' json_nat) (\<lambda>rels.
     Option.bind (field fs ''attention_recipients'' json_nat) (\<lambda>recipients.
     Option.bind (field fs ''page_size'' json_nat) (\<lambda>page_size.
     Some \<lparr>l_content_bytes = content_bytes, l_relations = rels, l_attention_recipients = recipients,
       l_page_size = page_size\<rparr>)))))"

definition space_json :: "space \<Rightarrow> json" where
  "space_json s = JObj ([(''id'', JStr (s_id s)), (''name'', JStr (s_name s)),
       (''access'', JStr (space_access_as_str (s_access s)))]
     @ opt_member ''archived_at'' (s_archived_at s)
     @ [(''created_at'', JStr (s_created_at s)), (''limits'', limits_json (s_limits s))])"

definition space_of_json :: "json \<Rightarrow> space option" where
  "space_of_json v =
     Option.bind (struct_fields [''id'', ''name'', ''access'', ''archived_at'', ''created_at'', ''limits''] v) (\<lambda>fs.
     Option.bind (field fs ''id'' json_str) (\<lambda>i.
     Option.bind (field fs ''name'' json_str) (\<lambda>name.
     Option.bind (field fs ''access'' (unit_variant access_names)) (\<lambda>access.
     Option.bind (default_field fs ''archived_at'' None json_nullable_str) (\<lambda>archived_at.
     Option.bind (field fs ''created_at'' json_str) (\<lambda>created_at.
     Option.bind (field fs ''limits'' limits_of_json) (\<lambda>limits.
     Some \<lparr>s_id = i, s_name = name, s_access = access, s_archived_at = archived_at,
       s_created_at = created_at, s_limits = limits\<rparr>)))))))"

definition membership_json :: "membership \<Rightarrow> json" where
  "membership_json m = JObj [(''space_id'', JStr (m_space_id m)), (''principal_id'', JStr (m_principal_id m)),
     (''can_read'', JBool (m_can_read m)), (''can_append'', JBool (m_can_append m)), (''can_admin'', JBool (m_can_admin m))]"

definition membership_of_json :: "json \<Rightarrow> membership option" where
  "membership_of_json v =
     Option.bind (struct_fields [''space_id'', ''principal_id'', ''can_read'', ''can_append'', ''can_admin''] v) (\<lambda>fs.
     Option.bind (field fs ''space_id'' json_str) (\<lambda>space_id.
     Option.bind (field fs ''principal_id'' json_str) (\<lambda>principal_id.
     Option.bind (field fs ''can_read'' json_bool) (\<lambda>can_read.
     Option.bind (field fs ''can_append'' json_bool) (\<lambda>can_append.
     Option.bind (field fs ''can_admin'' json_bool) (\<lambda>can_admin.
     Some \<lparr>m_space_id = space_id, m_principal_id = principal_id, m_can_read = can_read,
       m_can_append = can_append, m_can_admin = can_admin\<rparr>))))))"

definition me_json :: "me_view \<Rightarrow> json" where
  "me_json m = JObj [(''principal'', principal_json (me_principal m)),
     (''memberships'', JArr (map membership_json (me_memberships m))), (''limits'', limits_json (me_limits m))]"

definition me_of_json :: "json \<Rightarrow> me_view option" where
  "me_of_json v =
     Option.bind (struct_fields [''principal'', ''memberships'', ''limits''] v) (\<lambda>fs.
     Option.bind (field fs ''principal'' principal_of_json) (\<lambda>p.
     Option.bind (field fs ''memberships'' (json_list membership_of_json)) (\<lambda>ms.
     Option.bind (field fs ''limits'' limits_of_json) (\<lambda>limits.
     Some \<lparr>me_principal = p, me_memberships = ms, me_limits = limits\<rparr>))))"

definition page_json :: "('a \<Rightarrow> json) \<Rightarrow> 'a page \<Rightarrow> json" where
  "page_json item p = JObj [(''items'', JArr (map item (items p))), (''next_cursor'', json_of_opt (next_cursor p))]"

definition page_of_json :: "(json \<Rightarrow> 'a option) \<Rightarrow> json \<Rightarrow> 'a page option" where
  "page_of_json item v =
     Option.bind (struct_fields [''items'', ''next_cursor''] v) (\<lambda>fs.
     Option.bind (field fs ''items'' (json_list item)) (\<lambda>xs.
     Option.bind (required_nullable fs ''next_cursor'') (\<lambda>next_cursor.
     Some \<lparr>items = xs, next_cursor = next_cursor\<rparr>)))"

text \<open>\<open>#[serde(flatten)]\<close>: the members of the record, then the score and the snippet.\<close>

definition search_result_json :: "search_result \<Rightarrow> json" where
  "search_result_json r = JObj ((case record_json (sr_record r) of JObj fs \<Rightarrow> fs | _ \<Rightarrow> [])
     @ [(''score'', JFloat (sr_score r))] @ opt_member ''snippet'' (sr_snippet r))"

fun order_wire :: "search_order \<Rightarrow> string" where
  "order_wire Rank = ''rank''"
| "order_wire Seq = ''seq''"

fun consistency_wire :: "search_consistency \<Rightarrow> string" where
  "consistency_wire BestEffort = ''best-effort''"
| "consistency_wire Deterministic = ''deterministic''"

definition search_page_json :: "search_page \<Rightarrow> json" where
  "search_page_json p = JObj ([(''items'', JArr (map search_result_json (sg_items p))),
       (''next_cursor'', json_of_opt (sg_next_cursor p)), (''order'', JStr (order_wire (sg_order p)))]
     @ opt_member ''consistency'' (map_option consistency_wire (sg_consistency p)))"

fun state_wire :: "receipt_state \<Rightarrow> string" where
  "state_wire RUnacknowledged = ''unacknowledged''"
| "state_wire RAcknowledged = ''acknowledged''"

definition state_names :: "(string \<times> receipt_state) list" where
  "state_names = [(''unacknowledged'', RUnacknowledged), (''acknowledged'', RAcknowledged)]"

definition receipt_summary_json :: "receipt_summary \<Rightarrow> json" where
  "receipt_summary_json r = JObj [(''inbox_item_id'', JStr (rs_inbox_item_id r)), (''recipient'', JStr (rs_recipient r)),
     (''state'', JStr (state_wire (rs_state r))), (''created_at'', JStr (rs_created_at r)),
     (''acknowledged_at'', json_of_opt (rs_acknowledged_at r))]"

definition receipt_summary_of_json :: "json \<Rightarrow> receipt_summary option" where
  "receipt_summary_of_json v =
     Option.bind (known_fields [''inbox_item_id'', ''recipient'', ''state'', ''created_at'', ''acknowledged_at''] v) (\<lambda>fs.
     Option.bind (field fs ''inbox_item_id'' json_str) (\<lambda>i.
     Option.bind (field fs ''recipient'' json_str) (\<lambda>recipient.
     Option.bind (field fs ''state'' (unit_variant state_names)) (\<lambda>state.
     Option.bind (field fs ''created_at'' json_str) (\<lambda>created_at.
     Option.bind (required_nullable fs ''acknowledged_at'') (\<lambda>acknowledged_at.
     Some \<lparr>rs_inbox_item_id = i, rs_recipient = recipient, rs_state = state, rs_created_at = created_at,
       rs_acknowledged_at = acknowledged_at\<rparr>))))))"

definition inbox_item_json :: "inbox_item \<Rightarrow> json" where
  "inbox_item_json i = JObj [(''inbox_item_id'', JStr (ii_inbox_item_id i)), (''recipient'', JStr (ii_recipient i)),
     (''seq'', JInt (ii_seq i)), (''created_at'', JStr (ii_created_at i)),
     (''acknowledged_at'', json_of_opt (ii_acknowledged_at i)), (''record'', record_json (ii_record i))]"

definition inbox_item_of_json :: "json \<Rightarrow> inbox_item option" where
  "inbox_item_of_json v =
     Option.bind (known_fields [''inbox_item_id'', ''recipient'', ''seq'', ''created_at'', ''acknowledged_at'', ''record''] v) (\<lambda>fs.
     Option.bind (field fs ''inbox_item_id'' json_str) (\<lambda>i.
     Option.bind (field fs ''recipient'' json_str) (\<lambda>recipient.
     Option.bind (field fs ''seq'' json_i64) (\<lambda>seq.
     Option.bind (field fs ''created_at'' json_str) (\<lambda>created_at.
     Option.bind (required_nullable fs ''acknowledged_at'') (\<lambda>acknowledged_at.
     Option.bind (field fs ''record'' record_of_json) (\<lambda>r.
     Some \<lparr>ii_inbox_item_id = i, ii_recipient = recipient, ii_seq = seq, ii_created_at = created_at,
       ii_acknowledged_at = acknowledged_at, ii_record = r\<rparr>)))))))"

definition one_time_secret_json :: "one_time_secret \<Rightarrow> json" where
  "one_time_secret_json s = JObj [(''credential_id'', JStr (ots_credential_id s)), (''secret'', JStr (ots_secret s))]"

definition class_names :: "(string \<times> credential_class) list" where
  "class_names = [(''principal-client'', PrincipalClient)]"

definition credential_metadata_json :: "credential_metadata \<Rightarrow> json" where
  "credential_metadata_json m = JObj ([(''credential_id'', JStr (cm_credential_id m)), (''principal_id'', JStr (cm_principal_id m)),
       (''class'', JStr (class_name (cm_class m))), (''rotated_at'', JStr (cm_rotated_at m))]
     @ opt_member ''replacement_credential_id'' (cm_replacement_credential_id m))"

definition credential_rotation_json :: "credential_rotation \<Rightarrow> json" where
  "credential_rotation_json r = JObj [(''metadata'', credential_metadata_json (rot_metadata r)),
     (''replacement_secret'', one_time_secret_json (rot_replacement_secret r))]"

definition principal_recovery_response_json :: "principal_recovery \<Rightarrow> json" where
  "principal_recovery_response_json r = JObj [(''principal'', principal_json (rcv_principal r)),
     (''replacement_secret'', one_time_secret_json (rcv_replacement_secret r))]"

definition one_time_secret_of_json :: "json \<Rightarrow> one_time_secret option" where
  "one_time_secret_of_json v =
     Option.bind (struct_fields [''credential_id'', ''secret''] v) (\<lambda>fs.
     Option.bind (field fs ''credential_id'' json_str) (\<lambda>credential_id.
     Option.bind (field fs ''secret'' json_str) (\<lambda>s.
     Some \<lparr>ots_credential_id = credential_id, ots_secret = s\<rparr>)))"

definition credential_metadata_of_json :: "json \<Rightarrow> credential_metadata option" where
  "credential_metadata_of_json v =
     Option.bind (struct_fields [''credential_id'', ''principal_id'', ''class'', ''rotated_at'', ''replacement_credential_id''] v) (\<lambda>fs.
     Option.bind (field fs ''credential_id'' json_str) (\<lambda>credential_id.
     Option.bind (field fs ''principal_id'' json_str) (\<lambda>principal_id.
     Option.bind (field fs ''class'' (unit_variant class_names)) (\<lambda>class.
     Option.bind (field fs ''rotated_at'' json_str) (\<lambda>rotated_at.
     Option.bind (default_field fs ''replacement_credential_id'' None json_nullable_str) (\<lambda>replacement.
     Some \<lparr>cm_credential_id = credential_id, cm_principal_id = principal_id, cm_class = class,
       cm_rotated_at = rotated_at, cm_replacement_credential_id = replacement\<rparr>))))))"

definition credential_rotation_of_json :: "json \<Rightarrow> credential_rotation option" where
  "credential_rotation_of_json v =
     Option.bind (struct_fields [''metadata'', ''replacement_secret''] v) (\<lambda>fs.
     Option.bind (field fs ''metadata'' credential_metadata_of_json) (\<lambda>m.
     Option.bind (field fs ''replacement_secret'' one_time_secret_of_json) (\<lambda>s.
     Some \<lparr>rot_metadata = m, rot_replacement_secret = s\<rparr>)))"

definition principal_recovery_response_of_json :: "json \<Rightarrow> principal_recovery option" where
  "principal_recovery_response_of_json v =
     Option.bind (struct_fields [''principal'', ''replacement_secret''] v) (\<lambda>fs.
     Option.bind (field fs ''principal'' principal_of_json) (\<lambda>p.
     Option.bind (field fs ''replacement_secret'' one_time_secret_of_json) (\<lambda>s.
     Some \<lparr>rcv_principal = p, rcv_replacement_secret = s\<rparr>)))"

section \<open>Request bodies read back\<close>

text \<open>A request the client serialises is what the daemon's strict decoder reads.\<close>

lemma unique_strings: "unique_seq (map JStr xs) = Some (map JStr xs)"
  by (induction xs) auto

lemma read_strings: "those (map Some xs) = Some xs"
  by (induction xs) auto

lemma relation_json_reads:
  "\<exists>v. unique_value (relation_json r) = Some v \<and> relation_of_json v = Some r"
proof -
  have "relation_of_json (JObj [(''record_id'', JStr (rl_record_id r)), (''type'', JStr (relation_as_str (rl_type r)))]) = Some r"
    by (cases r; cases "rl_type r")
      (simp_all add: relation_of_json_def struct_fields_def field_def unit_variant_def relation_type_names_def RELATION_TYPES_def)
  moreover have "''record_id'' < ''type''" "\<not> ''type'' < ''record_id''" by code_simp+
  ultimately show ?thesis by (simp add: relation_json_def bt_get_def)
qed

lemma relations_read:
  "\<exists>vs. unique_seq (map relation_json rs) = Some vs \<and> those (map relation_of_json vs) = Some rs"
proof (induction rs)
  case (Cons r rs)
  then show ?case using relation_json_reads [of r] by auto
qed simp

lemma profile_update_reads:
  assumes "- (2 ^ 63) \<le> pu_expected_profile_revision p" "pu_expected_profile_revision p \<le> i64_max"
  shows "\<exists>v. unique_value (profile_update_json p) = Some v \<and> profile_update_of_json v = Some p"
proof -
  let ?fs = "[(''handle'', JStr (pu_handle p)), (''display_name'', JStr (pu_display_name p))]
     @ opt_member ''description'' (pu_description p)
     @ [(''expected_profile_revision'', JInt (pu_expected_profile_revision p))]"
  have "no_duplicate_keys (profile_update_json p)"
    by (auto simp: profile_update_json_def opt_member_def split: option.splits)
  then obtain v where v: "unique_value (profile_update_json p) = Some v"
    using unique_accepts(1) by blast
  then obtain ms where ms: "v = JObj ms" and get: "\<And>k. map_of ms k = Option.bind (map_of ?fs k) unique_value"
    and keys: "fst ` set ms \<subseteq> fst ` set ?fs"
    unfolding profile_update_json_def by (rule unique_obj_field) blast
  have "list_all (\<lambda>(k, _). k \<in> {''handle'', ''display_name'', ''description'', ''expected_profile_revision''}) ms"
    using keys by (force simp: list_all_iff opt_member_def split: option.splits)
  then have "profile_update_of_json v = Some p"
    using assms
    by (cases "pu_description p")
      (simp_all add: ms profile_update_of_json_def known_fields_def struct_fields_def field_def default_field_def get
        json_non_null_str_def map_add_def)
  with v show ?thesis by blast
qed

lemma record_input_reads:
  "\<exists>v. unique_value (record_input_json p) = Some v \<and> record_input_of_json v = Some p"
proof -
  obtain fs where fs: "record_input_json p = JObj fs" by (simp add: record_input_json_def)
  have "list_all (\<lambda>x. no_duplicate_keys (relation_json x)) (in_relations p)"
    by (simp add: list_all_iff relation_json_def)
  then have "no_duplicate_keys (record_input_json p)"
    by (auto simp: record_input_json_def opt_member_def list_all_iff split: option.splits)
  then obtain v where v: "unique_value (record_input_json p) = Some v"
    using unique_accepts(1) by blast
  then obtain ms where ms: "v = JObj ms" and get: "\<And>k. map_of ms k = Option.bind (map_of fs k) unique_value"
    and keys: "fst ` set ms \<subseteq> fst ` set fs"
    unfolding fs by (rule unique_obj_field) blast
  have known: "list_all (\<lambda>(k, _). k \<in> {''kind'', ''content'', ''run_id'', ''attention'', ''routing_key'', ''relations'', ''title''}) ms"
    using keys fs by (force simp: list_all_iff opt_member_def record_input_json_def split: option.splits if_splits)
  obtain vs where vs: "unique_seq (map relation_json (in_relations p)) = Some vs" "those (map relation_of_json vs) = Some (in_relations p)"
    using relations_read by blast
  have opt: "map_of fs k = (case g of Some s \<Rightarrow> Some (JStr s) | None \<Rightarrow> None)"
    if "(k, g) \<in> {(''run_id'', in_run_id p), (''routing_key'', in_routing_key p), (''title'', in_title p)}" for k g
    using fs that by (auto simp: record_input_json_def opt_member_def map_add_def split: option.splits if_splits)
  have lists: "map_of fs ''attention'' = (if in_attention p = [] then None else Some (JArr (map JStr (in_attention p))))"
    "map_of fs ''relations'' = (if in_relations p = [] then None else Some (JArr (map relation_json (in_relations p))))"
    "map_of fs ''kind'' = Some (JStr (in_kind p))" "map_of fs ''content'' = Some (JStr (in_content p))"
    using fs by (auto simp: record_input_json_def opt_member_def map_add_def split: option.splits if_splits)
  have "default_field ms k None json_non_null_str = Some g"
    if "(k, g) \<in> {(''run_id'', in_run_id p), (''routing_key'', in_routing_key p), (''title'', in_title p)}" for k g
    using opt [OF that] by (auto simp: default_field_def get json_non_null_str_def split: option.splits)
  moreover have "default_field ms ''attention'' [] (json_list json_str) = Some (in_attention p)"
    "default_field ms ''relations'' [] (json_list relation_of_json) = Some (in_relations p)"
    using vs by (auto simp: default_field_def get lists unique_strings json_list_def read_strings comp_def)
  moreover have "field ms ''kind'' json_str = Some (in_kind p)" "field ms ''content'' json_str = Some (in_content p)"
    by (simp_all add: field_def get lists)
  ultimately have "record_input_of_json v = Some p"
    using known by (simp add: ms record_input_of_json_def known_fields_def struct_fields_def)
  with v show ?thesis by blast
qed

end
