(* ===== verification/Http.thy ===== *)
theory Http
  imports Service Api
begin

text \<open>
  The HTTP daemon (journald/src/http.rs): its middleware, handlers and routers as functions from a
  request and the server's state to a response and the next state. A request arrives with its
  matched route decided by the framework; axum and the \<open>http\<close> crate are the record \<open>axum\<close> of
  parameters (route matching, path parameters, the JSON extractor's own checks, header text). The
  server's state is the store and the sources of the service, the waiters of held inbox requests,
  and two counters. Logging leaves no trace in the model. A panic inside the blocking task is the
  service's \<open>Panicked\<close>, which the executor reports as a failed task.
\<close>

section \<open>Requests, responses and the server\<close>

record axum =
  ax_match :: "string list \<Rightarrow> string \<Rightarrow> string option"
  ax_params :: "string \<Rightarrow> string \<Rightarrow> (string \<times> string) list option"
  ax_json_ok :: "(string \<times> string) list \<Rightarrow> string \<Rightarrow> bool"
  ax_to_str :: "string \<Rightarrow> string option"

record http_response =
  rp_status :: nat
  rp_headers :: "(string \<times> string) list"
  rp_body :: string

text \<open>One entry per principal with held requests: the value of its watch channel, how often it was
  sent to, and how many receivers it has.\<close>

record waiter =
  wa_value :: u64
  wa_version :: nat
  wa_receivers :: nat

record server =
  sv_store :: store
  sv_sources :: sources
  sv_arrivals :: "(string, waiter) btree_map"
  sv_executions :: nat
  sv_next_request_id :: u64

text \<open>What the body stream does before the read timeout: it delivers its bytes, breaks off, stalls, or
  the server shuts down first.\<close>

datatype body_event = Received string | BrokenOff | Stalled | ShutdownFirst

text \<open>How a held inbox request is woken. The clock is read before each wait; meanwhile other tasks
  change the server. Arrivals may wake it any number of times; then the deadline passes or the
  server begins to shut down.\<close>

datatype wait_end = DeadlinePassed | ShutdownBegan

record waiting =
  wt_arrivals :: "(nat \<times> (server \<Rightarrow> server)) list"
  wt_last :: "nat \<times> (server \<Rightarrow> server)"
  wt_end :: wait_end

record http_request =
  rq_method :: string
  rq_path :: string
  rq_query :: "string option"
  rq_headers :: "(string \<times> string) list"
  rq_body :: body_event
  rq_peer :: "nat option"
  rq_started :: nat
  rq_waiting :: waiting

record http_config =
  hc_axum :: axum
  hc_env :: env
  hc_form :: form_codec
  hc_max_body_bytes :: nat
  hc_owner :: "nat option"
  hc_version :: string
  hc_permit :: "nat \<Rightarrow> bool"
  hc_schema_version :: "nat \<Rightarrow> storage_error + int"
  hc_metrics :: "(store, operational_metrics) prog"
  hc_process_id :: nat
  hc_epoch_nanos :: "u64 \<Rightarrow> nat"

definition hc_json :: "http_config \<Rightarrow> json_text" where
  "hc_json H = json_codec (env_crypto (hc_env H))"

text \<open>A handler either answers (\<open>Inl\<close>) or goes on with a value.\<close>

type_synonym 'a handler = "server \<Rightarrow> (http_response + 'a) \<times> server"

definition answer :: "http_response \<Rightarrow> 'a handler" where
  "answer r sv = (Inl r, sv)"

definition continue :: "'a \<Rightarrow> 'a handler" where
  "continue x sv = (Inr x, sv)"

definition followed_by :: "'a handler \<Rightarrow> ('a \<Rightarrow> 'b handler) \<Rightarrow> 'b handler" where
  "followed_by m f sv = (case m sv of (Inl r, sv') \<Rightarrow> (Inl r, sv') | (Inr x, sv') \<Rightarrow> f x sv')"

section \<open>Headers\<close>

definition ascii_lower :: "string \<Rightarrow> string" where
  "ascii_lower s = map (\<lambda>c. if 65 \<le> (of_char c :: nat) \<and> (of_char c :: nat) \<le> 90
     then char_of (of_char c + 32 :: nat) else c) s"

definition header_values :: "string \<Rightarrow> (string \<times> string) list \<Rightarrow> string list" where
  "header_values name hs = map snd (filter (\<lambda>(k, _). ascii_lower k = name) hs)"

text \<open>The token after the scheme of the only Authorization header.\<close>

definition bearer_text :: "axum \<Rightarrow> (string \<times> string) list \<Rightarrow> string option" where
  "bearer_text A hs =
     (case header_values ''authorization'' hs of
        [v] \<Rightarrow>
          Option.bind (ax_to_str A v) (\<lambda>text.
          Option.bind (split_once (CHR '' '') text) (\<lambda>(scheme, token).
          if ascii_lower scheme = ''bearer'' then Some token else None))
      | _ \<Rightarrow> None)"

definition bearer :: "axum \<Rightarrow> (string \<times> string) list \<Rightarrow> string option" where
  "bearer A hs = Option.bind (bearer_text A hs) (\<lambda>token. if bearer_token token then Some token else None)"

definition registration_bearer :: "axum \<Rightarrow> (string \<times> string) list \<Rightarrow> string option" where
  "registration_bearer A hs =
     Option.bind (bearer_text A hs) (\<lambda>token. if registration_token token then Some token else None)"

text \<open>The only Idempotency-Key header, when it is UTF-8.\<close>

definition idempotency_key :: "(string \<times> string) list \<Rightarrow> string option" where
  "idempotency_key hs =
     (case header_values ''idempotency-key'' hs of
        [v] \<Rightarrow> if valid_utf8 v then Some v else None
      | _ \<Rightarrow> None)"

section \<open>Responses\<close>

definition error_response :: "http_config \<Rightarrow> nat \<Rightarrow> string \<Rightarrow> string \<Rightarrow> string \<Rightarrow> http_response" where
  "error_response H status code message request_id = \<lparr>rp_status = status,
     rp_headers = [(''content-type'', ''application/json'')],
     rp_body = json_print (hc_json H) (JObj [(''error'', JObj [(''code'', JStr code), (''message'', JStr message),
       (''request_id'', JStr request_id)])])\<rparr>"

definition success_response :: "http_config \<Rightarrow> nat \<Rightarrow> json \<Rightarrow> http_response" where
  "success_response H status value =
     (if status = 204
      then \<lparr>rp_status = 204, rp_headers = [(''cache-control'', ''no-store'')], rp_body = []\<rparr>
      else \<lparr>rp_status = status, rp_headers = [(''content-type'', ''application/json''), (''cache-control'', ''no-store'')],
        rp_body = json_print (hc_json H) value\<rparr>)"

definition bad_request :: "http_config \<Rightarrow> string \<Rightarrow> http_response" where
  "bad_request H request_id = error_response H 400 ''invalid-request'' ''invalid request'' request_id"

definition unauthorized :: "http_config \<Rightarrow> string \<Rightarrow> http_response" where
  "unauthorized H request_id = error_response H 401 ''unauthorized'' ''invalid or expired credential'' request_id"

section \<open>Running the service\<close>

datatype blocking_error = AtCapacity | TaskFailed

definition blocking :: "http_config \<Rightarrow> (store, 'a) prog \<Rightarrow> server \<Rightarrow> (blocking_error + (berror + 'a)) \<times> server" where
  "blocking H operation sv =
     (let sv' = sv\<lparr>sv_executions := sv_executions sv + 1\<rparr> in
      if \<not> hc_permit H (sv_executions sv) then (Inl AtCapacity, sv')
      else (case operation (sv_store sv, sv_sources sv) of
              (r, s, z) \<Rightarrow>
                ((case r of Inl Panicked \<Rightarrow> Inl TaskFailed | _ \<Rightarrow> Inr r),
                 sv'\<lparr>sv_store := s, sv_sources := z\<rparr>)))"

fun error_parts :: "berror \<Rightarrow> nat \<times> string \<times> string" where
  "error_parts (Invalid _) = (400, ''invalid-request'', ''invalid request'')"
| "error_parts InvalidJournal = (400, ''invalid-request'', ''invalid request'')"
| "error_parts Unauthorized = (401, ''unauthorized'', ''invalid or expired credential'')"
| "error_parts NotFound = (404, ''not-found'', ''resource not found'')"
| "error_parts Conflict = (409, ''conflict'', ''operation conflicts with existing state'')"
| "error_parts IdempotencyConflict = (409, ''idempotency-conflict'', ''idempotency key was used for another payload'')"
| "error_parts _ = (503, ''service-unavailable'', ''service dependency unavailable'')"

definition bootstrap_result :: "http_config \<Rightarrow> string \<Rightarrow> (store, 'a) prog \<Rightarrow> 'a handler" where
  "bootstrap_result H request_id operation sv =
     (case blocking H operation sv of
        (Inr (Inr x), sv') \<Rightarrow> (Inr x, sv')
      | (Inr (Inl e), sv') \<Rightarrow>
          (case error_parts e of (status, code, message) \<Rightarrow> (Inl (error_response H status code message request_id), sv'))
      | (Inl _, sv') \<Rightarrow>
          (Inl (error_response H 503 ''service-unavailable'' ''service dependency unavailable'' request_id), sv'))"

definition bootstrap :: "http_config \<Rightarrow> string \<Rightarrow> nat \<Rightarrow> ('a \<Rightarrow> json) \<Rightarrow> (store, 'a) prog \<Rightarrow> http_response handler" where
  "bootstrap H request_id status to_json operation =
     followed_by (bootstrap_result H request_id operation) (\<lambda>value.
     continue (success_response H status (to_json value)))"

text \<open>The body has been buffered by the middleware; \<open>strict_request\<close> repeats the extractor's checks and
  decodes the original bytes.\<close>

definition body_bytes :: "http_request \<Rightarrow> string" where
  "body_bytes rq = (case rq_body rq of Received bs \<Rightarrow> bs | _ \<Rightarrow> [])"

definition strict_request :: "http_config \<Rightarrow> (json \<Rightarrow> 'a option) \<Rightarrow> ('a \<Rightarrow> json) \<Rightarrow> http_request \<Rightarrow> 'a option" where
  "strict_request H of_json to_json rq =
     (if \<not> ax_json_ok (hc_axum H) (rq_headers rq) (body_bytes rq) then None
      else (case decode_json (hc_json H) of_json to_json (body_bytes rq) of Inl _ \<Rightarrow> None | Inr x \<Rightarrow> Some x))"

section \<open>The administrative handlers\<close>

definition admin_handler :: "http_config \<Rightarrow> string \<Rightarrow> (json \<Rightarrow> 'i option) \<Rightarrow> ('i \<Rightarrow> json) \<Rightarrow> nat \<Rightarrow> ('o \<Rightarrow> json)
    \<Rightarrow> ('i \<Rightarrow> (store, 'o) prog) \<Rightarrow> http_request \<Rightarrow> http_response handler" where
  "admin_handler H request_id of_json to_json status result_json operation rq =
     (case strict_request H of_json to_json rq of
        None \<Rightarrow> answer (bad_request H request_id)
      | Some input \<Rightarrow> bootstrap H request_id status result_json (operation input))"

definition operational_metrics_json :: "operational_metrics \<Rightarrow> json" where
  "operational_metrics_json m = JObj [(''sampled_at'', JStr (om_sampled_at m)),
     (''database_bytes'', JInt (int (om_database_bytes m))), (''wal_bytes'', JInt (int (om_wal_bytes m))),
     (''unacknowledged_inbox_count'', JInt (int (om_unacknowledged_inbox_count m))),
     (''oldest_unacknowledged_at'', json_of_opt (om_oldest_unacknowledged_at m)),
     (''last_backup_at'', json_of_opt (om_last_backup_at m)),
     (''last_verified_restore_at'', json_of_opt (om_last_verified_restore_at m))]"

definition admin_operation :: "http_config \<Rightarrow> string \<Rightarrow> string \<Rightarrow> http_request \<Rightarrow> http_response handler" where
  "admin_operation H request_id route rq =
     (let E = hc_env H in
      if route = ''/v1/admin/metrics'' then
        bootstrap H request_id 200 operational_metrics_json (hc_metrics H)
      else if route = ''/v1/admin/principals'' then
        admin_handler H request_id principal_create_of_json principal_create_json 201 principal_json (create_principal E) rq
      else if route = ''/v1/admin/spaces'' then
        admin_handler H request_id space_create_of_json space_create_json 201 space_json (create_space E) rq
      else if route = ''/v1/admin/memberships'' then
        admin_handler H request_id membership_request_of_json membership_request_json 200 membership_json (set_membership E) rq
      else if route = ''/v1/admin/credentials/rotate'' then
        admin_handler H request_id credential_rotate_of_json credential_rotate_json 200 credential_rotation_json
          (rotate_credential E) rq
      else if route = ''/v1/admin/credentials/revoke'' then
        admin_handler H request_id credential_rotate_of_json credential_rotate_json 204 credential_metadata_json
          (\<lambda>r. revoke E (cx_credential_id r) (cx_reason r)) rq
      else
        admin_handler H request_id principal_recovery_of_json principal_recovery_json 200 principal_recovery_response_json
          (recover_principal E) rq)"

definition require_local_peer :: "http_config \<Rightarrow> string \<Rightarrow> http_request \<Rightarrow> http_response handler \<Rightarrow> http_response handler" where
  "require_local_peer H request_id rq next =
     (if hc_owner H \<noteq> None \<and> rq_peer rq = hc_owner H then next
      else answer (error_response H 403 ''forbidden'' ''protected local administration required'' request_id))"

section \<open>Registration and profiles\<close>

definition register_principal :: "http_config \<Rightarrow> string \<Rightarrow> http_request \<Rightarrow> http_response handler" where
  "register_principal H request_id rq =
     (case registration_bearer (hc_axum H) (rq_headers rq) of
        None \<Rightarrow> answer (bad_request H request_id)
      | Some token \<Rightarrow>
          (case strict_request H principal_create_of_json principal_create_json rq of
             None \<Rightarrow> answer (bad_request H request_id)
           | Some input \<Rightarrow>
               followed_by (bootstrap_result H request_id (register (hc_env H) token input)) (\<lambda>outcome.
               continue (success_response H (if ro_replayed outcome then 200 else 201)
                 (registration_receipt_json (ro_receipt outcome))))))"

definition me_handler :: "http_config \<Rightarrow> string \<Rightarrow> http_request \<Rightarrow> http_response handler" where
  "me_handler H request_id rq =
     (case bearer (hc_axum H) (rq_headers rq) of
        None \<Rightarrow> answer (unauthorized H request_id)
      | Some token \<Rightarrow>
          bootstrap H request_id 200 me_json
            (bind (authenticate (hc_env H) token PrincipalClient) (\<lambda>actor. me (hc_env H) actor)))"

definition key_required :: "http_config \<Rightarrow> string \<Rightarrow> http_response" where
  "key_required H request_id = error_response H 400 ''invalid-request'' ''Idempotency-Key is required'' request_id"

definition update_profile :: "http_config \<Rightarrow> string \<Rightarrow> http_request \<Rightarrow> http_response handler" where
  "update_profile H request_id rq =
     (case bearer (hc_axum H) (rq_headers rq) of
        None \<Rightarrow> answer (unauthorized H request_id)
      | Some token \<Rightarrow>
          (case idempotency_key (rq_headers rq) of
             None \<Rightarrow> answer (key_required H request_id)
           | Some key \<Rightarrow>
               (case strict_request H profile_update_of_json profile_update_json rq of
                  None \<Rightarrow> answer (bad_request H request_id)
                | Some input \<Rightarrow>
                    bootstrap H request_id 200 principal_json
                      (bind (authenticate (hc_env H) token PrincipalClient) (\<lambda>actor.
                       update_own_profile (hc_env H) actor key input)))))"

section \<open>Waiting for inbox arrivals\<close>

text \<open>\<open>InboxArrivals\<close>: an entry exists only while some request of that principal waits.\<close>

definition retain_waiting :: "(string, waiter) btree_map \<Rightarrow> (string, waiter) btree_map" where
  "retain_waiting m = filter (\<lambda>(_, w). wa_receivers w > 0) m"

definition subscribe :: "string \<Rightarrow> server \<Rightarrow> server" where
  "subscribe prin sv =
     (let m = retain_waiting (sv_arrivals sv);
          w = (case bt_get m prin of Some w \<Rightarrow> w | None \<Rightarrow> \<lparr>wa_value = 0, wa_version = 0, wa_receivers = 0\<rparr>) in
      sv\<lparr>sv_arrivals := bt_insert prin (w\<lparr>wa_receivers := wa_receivers w + 1\<rparr>) m\<rparr>)"

definition wake_one :: "string \<Rightarrow> (string, waiter) btree_map \<Rightarrow> (string, waiter) btree_map" where
  "wake_one recipient m =
     (case bt_get m recipient of
        None \<Rightarrow> m
      | Some w \<Rightarrow> bt_insert recipient (w\<lparr>wa_value := wa_value w + 1, wa_version := wa_version w + 1\<rparr>) m)"

definition notify :: "string list \<Rightarrow> server \<Rightarrow> server" where
  "notify recipients sv = sv\<lparr>sv_arrivals := retain_waiting (fold wake_one recipients (sv_arrivals sv))\<rparr>"

text \<open>Dropping a receiver, when its request ends.\<close>

definition unsubscribe :: "string \<Rightarrow> server \<Rightarrow> server" where
  "unsubscribe prin sv =
     (case bt_get (sv_arrivals sv) prin of
        None \<Rightarrow> sv
      | Some w \<Rightarrow> sv\<lparr>sv_arrivals := bt_insert prin (w\<lparr>wa_receivers := wa_receivers w - 1\<rparr>) (sv_arrivals sv)\<rparr>)"

definition fetch_inbox_page :: "http_config \<Rightarrow> string \<Rightarrow> string \<Rightarrow> inbox_query \<Rightarrow> inbox_item page handler" where
  "fetch_inbox_page H request_id token query = bootstrap_result H request_id (inbox (hc_env H) token query)"

definition inbox_response :: "http_config \<Rightarrow> inbox_item page \<Rightarrow> http_response" where
  "inbox_response H p = success_response H 200 (page_json inbox_item_json p)"

text \<open>The loop of a held request. A wait that ends at the deadline reads once more; one that ends with
  the shutdown returns the empty page it has.\<close>

fun poll_loop :: "http_config \<Rightarrow> inbox_item page handler \<Rightarrow> bool \<Rightarrow> nat \<Rightarrow> (nat \<times> (server \<Rightarrow> server)) list
    \<Rightarrow> nat \<times> (server \<Rightarrow> server) \<Rightarrow> wait_end \<Rightarrow> http_response handler" where
  "poll_loop H fetch waits deadline [] (time, others) ending =
     followed_by fetch (\<lambda>page.
     if items page \<noteq> [] \<or> \<not> waits \<or> time \<ge> deadline then continue (inbox_response H page)
     else (\<lambda>sv. case ending of
        ShutdownBegan \<Rightarrow> continue (inbox_response H page) (others sv)
      | DeadlinePassed \<Rightarrow> followed_by fetch (\<lambda>page. continue (inbox_response H page)) (others sv)))"
| "poll_loop H fetch waits deadline ((time, others) # rest) final ending =
     followed_by fetch (\<lambda>page.
     if items page \<noteq> [] \<or> \<not> waits \<or> time \<ge> deadline then continue (inbox_response H page)
     else (\<lambda>sv. poll_loop H fetch waits deadline rest final ending (others sv)))"

definition inbox_waits :: "inbox_query \<Rightarrow> bool" where
  "inbox_waits query \<longleftrightarrow> iq_wait_seconds query > 0 \<and> presented_cursor (iq_page query) = None"

definition inbox_long_poll :: "http_config \<Rightarrow> string \<Rightarrow> string \<Rightarrow> string \<Rightarrow> string \<Rightarrow> http_request \<Rightarrow> http_response handler" where
  "inbox_long_poll H request_id token prin raw_query rq =
     (case inbox_query_from_query (hc_form H) raw_query of
        Inl _ \<Rightarrow> answer (bad_request H request_id)
      | Inr query \<Rightarrow>
          (\<lambda>sv. case poll_loop H (fetch_inbox_page H request_id token query) (inbox_waits query)
                  (rq_started rq + iq_wait_seconds query)
                  (wt_arrivals (rq_waiting rq)) (wt_last (rq_waiting rq)) (wt_end (rq_waiting rq)) (subscribe prin sv) of
             (r, sv') \<Rightarrow> (r, unsubscribe prin sv')))"

section \<open>The journal's routes\<close>

definition query_or :: "invalid_query + 'q \<Rightarrow> ('q \<Rightarrow> (store, 'a) prog) \<Rightarrow> (store, 'a) prog" where
  "query_or r f = bind (lift (map_err (\<lambda>_. InvalidJournal) r)) f"

text \<open>\<open>serde_json::to_value\<close> of a result.\<close>

definition to_value :: "('a \<Rightarrow> json) \<Rightarrow> (store, 'a) prog \<Rightarrow> (store, json) prog" where
  "to_value to_json m = bind m (\<lambda>x. ret (to_json x))"

definition journal_read :: "http_config \<Rightarrow> string \<Rightarrow> string \<Rightarrow> string \<Rightarrow> string \<Rightarrow> string \<Rightarrow> (store, json) prog" where
  "journal_read H token route space record query =
     (let E = hc_env H; F = hc_form H in
      if route = ''/v1/spaces'' then
        query_or (page_query_from_query F query) (\<lambda>q. to_value (page_json space_json) (list_spaces E token q))
      else if route = ''/v1/principals'' then
        query_or (list_principals_from_query F query) (\<lambda>q. to_value (page_json principal_json) (list_principals E token q))
      else if route = ''/v1/spaces/{space}'' then
        to_value space_json (get_space E token space)
      else if route = ''/v1/spaces/{space}/records'' then
        query_or (list_records_from_query F query) (\<lambda>q. to_value (page_json record_json) (list_records E token space q))
      else if route = ''/v1/records/{record_id}'' then
        to_value record_json (get_record E token record)
      else if route = ''/v1/spaces/{space}/search'' then
        query_or (search_records_from_query F (se_timestamp (env_search E)) query)
          (\<lambda>q. to_value search_page_json (search_records E token space q))
      else if route = ''/v1/records/{record_id}/thread'' then
        query_or (page_query_from_query F query) (\<lambda>q. to_value (page_json record_json) (get_thread E token record q))
      else if route = ''/v1/records/{record_id}/delivery-status'' then
        query_or (page_query_from_query F query)
          (\<lambda>q. to_value (page_json receipt_summary_json) (delivery_status E token record q))
      else throw NotFound)"

definition path_param :: "(string \<times> string) list \<Rightarrow> string \<Rightarrow> string" where
  "path_param path name = (case map_of path name of Some v \<Rightarrow> v | None \<Rightarrow> [])"

definition append_operation :: "http_config \<Rightarrow> string \<Rightarrow> string \<Rightarrow> string \<Rightarrow> http_request \<Rightarrow> http_response handler" where
  "append_operation H request_id token space rq =
     (case idempotency_key (rq_headers rq) of
        None \<Rightarrow> answer (key_required H request_id)
      | Some key \<Rightarrow>
          (case strict_request H record_input_of_json record_input_json rq of
             None \<Rightarrow> answer (bad_request H request_id)
           | Some input \<Rightarrow>
               followed_by (bootstrap_result H request_id (append_record (hc_env H) token space key input)) (\<lambda>appended sv.
               continue (success_response H 201 (append_result_json appended))
                 (if ar_mailbox_created appended > 0 then notify (r_attention (ar_record appended)) sv else sv))))"

text \<open>After authentication and the path.\<close>

definition journal_route :: "http_config \<Rightarrow> string \<Rightarrow> string \<Rightarrow> string \<Rightarrow> string \<Rightarrow> (string \<times> string) list
    \<Rightarrow> http_request \<Rightarrow> http_response handler" where
  "journal_route H request_id route token prin path rq =
     (let query = (case rq_query rq of Some q \<Rightarrow> q | None \<Rightarrow> []) in
      if route = ''/v1/inbox/{item_id}/ack'' then
        (if query \<noteq> [] \<or> body_bytes rq \<noteq> [] then
           answer (error_response H 400 ''invalid-request'' ''acknowledgment requires no body or query'' request_id)
         else bootstrap H request_id 204 (\<lambda>_. JNull)
           (acknowledge_inbox_item (hc_env H) token (path_param path ''item_id'')))
      else if rq_method rq = ''POST'' then append_operation H request_id token (path_param path ''space'') rq
      else if route = ''/v1/inbox'' then inbox_long_poll H request_id token prin query rq
      else bootstrap H request_id 200 (\<lambda>v. v)
        (journal_read H token route (path_param path ''space'') (path_param path ''record_id'') query))"

definition journal_operation :: "http_config \<Rightarrow> string \<Rightarrow> string \<Rightarrow> http_request \<Rightarrow> http_response handler" where
  "journal_operation H request_id route rq =
     (case bearer (hc_axum H) (rq_headers rq) of
        None \<Rightarrow> answer (unauthorized H request_id)
      | Some token \<Rightarrow>
          followed_by (bootstrap_result H request_id
            (bind (if rq_method rq = ''POST'' \<and> route = ''/v1/spaces/{space}/records''
                   then authenticate_append_replay (hc_env H) token
                   else authenticate (hc_env H) token PrincipalClient)
              (\<lambda>credential. ret (ac_principal_id credential)))) (\<lambda>prin.
          case ax_params (hc_axum H) route (rq_path rq) of
            None \<Rightarrow> answer (bad_request H request_id)
          | Some path \<Rightarrow> journal_route H request_id route token prin path rq))"

section \<open>Health\<close>

definition health_json :: "http_config \<Rightarrow> bool \<Rightarrow> json" where
  "health_json H checked = JObj ([(''status'', JStr ''ok''), (''version'', JStr (hc_version H))]
     @ (if checked then [(''checks'', JObj [(''database'', JStr ''ok'')])] else []))"

definition health_response :: "http_config \<Rightarrow> bool \<Rightarrow> http_response" where
  "health_response H checked = \<lparr>rp_status = 200, rp_headers = [(''content-type'', ''application/json'')],
     rp_body = json_print (hc_json H) (health_json H checked)\<rparr>"

definition ready :: "http_config \<Rightarrow> string \<Rightarrow> http_response handler" where
  "ready H request_id sv =
     (let sv' = sv\<lparr>sv_executions := sv_executions sv + 1\<rparr>;
          unavailable = error_response H 503 ''service-unavailable'' ''required service dependency is unavailable'' request_id in
      if \<not> hc_permit H (sv_executions sv) then
        (Inr (error_response H 503 ''capacity-unavailable'' ''database work capacity is exhausted'' request_id), sv')
      else (case hc_schema_version H (sv_executions sv) of
              Inr v \<Rightarrow> (Inr (if v = 13 then health_response H True else unavailable), sv')
            | Inl _ \<Rightarrow> (Inr unavailable, sv')))"

section \<open>Middleware and routers\<close>

definition is_json :: "http_config \<Rightarrow> http_request \<Rightarrow> bool" where
  "is_json H rq =
     (case header_values ''content-type'' (rq_headers rq) of
        [] \<Rightarrow> False
      | v # _ \<Rightarrow> (case ax_to_str (hc_axum H) v of
                    None \<Rightarrow> False
                  | Some text \<Rightarrow> ascii_lower (trim (takeWhile (\<lambda>c. c \<noteq> CHR '';'') text)) = ''application/json''))"

definition validate_request_body :: "http_config \<Rightarrow> string \<Rightarrow> string option \<Rightarrow> http_request
    \<Rightarrow> http_response handler \<Rightarrow> http_response handler" where
  "validate_request_body H request_id route rq next =
     (case rq_body rq of
        Received bytes \<Rightarrow>
          if length bytes > hc_max_body_bytes H then
            answer (error_response H 413 ''payload-too-large'' ''request body exceeds the configured limit'' request_id)
          else if is_json H rq \<and> \<not> (route = Some ''/v1/inbox/{item_id}/ack'' \<and> bytes = [])
              \<and> isl (decode_json (hc_json H) Some (\<lambda>v. v) bytes) then
            answer (error_response H 400 ''invalid-json'' ''request body is not valid JSON'' request_id)
          else next
      | BrokenOff \<Rightarrow>
          answer (error_response H 413 ''payload-too-large'' ''request body exceeds the configured limit'' request_id)
      | Stalled \<Rightarrow>
          answer (error_response H 408 ''request-timeout'' ''request body was not received before the deadline'' request_id)
      | ShutdownFirst \<Rightarrow>
          answer (error_response H 503 ''service-shutting-down'' ''service is shutting down'' request_id))"

fun hex_nat :: "nat \<Rightarrow> string" where
  "hex_nat n = (if n < 16 then [DIGITS ! n] else hex_nat (n div 16) @ [DIGITS ! (n mod 16)])"

declare hex_nat.simps [simp del]

definition new_request_id :: "http_config \<Rightarrow> server \<Rightarrow> string \<times> server" where
  "new_request_id H sv =
     (let sequence = sv_next_request_id sv in
      (hex_nat (hc_epoch_nanos H sequence) @ ''-'' @ hex_nat (hc_process_id H) @ ''-'' @ hex_nat (unat sequence),
       sv\<lparr>sv_next_request_id := sequence + 1\<rparr>))"

definition assign_request_id :: "http_config \<Rightarrow> (string \<Rightarrow> http_response handler) \<Rightarrow> server \<Rightarrow> http_response \<times> server" where
  "assign_request_id H next sv =
     (case new_request_id H sv of (request_id, sv1) \<Rightarrow>
      (case next request_id sv1 of (r, sv2) \<Rightarrow>
        (let response = (case r of Inl a \<Rightarrow> a | Inr b \<Rightarrow> b) in
         (response\<lparr>rp_headers := (''x-request-id'', request_id) # rp_headers response\<rparr>, sv2))))"

text \<open>Routes with the methods they take; \<open>get\<close> also takes HEAD.\<close>

definition GET :: "string list" where
  "GET = [''GET'', ''HEAD'']"

definition public_routes :: "(string \<times> string list) list" where
  "public_routes = [(''/health/live'', GET), (''/health/ready'', GET), (''/v1/registrations'', [''POST'']),
     (''/v1/me'', GET), (''/v1/me/profile'', [''PATCH'']), (''/v1/principals'', GET), (''/v1/inbox'', GET),
     (''/v1/inbox/{item_id}/ack'', [''POST'']), (''/v1/spaces'', GET), (''/v1/spaces/{space}'', GET),
     (''/v1/spaces/{space}/records'', GET @ [''POST'']), (''/v1/spaces/{space}/search'', GET),
     (''/v1/records/{record_id}'', GET), (''/v1/records/{record_id}/thread'', GET),
     (''/v1/records/{record_id}/delivery-status'', GET)]"

definition admin_routes :: "(string \<times> string list) list" where
  "admin_routes = [(''/v1/admin/metrics'', GET), (''/v1/admin/principals'', [''POST'']), (''/v1/admin/spaces'', [''POST'']),
     (''/v1/admin/memberships'', [''POST'']), (''/v1/admin/credentials/rotate'', [''POST'']),
     (''/v1/admin/credentials/revoke'', [''POST'']), (''/v1/admin/principals/recover'', [''POST'']),
     (''/health/live'', GET), (''/health/ready'', GET)]"

definition unimplemented_route :: "http_config \<Rightarrow> string \<Rightarrow> http_response" where
  "unimplemented_route H request_id = error_response H 404 ''not-found'' ''resource not found'' request_id"

definition method_not_allowed :: "http_config \<Rightarrow> string \<Rightarrow> http_response" where
  "method_not_allowed H request_id = error_response H 405 ''method-not-allowed'' ''request method is not allowed'' request_id"

definition routed :: "http_config \<Rightarrow> (string \<times> string list) list \<Rightarrow> (string \<Rightarrow> string \<Rightarrow> http_request \<Rightarrow> http_response handler)
    \<Rightarrow> http_request \<Rightarrow> server \<Rightarrow> http_response \<times> server" where
  "routed H routes handlers rq =
     assign_request_id H (\<lambda>request_id.
       let route = ax_match (hc_axum H) (map fst routes) (rq_path rq) in
       validate_request_body H request_id route rq
         (case route of
            None \<Rightarrow> continue (unimplemented_route H request_id)
          | Some template \<Rightarrow>
              (case map_of routes template of
                 None \<Rightarrow> continue (unimplemented_route H request_id)
               | Some methods \<Rightarrow>
                   if rq_method rq \<in> set methods then handlers request_id template rq
                   else continue (method_not_allowed H request_id))))"

definition public_handlers :: "http_config \<Rightarrow> string \<Rightarrow> string \<Rightarrow> http_request \<Rightarrow> http_response handler" where
  "public_handlers H request_id route rq =
     (if route = ''/health/live'' then continue (health_response H False)
      else if route = ''/health/ready'' then ready H request_id
      else if route = ''/v1/registrations'' then register_principal H request_id rq
      else if route = ''/v1/me'' then me_handler H request_id rq
      else if route = ''/v1/me/profile'' then update_profile H request_id rq
      else journal_operation H request_id route rq)"

definition public_router :: "http_config \<Rightarrow> http_request \<Rightarrow> server \<Rightarrow> http_response \<times> server" where
  "public_router H = routed H public_routes (public_handlers H)"

definition admin_handlers :: "http_config \<Rightarrow> string \<Rightarrow> string \<Rightarrow> http_request \<Rightarrow> http_response handler" where
  "admin_handlers H request_id route rq =
     (if route = ''/health/live'' then continue (health_response H False)
      else if route = ''/health/ready'' then ready H request_id
      else require_local_peer H request_id rq (admin_operation H request_id route rq))"

definition admin_router :: "http_config \<Rightarrow> http_request \<Rightarrow> server \<Rightarrow> http_response \<times> server" where
  "admin_router H = routed H admin_routes (admin_handlers H)"


section \<open>Refusals\<close>

text \<open>\<open>refuses m sv\<close>: run on \<open>sv\<close>, the handler answers with an error and leaves the committed database
  as it was. \<open>fails op s z\<close>: the service operation fails and leaves it as it was.\<close>

definition response_of :: "http_response + http_response \<Rightarrow> http_response" where
  "response_of r = (case r of Inl a \<Rightarrow> a | Inr b \<Rightarrow> b)"

definition refuses :: "http_response handler \<Rightarrow> server \<Rightarrow> bool" where
  "refuses m sv \<longleftrightarrow> rp_status (response_of (fst (m sv))) \<ge> 400
     \<and> central (sv_store (snd (m sv))) = central (sv_store sv)"

definition fails :: "(store, 'a) prog \<Rightarrow> store \<Rightarrow> sources \<Rightarrow> bool" where
  "fails op s z \<longleftrightarrow> isl (fst (op (s, z))) \<and> central (fst (snd (op (s, z)))) = central s"

lemma error_status: "rp_status (error_response H n c m i) = n"
  by (simp add: error_response_def)

lemma error_parts_status: "fst (error_parts e) \<ge> 400"
  by (cases e) simp_all

lemma refuses_answer: "rp_status r \<ge> 400 \<Longrightarrow> refuses (answer r) sv" "rp_status r \<ge> 400 \<Longrightarrow> refuses (continue r) sv"
  by (simp_all add: refuses_def answer_def continue_def response_of_def)

lemma bootstrap_result_fails:
  assumes "fails op (sv_store sv) (sv_sources sv)"
  obtains r sv' where "bootstrap_result H i op sv = (Inl r, sv')" "rp_status r \<ge> 400"
    "central (sv_store sv') = central (sv_store sv)"
proof -
  obtain e s z where run: "op (sv_store sv, sv_sources sv) = (Inl e, s, z)" "central s = central (sv_store sv)"
    using assms by (cases "op (sv_store sv, sv_sources sv)") (auto simp: fails_def isl_def)
  obtain n c m where parts: "error_parts e = (n, c, m)" by (cases "error_parts e")
  have n: "n \<ge> 400" using error_parts_status [of e] parts by simp
  have "(\<exists>r. fst (bootstrap_result H i op sv) = Inl r \<and> rp_status r \<ge> 400)
      \<and> central (sv_store (snd (bootstrap_result H i op sv))) = central (sv_store sv)"
    using run parts n
    by (cases e; cases "hc_permit H (sv_executions sv)")
      (auto simp: bootstrap_result_def blocking_def Let_def error_status)
  then show thesis
    using that by (cases "bootstrap_result H i op sv") auto
qed

lemma refuses_followed_by:
  assumes "fails op (sv_store sv) (sv_sources sv)"
  shows "refuses (followed_by (bootstrap_result H i op) f) sv"
proof -
  obtain r sv' where "bootstrap_result H i op sv = (Inl r, sv')" "rp_status r \<ge> 400" "central (sv_store sv') = central (sv_store sv)"
    using bootstrap_result_fails [OF assms] .
  then show ?thesis by (simp add: refuses_def followed_by_def response_of_def)
qed

lemma fails_bind: "fails m s z \<Longrightarrow> fails (bind m f) s z"
  by (cases "m (s, z)") (auto simp: fails_def bind_def isl_def)

text \<open>Authentication fails without a live credential, and never touches the database.\<close>

definition live_bearer :: "http_config \<Rightarrow> http_request \<Rightarrow> db \<Rightarrow> bool" where
  "live_bearer H rq d \<longleftrightarrow> (\<exists>token c. bearer (hc_axum H) (rq_headers rq) = Some token \<and> c \<in> set (credentials d)
     \<and> cr_token_hash c = digest (hc_env H) token \<and> cr_revoked_at c = None)"

lemma authentication_runs:
  "central (fst (snd (authenticate E token class (s, z)))) = central s"
  "central (fst (snd (authenticate_append_replay E token (s, z)))) = central s"
  by (auto simp: authenticate_def authenticate_append_replay_def bind_def guard_def ret_def throw_def connect_read_only_def
      storage_io_def now_def clock_now_def lift_def on_snapshot_def reads_def split: sum.splits prod.splits)

lemma authentication_finds:
  assumes "authenticate E token PrincipalClient (s, z) = (Inr a, w)
    \<or> authenticate_append_replay E token (s, z) = (Inr a, w)"
  shows "\<exists>c \<in> set (credentials (central s)). cr_token_hash c = digest E token \<and> cr_revoked_at c = None"
  using assms
  by (auto simp: authenticate_def authenticate_append_replay_def bind_def guard_def ret_def throw_def connect_read_only_def
      storage_io_def now_def clock_now_def lift_def on_snapshot_def reads_def authenticate_query_def append_replay_query_def
      find_token_def live_credential_def dest!: find_SomeD split: sum.splits prod.splits if_splits option.splits)

lemma authentication_fails:
  assumes "\<not> live_bearer H rq (central s)" "bearer (hc_axum H) (rq_headers rq) = Some token"
  shows "fails (authenticate (hc_env H) token PrincipalClient) s z"
    "fails (authenticate_append_replay (hc_env H) token) s z"
proof -
  have none: "\<not> (\<exists>c \<in> set (credentials (central s)). cr_token_hash c = digest (hc_env H) token \<and> cr_revoked_at c = None)"
    using assms by (auto simp: live_bearer_def)
  then show "fails (authenticate (hc_env H) token PrincipalClient) s z"
    using authentication_finds [of "hc_env H" token s z] authentication_runs(1) [of "hc_env H" token PrincipalClient s z]
    by (cases "authenticate (hc_env H) token PrincipalClient (s, z)"; cases "fst (authenticate (hc_env H) token PrincipalClient (s, z))")
      (auto simp: fails_def)
  show "fails (authenticate_append_replay (hc_env H) token) s z"
    using none authentication_finds [of "hc_env H" token s z] authentication_runs(2) [of "hc_env H" token s z]
    by (cases "authenticate_append_replay (hc_env H) token (s, z)"; cases "fst (authenticate_append_replay (hc_env H) token (s, z))")
      (auto simp: fails_def)
qed

lemma handlers_refuse:
  assumes "\<not> live_bearer H rq (central (sv_store sv))"
  shows "refuses (me_handler H i rq) sv" "refuses (update_profile H i rq) sv" "refuses (journal_operation H i route rq) sv"
  using authentication_fails [OF assms]
  by (auto simp: me_handler_def update_profile_def journal_operation_def bootstrap_def unauthorized_def key_required_def
      bad_request_def error_status intro!: refuses_answer refuses_followed_by fails_bind split: option.splits)

text \<open>The middleware passes a refusal on.\<close>

lemma validate_refuses: "refuses next sv \<Longrightarrow> refuses (validate_request_body H i route rq next) sv"
  by (auto simp: validate_request_body_def error_status intro!: refuses_answer split: body_event.splits)

lemma assigned_refuses:
  assumes "assign_request_id H next sv = (resp, sv')" "\<And>i sv1. sv_store sv1 = sv_store sv \<Longrightarrow> refuses (next i) sv1"
  shows "rp_status resp \<ge> 400 \<and> central (sv_store sv') = central (sv_store sv)"
proof -
  obtain i sv1 where i: "new_request_id H sv = (i, sv1)" by (cases "new_request_id H sv")
  then have "sv_store sv1 = sv_store sv" by (auto simp: new_request_id_def Let_def)
  then show ?thesis
    using assms(1) assms(2) [of sv1 i] i
    by (auto simp: assign_request_id_def refuses_def response_of_def Let_def split: prod.splits)
qed

lemma routed_refuses:
  assumes "routed H routes handlers rq sv = (resp, sv')"
    "\<And>i route sv1. ax_match (hc_axum H) (map fst routes) (rq_path rq) = Some route \<Longrightarrow> sv_store sv1 = sv_store sv \<Longrightarrow>
       refuses (handlers i route rq) sv1"
  shows "rp_status resp \<ge> 400 \<and> central (sv_store sv') = central (sv_store sv)"
  using assms(2)
  by (intro assigned_refuses [OF assms(1) [unfolded routed_def]])
    (auto simp: Let_def unimplemented_route_def method_not_allowed_def error_status
      intro!: validate_refuses refuses_answer split: option.splits)

definition public_route :: "http_config \<Rightarrow> http_request \<Rightarrow> string option" where
  "public_route H rq = ax_match (hc_axum H) (map fst public_routes) (rq_path rq)"

definition admin_route :: "http_config \<Rightarrow> http_request \<Rightarrow> string option" where
  "admin_route H rq = ax_match (hc_axum H) (map fst admin_routes) (rq_path rq)"

definition health_routes :: "string list" where
  "health_routes = [''/health/live'', ''/health/ready'']"


text \<open>C34. Administration is for the owner of the daemon alone. A request on the administrative listener
  whose peer is not the owner of the socket, or whose peer is unknown, is answered with an error and
  changes nothing in the database, whatever its route and body; only the health checks answer it.\<close>

theorem administration_needs_the_owner:
  assumes "admin_router H rq sv = (resp, sv')" "hc_owner H = None \<or> rq_peer rq \<noteq> hc_owner H"
    "admin_route H rq \<notin> Some ` set health_routes"
  shows "rp_status resp \<ge> 400 \<and> central (sv_store sv') = central (sv_store sv)"
proof (rule routed_refuses [OF assms(1) [unfolded admin_router_def]])
  fix i route and sv1 :: server
  assume "ax_match (hc_axum H) (map fst admin_routes) (rq_path rq) = Some route"
  then show "refuses (admin_handlers H i route rq) sv1"
    using assms(2,3)
    by (auto simp: admin_handlers_def admin_route_def require_local_peer_def health_routes_def error_status
        intro!: refuses_answer)
qed

end
