(* ===== verification/Client.thy ===== *)
theory Client
  imports Http Worker
begin

text \<open>
  The typed client (journal-client/src/lib.rs and transport.rs): every method validates its
  arguments, builds one request, sends it through a transport and decodes the answer. A transport
  is a parameter; \<open>deliver\<close> hands a request to the daemon's public router unchanged, which composes
  the two components. The main result is that the daemon performs exactly the call the client made.
\<close>

section \<open>Requests and transports\<close>

record proto_request =
  pq_method :: string
  pq_path :: string
  pq_headers :: "(string, string) btree_map"
  pq_body :: string

record proto_response =
  ps_status :: nat
  ps_headers :: "(string, string) btree_map"
  ps_body :: string

definition new_request :: "string \<Rightarrow> string \<Rightarrow> string \<Rightarrow> proto_request" where
  "new_request meth path body = \<lparr>pq_method = meth, pq_path = path, pq_headers = [], pq_body = body\<rparr>"

definition with_header :: "string \<Rightarrow> string \<Rightarrow> proto_request \<Rightarrow> proto_request" where
  "with_header name value rq = rq\<lparr>pq_headers := bt_insert name value (pq_headers rq)\<rparr>"

type_synonym 'w transport = "proto_request \<Rightarrow> 'w \<Rightarrow> (transport_error + proto_response) \<times> 'w"

text \<open>A client remembers the correlation of its last answer.\<close>

record 'w client_state =
  cl_last_request_id :: "string option"
  cl_world :: 'w

fun split_on :: "char \<Rightarrow> string \<Rightarrow> string list" where
  "split_on c [] = [[]]"
| "split_on c (x # xs) =
     (if x = c then [] # split_on c xs
      else (case split_on c xs of [] \<Rightarrow> [[x]] | p # ps \<Rightarrow> (x # p) # ps))"

definition safe_request_id :: "string \<Rightarrow> bool" where
  "safe_request_id value \<longleftrightarrow> length value \<le> 80 \<and> length (split_on (CHR ''-'') value) = 3
     \<and> list_all (\<lambda>part. part \<noteq> [] \<and> list_all is_hexdigit part) (split_on (CHR ''-'') value)"

definition answered_request_id :: "(string, string) btree_map \<Rightarrow> string option" where
  "answered_request_id hs =
     (case find (\<lambda>(k, _). ascii_lower k = ''x-request-id'') hs of
        Some (_, v) \<Rightarrow> if safe_request_id v then Some v else None
      | None \<Rightarrow> None)"

definition send :: "'w transport option \<Rightarrow> proto_request \<Rightarrow> 'w client_state
    \<Rightarrow> (client_error + proto_response) \<times> 'w client_state" where
  "send transport rq c =
     (let c = c\<lparr>cl_last_request_id := None\<rparr> in
      case transport of
        None \<Rightarrow> (Inl ClientUnavailable, c)
      | Some t \<Rightarrow>
          (case t rq (cl_world c) of
             (Inl e, w) \<Rightarrow> (Inl (ClientTransport e), c\<lparr>cl_world := w\<rparr>)
           | (Inr r, w) \<Rightarrow> (Inr r, c\<lparr>cl_world := w, cl_last_request_id := answered_request_id (ps_headers r)\<rparr>)))"

text \<open>What \<open>HttpTransport::send\<close> refuses before anything is sent: paths outside the interface, line
  breaks and fragments, and a path of the other listener.\<close>

definition transport_admits :: "bool \<Rightarrow> string \<Rightarrow> bool" where
  "transport_admits admin path \<longleftrightarrow> starts_with path ''/v1/''
     \<and> \<not> list_ex (\<lambda>c. of_char c = (13 :: nat) \<or> of_char c = (10 :: nat) \<or> c = CHR ''#'') path
     \<and> (starts_with path ''/v1/admin/'' \<longleftrightarrow> admin)"

section \<open>Sending and decoding\<close>

definition bearer_header :: "string \<Rightarrow> proto_request \<Rightarrow> proto_request" where
  "bearer_header token rq = with_header ''Authorization'' (''Bearer '' @ token) rq"

definition json_body :: "proto_request \<Rightarrow> proto_request" where
  "json_body rq = with_header ''Content-Type'' ''application/json'' rq"

definition is_success :: "nat \<Rightarrow> bool" where
  "is_success status \<longleftrightarrow> 200 \<le> status \<and> status < 300"

definition decode_response :: "json_text \<Rightarrow> (json \<Rightarrow> 'o option) \<Rightarrow> ('o \<Rightarrow> json) \<Rightarrow> proto_response \<Rightarrow> client_error + 'o" where
  "decode_response J of_json to_json r =
     (if \<not> is_success (ps_status r) then Inl (client_error.Http (ps_status r))
      else map_err (\<lambda>_. ClientJson) (decode_json J of_json to_json (ps_body r)))"

text \<open>\<open>principal\<close>: the token check and the header, then the exchange.\<close>

definition principal_request :: "string \<Rightarrow> proto_request \<Rightarrow> client_error + proto_request" where
  "principal_request token rq =
     (if \<not> bearer_token token then Inl ClientInvalidRequest else Inr (bearer_header token rq))"

definition exchange :: "'w transport option \<Rightarrow> (proto_response \<Rightarrow> client_error + 'o) \<Rightarrow> client_error + proto_request
    \<Rightarrow> 'w client_state \<Rightarrow> (client_error + 'o) \<times> 'w client_state" where
  "exchange transport decode built c =
     (case built of
        Inl e \<Rightarrow> (Inl e, c)
      | Inr rq \<Rightarrow>
          (case send transport rq c of
             (Inl e, c') \<Rightarrow> (Inl e, c')
           | (Inr r, c') \<Rightarrow> (decode r, c')))"

definition invalid_request :: "'e + 'a \<Rightarrow> client_error + 'a" where
  "invalid_request r = map_err (\<lambda>_. ClientInvalidRequest) r"

definition valid_client_key :: "string \<Rightarrow> bool" where
  "valid_client_key key \<longleftrightarrow> 1 \<le> chars_count key \<and> chars_count key \<le> 255 \<and> \<not> list_ex is_control (utf8_chars key)"

section \<open>The requests of the methods\<close>

definition get_request :: "string \<Rightarrow> string \<Rightarrow> client_error + proto_request" where
  "get_request token path = principal_request token (new_request ''GET'' path [])"

definition with_query :: "form_codec \<Rightarrow> string \<Rightarrow> (string \<times> string) list \<Rightarrow> string" where
  "with_query F path pairs = path @ ''?'' @ query_string F pairs"

definition me_request :: "string \<Rightarrow> client_error + proto_request" where
  "me_request token = get_request token ''/v1/me''"

definition spaces_request :: "form_codec \<Rightarrow> string \<Rightarrow> page_query \<Rightarrow> client_error + proto_request" where
  "spaces_request F token query =
     and_then (invalid_request (validate_page_query query)) (\<lambda>_.
     get_request token (with_query F ''/v1/spaces'' (page_query_pairs query)))"

definition principals_request :: "form_codec \<Rightarrow> string \<Rightarrow> list_principals_query \<Rightarrow> client_error + proto_request" where
  "principals_request F token query =
     and_then (invalid_request (validate_list_principals_query query)) (\<lambda>_.
     get_request token (with_query F ''/v1/principals'' (list_principals_pairs query)))"

definition space_request :: "form_codec \<Rightarrow> string \<Rightarrow> string \<Rightarrow> client_error + proto_request" where
  "space_request F token space =
     and_then (invalid_request (validate_identifier ''space'' space)) (\<lambda>_.
     get_request token (''/v1/spaces/'' @ path_segment F space))"

definition append_request :: "form_codec \<Rightarrow> json_text \<Rightarrow> string \<Rightarrow> string \<Rightarrow> string \<Rightarrow> record_input
    \<Rightarrow> client_error + proto_request" where
  "append_request F J token space key input =
     and_then (invalid_request (validate_identifier ''space'' space)) (\<lambda>_.
     and_then (ensure (valid_client_key key) ClientInvalidRequest) (\<lambda>_.
     and_then (invalid_request (canonical_append J input)) (\<lambda>body.
     principal_request token (with_header ''Idempotency-Key'' key (json_body
       (new_request ''POST'' (''/v1/spaces/'' @ path_segment F space @ ''/records'') body))))))"

definition get_record_request :: "form_codec \<Rightarrow> string \<Rightarrow> string \<Rightarrow> client_error + proto_request" where
  "get_record_request F token i =
     and_then (invalid_request (validate_identifier ''record_id'' i)) (\<lambda>_.
     get_request token (''/v1/records/'' @ path_segment F i))"

definition list_request :: "form_codec \<Rightarrow> string \<Rightarrow> string \<Rightarrow> list_records_query \<Rightarrow> client_error + proto_request" where
  "list_request F token space query =
     and_then (invalid_request (validate_identifier ''space'' space)) (\<lambda>_.
     and_then (invalid_request (validate_list_records_query query)) (\<lambda>_.
     get_request token (with_query F (''/v1/spaces/'' @ path_segment F space @ ''/records'') (list_records_pairs query))))"

definition search_request :: "form_codec \<Rightarrow> (string \<Rightarrow> int option) \<Rightarrow> string \<Rightarrow> string \<Rightarrow> search_records_query
    \<Rightarrow> client_error + proto_request" where
  "search_request F parse_timestamp token space query =
     and_then (invalid_request (validate_identifier ''space'' space)) (\<lambda>_.
     and_then (invalid_request (validate_search_records_query parse_timestamp query)) (\<lambda>_.
     get_request token (with_query F (''/v1/spaces/'' @ path_segment F space @ ''/search'') (search_records_pairs query))))"

definition thread_request :: "form_codec \<Rightarrow> string \<Rightarrow> string \<Rightarrow> page_query \<Rightarrow> client_error + proto_request" where
  "thread_request F token i query =
     and_then (invalid_request (validate_identifier ''record_id'' i)) (\<lambda>_.
     and_then (invalid_request (validate_page_query query)) (\<lambda>_.
     get_request token (with_query F (''/v1/records/'' @ path_segment F i @ ''/thread'') (page_query_pairs query))))"

definition delivery_request :: "form_codec \<Rightarrow> string \<Rightarrow> string \<Rightarrow> page_query \<Rightarrow> client_error + proto_request" where
  "delivery_request F token i query =
     and_then (invalid_request (validate_record_path i)) (\<lambda>_.
     and_then (invalid_request (validate_page_query query)) (\<lambda>_.
     get_request token (with_query F (''/v1/records/'' @ path_segment F i @ ''/delivery-status'') (page_query_pairs query))))"

definition inbox_request :: "form_codec \<Rightarrow> string \<Rightarrow> inbox_query \<Rightarrow> client_error + proto_request" where
  "inbox_request F token query =
     and_then (invalid_request (validate_inbox_query query)) (\<lambda>_.
     get_request token (with_query F ''/v1/inbox'' (inbox_query_pairs query)))"

definition acknowledge_request :: "form_codec \<Rightarrow> string \<Rightarrow> string \<Rightarrow> client_error + proto_request" where
  "acknowledge_request F token item =
     and_then (invalid_request (validate_mailbox_item_path item)) (\<lambda>_.
     principal_request token (new_request ''POST'' (''/v1/inbox/'' @ path_segment F item @ ''/ack'') []))"

definition profile_request :: "json_text \<Rightarrow> string \<Rightarrow> string \<Rightarrow> profile_update_request \<Rightarrow> client_error + proto_request" where
  "profile_request J token key input =
     and_then (invalid_request (validate_profile_update input)) (\<lambda>_.
     and_then (ensure (valid_client_key key) ClientInvalidRequest) (\<lambda>_.
     principal_request token (with_header ''Idempotency-Key'' key (json_body
       (new_request ''PATCH'' ''/v1/me/profile'' (encode_json J profile_update_json input))))))"

definition register_request :: "json_text \<Rightarrow> string \<Rightarrow> principal_create_request \<Rightarrow> client_error + proto_request" where
  "register_request J token input =
     and_then (invalid_request (validate_principal_create input)) (\<lambda>_.
     and_then (ensure (registration_token token) ClientInvalidRequest) (\<lambda>_.
     Inr (bearer_header token (json_body
       (new_request ''POST'' ''/v1/registrations'' (encode_json J principal_create_json input))))))"

text \<open>The administrative methods post a validated document.\<close>

definition admin_request :: "json_text \<Rightarrow> string \<Rightarrow> ('i \<Rightarrow> wire_error + unit) \<Rightarrow> ('i \<Rightarrow> json) \<Rightarrow> 'i \<Rightarrow> client_error + proto_request" where
  "admin_request J path validate to_json input =
     and_then (invalid_request (validate input)) (\<lambda>_.
     Inr (json_body (new_request ''POST'' path (json_print J (to_json input)))))"

section \<open>The methods\<close>

definition client_me where
  "client_me J t token = exchange t (decode_response J me_of_json me_json) (me_request token)"

definition client_spaces where
  "client_spaces F J t token query =
     exchange t (decode_response J (page_of_json space_of_json) (page_json space_json)) (spaces_request F token query)"

definition client_principals where
  "client_principals F J t token query =
     exchange t (decode_response J (page_of_json principal_of_json) (page_json principal_json)) (principals_request F token query)"

definition client_space where
  "client_space F J t token space = exchange t (decode_response J space_of_json space_json) (space_request F token space)"

definition client_append where
  "client_append F J t token space key input =
     exchange t (decode_response J append_result_of_json append_result_json) (append_request F J token space key input)"

definition client_get where
  "client_get F J t token i = exchange t (decode_response J record_of_json record_json) (get_record_request F token i)"

definition client_list where
  "client_list F J t token space query =
     exchange t (decode_response J (page_of_json record_of_json) (page_json record_json)) (list_request F token space query)"

definition client_thread where
  "client_thread F J t token i query =
     exchange t (decode_response J (page_of_json record_of_json) (page_json record_json)) (thread_request F token i query)"

definition client_delivery_status where
  "client_delivery_status F J t token i query =
     exchange t (decode_response J (page_of_json receipt_summary_of_json) (page_json receipt_summary_json))
       (delivery_request F token i query)"

definition client_inbox where
  "client_inbox F J t token query =
     exchange t (decode_response J (page_of_json inbox_item_of_json) (page_json inbox_item_json)) (inbox_request F token query)"

definition client_acknowledge where
  "client_acknowledge F t token item =
     exchange t (\<lambda>r. if ps_status r \<noteq> 204 then Inl (client_error.Http (ps_status r))
                     else if ps_body r \<noteq> [] then Inl ClientJson else Inr ()) (acknowledge_request F token item)"

definition client_update_profile where
  "client_update_profile J t token key input =
     exchange t (decode_response J principal_of_json principal_json) (profile_request J token key input)"

definition client_register where
  "client_register J t token input =
     exchange t (\<lambda>r. if ps_status r \<noteq> 200 \<and> ps_status r \<noteq> 201 then Inl (client_error.Http (ps_status r))
                     else and_then (map_err (\<lambda>_. ClientJson)
                       (decode_json J registration_receipt_of_json registration_receipt_json (ps_body r))) (\<lambda>receipt.
                     Inr \<lparr>ro_receipt = receipt, ro_replayed = (ps_status r = 200)\<rparr>)) (register_request J token input)"

definition client_create_principal where
  "client_create_principal J t input = exchange t (decode_response J principal_of_json principal_json)
     (admin_request J ''/v1/admin/principals'' validate_principal_create principal_create_json input)"

definition client_create_space where
  "client_create_space J t input = exchange t (decode_response J space_of_json space_json)
     (admin_request J ''/v1/admin/spaces'' validate_space_create space_create_json input)"

definition client_set_membership where
  "client_set_membership J t input = exchange t (decode_response J membership_of_json membership_json)
     (admin_request J ''/v1/admin/memberships'' validate_membership_request membership_request_json input)"

definition client_rotate where
  "client_rotate J t input = exchange t (decode_response J credential_rotation_of_json credential_rotation_json)
     (admin_request J ''/v1/admin/credentials/rotate'' validate_credential_rotate credential_rotate_json input)"

definition client_revoke where
  "client_revoke J t input = exchange t (\<lambda>r. if is_success (ps_status r) then Inr () else Inl (client_error.Http (ps_status r)))
     (admin_request J ''/v1/admin/credentials/revoke'' validate_credential_rotate credential_rotate_json input)"

definition client_recover_principal where
  "client_recover_principal J t input =
     exchange t (decode_response J principal_recovery_response_of_json principal_recovery_response_json)
     (admin_request J ''/v1/admin/principals/recover'' validate_principal_recovery principal_recovery_json input)"

section \<open>The client and the daemon together\<close>

text \<open>What the daemon receives when the network carries a request unchanged.\<close>

definition received :: "nat \<Rightarrow> waiting \<Rightarrow> proto_request \<Rightarrow> http_request" where
  "received started wt rq = \<lparr>rq_method = pq_method rq,
     rq_path = takeWhile (\<lambda>c. c \<noteq> CHR ''?'') (pq_path rq),
     rq_query = (if CHR ''?'' \<in> set (pq_path rq) then Some (tl (dropWhile (\<lambda>c. c \<noteq> CHR ''?'') (pq_path rq))) else None),
     rq_headers = pq_headers rq, rq_body = Received (pq_body rq), rq_peer = None, rq_started = started, rq_waiting = wt\<rparr>"

datatype client_call =
    CallMe
  | CallUpdateProfile string profile_update_request
  | CallSpaces page_query
  | CallPrincipals list_principals_query
  | CallSpace string
  | CallAppend string string record_input
  | CallGet string
  | CallList string list_records_query
  | CallSearch string search_records_query
  | CallThread string page_query
  | CallDelivery string page_query
  | CallInbox inbox_query
  | CallAcknowledge string

fun call_request :: "http_config \<Rightarrow> string \<Rightarrow> client_call \<Rightarrow> client_error + proto_request" where
  "call_request H token CallMe = me_request token"
| "call_request H token (CallUpdateProfile key input) = profile_request (hc_json H) token key input"
| "call_request H token (CallSpaces q) = spaces_request (hc_form H) token q"
| "call_request H token (CallPrincipals q) = principals_request (hc_form H) token q"
| "call_request H token (CallSpace space) = space_request (hc_form H) token space"
| "call_request H token (CallAppend space key input) = append_request (hc_form H) (hc_json H) token space key input"
| "call_request H token (CallGet i) = get_record_request (hc_form H) token i"
| "call_request H token (CallList space q) = list_request (hc_form H) token space q"
| "call_request H token (CallSearch space q) =
     search_request (hc_form H) (se_timestamp (env_search (hc_env H))) token space q"
| "call_request H token (CallThread i q) = thread_request (hc_form H) token i q"
| "call_request H token (CallDelivery i q) = delivery_request (hc_form H) token i q"
| "call_request H token (CallInbox q) = inbox_request (hc_form H) token q"
| "call_request H token (CallAcknowledge item) = acknowledge_request (hc_form H) token item"

text \<open>What the call asks of the service, and what the daemon makes of the outcome. \<open>served\<close> is an
  operation after authentication.\<close>

definition served :: "http_config \<Rightarrow> string \<Rightarrow> (store, authenticated_credential) prog
    \<Rightarrow> (string \<Rightarrow> http_response handler) \<Rightarrow> http_response handler" where
  "served H i authentication operation =
     followed_by (bootstrap_result H i (bind authentication (\<lambda>credential. ret (ac_principal_id credential)))) operation"

fun performed :: "http_config \<Rightarrow> nat \<Rightarrow> waiting \<Rightarrow> string \<Rightarrow> client_call \<Rightarrow> string \<Rightarrow> http_response handler" where
  "performed H st wt token CallMe i = bootstrap H i 200 me_json
     (bind (authenticate (hc_env H) token PrincipalClient) (me (hc_env H)))"
| "performed H st wt token (CallUpdateProfile key input) i = bootstrap H i 200 principal_json
     (bind (authenticate (hc_env H) token PrincipalClient) (\<lambda>actor. update_own_profile (hc_env H) actor key input))"
| "performed H st wt token (CallAppend space key input) i =
     served H i (authenticate_append_replay (hc_env H) token) (\<lambda>_.
       followed_by (bootstrap_result H i (append_record (hc_env H) token space key (input\<lparr>in_attention := sort (in_attention input)\<rparr>)))
         (\<lambda>appended sv. continue (success_response H 201 (append_result_json appended))
            (if ar_mailbox_created appended > 0 then notify (r_attention (ar_record appended)) sv else sv)))"
| "performed H st wt token (CallAcknowledge item) i =
     served H i (authenticate (hc_env H) token PrincipalClient) (\<lambda>_.
       bootstrap H i 204 (\<lambda>_. JNull) (acknowledge_inbox_item (hc_env H) token item))"
| "performed H st wt token (CallInbox q) i =
     served H i (authenticate (hc_env H) token PrincipalClient) (\<lambda>prin sv.
       case poll_loop H (fetch_inbox_page H i token q) (inbox_waits q) (st + iq_wait_seconds q)
              (wt_arrivals wt) (wt_last wt) (wt_end wt) (subscribe prin sv) of
         (r, sv') \<Rightarrow> (r, unsubscribe prin sv'))"
| "performed H st wt token call i =
     served H i (authenticate (hc_env H) token PrincipalClient) (\<lambda>_. bootstrap H i 200 (\<lambda>v. v)
       (case call of
          CallSpaces q \<Rightarrow> to_value (page_json space_json) (list_spaces (hc_env H) token q)
        | CallPrincipals q \<Rightarrow> to_value (page_json principal_json) (list_principals (hc_env H) token q)
        | CallSpace space \<Rightarrow> to_value space_json (get_space (hc_env H) token space)
        | CallGet r \<Rightarrow> to_value record_json (get_record (hc_env H) token r)
        | CallList space q \<Rightarrow> to_value (page_json record_json) (list_records (hc_env H) token space q)
        | CallSearch space q \<Rightarrow> to_value search_page_json (search_records (hc_env H) token space q)
        | CallThread r q \<Rightarrow> to_value (page_json record_json) (get_thread (hc_env H) token r q)
        | CallDelivery r q \<Rightarrow> to_value (page_json receipt_summary_json) (delivery_status (hc_env H) token r q)
        | _ \<Rightarrow> throw NotFound))"

text \<open>What is relied on from the libraries for one call: axum matches the path to the documented
  template and decodes its parameter, header values of visible characters are text, percent
  encoding leaves no question mark in a path segment, \<open>form_urlencoded\<close> and serde\_json read back what
  they wrote, and a JSON body within the limit passes the extractor.\<close>

fun call_route :: "client_call \<Rightarrow> string \<times> (string \<times> string) list" where
  "call_route CallMe = (''/v1/me'', [])"
| "call_route (CallUpdateProfile key input) = (''/v1/me/profile'', [])"
| "call_route (CallSpaces q) = (''/v1/spaces'', [])"
| "call_route (CallPrincipals q) = (''/v1/principals'', [])"
| "call_route (CallSpace space) = (''/v1/spaces/{space}'', [(''space'', space)])"
| "call_route (CallAppend space key input) = (''/v1/spaces/{space}/records'', [(''space'', space)])"
| "call_route (CallGet i) = (''/v1/records/{record_id}'', [(''record_id'', i)])"
| "call_route (CallList space q) = (''/v1/spaces/{space}/records'', [(''space'', space)])"
| "call_route (CallSearch space q) = (''/v1/spaces/{space}/search'', [(''space'', space)])"
| "call_route (CallThread i q) = (''/v1/records/{record_id}/thread'', [(''record_id'', i)])"
| "call_route (CallDelivery i q) = (''/v1/records/{record_id}/delivery-status'', [(''record_id'', i)])"
| "call_route (CallInbox q) = (''/v1/inbox'', [])"
| "call_route (CallAcknowledge item) = (''/v1/inbox/{item_id}/ack'', [(''item_id'', item)])"

fun call_pairs :: "client_call \<Rightarrow> (string \<times> string) list" where
  "call_pairs (CallSpaces q) = page_query_pairs q"
| "call_pairs (CallPrincipals q) = list_principals_pairs q"
| "call_pairs (CallList space q) = list_records_pairs q"
| "call_pairs (CallSearch space q) = search_records_pairs q"
| "call_pairs (CallThread i q) = page_query_pairs q"
| "call_pairs (CallDelivery i q) = page_query_pairs q"
| "call_pairs (CallInbox q) = inbox_query_pairs q"
| "call_pairs _ = []"

fun call_document :: "client_call \<Rightarrow> json option" where
  "call_document (CallUpdateProfile key input) = Some (profile_update_json input)"
| "call_document (CallAppend space key input) = Some (record_input_json (input\<lparr>in_attention := sort (in_attention input)\<rparr>))"
| "call_document _ = None"

text \<open>The ranges of the Rust types the model's numbers and strings stand for.\<close>

fun call_typed :: "client_call \<Rightarrow> bool" where
  "call_typed (CallUpdateProfile key input) \<longleftrightarrow> valid_utf8 key \<and> pu_expected_profile_revision input \<le> i64_max"
| "call_typed (CallAppend space key input) \<longleftrightarrow> valid_utf8 key"
| "call_typed (CallList space q) \<longleftrightarrow> pred_option (\<lambda>n. n < 2 ^ 64) (lr_after_seq q)"
| "call_typed _ \<longleftrightarrow> True"

definition visible :: "string \<Rightarrow> bool" where
  "visible v \<longleftrightarrow> list_all (\<lambda>c. 32 \<le> (of_char c :: nat) \<and> (of_char c :: nat) < 127) v"

definition carried :: "http_config \<Rightarrow> proto_request \<Rightarrow> client_call \<Rightarrow> bool" where
  "carried H rq call \<longleftrightarrow>
     ax_match (hc_axum H) (map fst public_routes) (takeWhile (\<lambda>c. c \<noteq> CHR ''?'') (pq_path rq)) = Some (fst (call_route call))
     \<and> ax_params (hc_axum H) (fst (call_route call)) (takeWhile (\<lambda>c. c \<noteq> CHR ''?'') (pq_path rq)) = Some (snd (call_route call))
     \<and> list_all (\<lambda>(_, v). visible v \<longrightarrow> ax_to_str (hc_axum H) v = Some v) (pq_headers rq)
     \<and> list_all (\<lambda>(_, s). CHR ''?'' \<notin> set (path_segment (hc_form H) s)) (snd (call_route call))
     \<and> form_roundtrips (hc_form H) (call_pairs call)
     \<and> length (pq_body rq) \<le> hc_max_body_bytes H
     \<and> (case call_document call of None \<Rightarrow> True
        | Some d \<Rightarrow> json_roundtrips (hc_json H) d \<and> ax_json_ok (hc_axum H) (pq_headers rq) (pq_body rq))"

text \<open>A request with a bearer token.\<close>

lemma hexdigit_visible: "is_hexdigit c \<Longrightarrow> 32 \<le> (of_char c :: nat) \<and> (of_char c :: nat) < 127"
  by (auto simp: is_hexdigit_def is_digit_def)

lemma bearer_visible: "bearer_token token \<Longrightarrow> visible (''Bearer '' @ token)"
  using hexdigit_visible by (auto simp: visible_def bearer_token_def list_all_iff)

lemma header_names:
  "ascii_lower ''Authorization'' = ''authorization''" "ascii_lower ''Content-Type'' = ''content-type''"
  "ascii_lower ''Idempotency-Key'' = ''idempotency-key''" "ascii_lower ''Bearer'' = ''bearer''"
  "ascii_lower (trim ''application/json'') = ''application/json''"
  by code_simp+

lemma header_order:
  "''Authorization'' < ''Content-Type''" "\<not> ''Idempotency-Key'' < ''Content-Type''"
  by code_simp+

lemma split_bearer: "split_once (CHR '' '') (''Bearer '' @ token) = Some (''Bearer'', token)"
  by (simp add: split_once_def)

lemma bearer_found:
  assumes "header_values ''authorization'' hs = [value]" "value = ''Bearer '' @ token" "bearer_token token"
    "ax_to_str A value = Some value"
  shows "bearer A hs = Some token"
proof -
  have "split_once (CHR '' '') value = Some (''Bearer'', token)" using assms(2) split_bearer by simp
  then show ?thesis
    by (simp add: bearer_def bearer_text_def assms(1,3,4) header_names)
qed

text \<open>A routed request reaches its handler when the middleware lets its body through.\<close>

lemma public_router_reaches:
  assumes "ax_match (hc_axum H) (map fst public_routes) (rq_path rq) = Some route"
    "map_of public_routes route = Some methods" "rq_method rq \<in> set methods"
    "rq_body rq = Received body" "length body \<le> hc_max_body_bytes H"
    "\<not> is_json H rq \<or> \<not> isl (decode_json (hc_json H) Some (\<lambda>v. v) body)"
  shows "public_router H rq sv = assign_request_id H (\<lambda>i. public_handlers H i route rq) sv"
  using assms by (auto simp: public_router_def routed_def Let_def validate_request_body_def)

lemma performed_reached:
  assumes "public_router H rq sv = assign_request_id H (\<lambda>i. f i) sv" "\<And>i. f i = g i"
  shows "public_router H rq sv = assign_request_id H g sv"
  using assms by presburger

lemma journal_operation_reaches:
  assumes "bearer (hc_axum H) (rq_headers rq) = Some token" "ax_params (hc_axum H) route (rq_path rq) = Some path"
  shows "journal_operation H i route rq =
    served H i (if rq_method rq = ''POST'' \<and> route = ''/v1/spaces/{space}/records''
                then authenticate_append_replay (hc_env H) token else authenticate (hc_env H) token PrincipalClient)
      (\<lambda>prin. journal_route H i route token prin path rq)"
  using assms by (simp add: journal_operation_def served_def)

lemma received_query:
  assumes "CHR ''?'' \<notin> set path"
  shows "pq_path rq = path @ ''?'' @ query \<Longrightarrow> rq_query (received st wt rq) = Some query"
    "pq_path rq = path \<Longrightarrow> rq_query (received st wt rq) = None"
  using assms by (simp_all add: received_def dropWhile_append)

lemma received_simps [simp]:
  "rq_method (received st wt rq) = pq_method rq" "rq_headers (received st wt rq) = pq_headers rq"
  "rq_body (received st wt rq) = Received (pq_body rq)" "body_bytes (received st wt rq) = pq_body rq"
  "rq_path (received st wt rq) = takeWhile (\<lambda>c. c \<noteq> CHR ''?'') (pq_path rq)"
  "rq_started (received st wt rq) = st" "rq_waiting (received st wt rq) = wt"
  by (simp_all add: received_def body_bytes_def)

lemma get_request_shape:
  assumes "get_request token path = Inr rq"
  shows "bearer_token token" "pq_method rq = ''GET''" "pq_path rq = path" "pq_body rq = []"
    "pq_headers rq = [(''Authorization'', ''Bearer '' @ token)]"
  using assms
  by (auto simp: get_request_def principal_request_def bearer_header_def with_header_def new_request_def split: if_splits)

lemma keyed_request_shape:
  assumes "principal_request token (with_header ''Idempotency-Key'' key (json_body (new_request meth path body))) = Inr rq"
  shows "bearer_token token" "pq_method rq = meth" "pq_path rq = path" "pq_body rq = body"
    "pq_headers rq = [(''Authorization'', ''Bearer '' @ token), (''Content-Type'', ''application/json''), (''Idempotency-Key'', key)]"
  using assms header_order
  by (auto simp: principal_request_def bearer_header_def with_header_def json_body_def new_request_def split: if_splits)

text \<open>The headers of the two kinds of request.\<close>

lemma authorization_carried:
  assumes "carried H rq call" "pq_headers rq = (''Authorization'', ''Bearer '' @ token) # hs"
    "header_values ''authorization'' hs = []" "bearer_token token"
  shows "bearer (hc_axum H) (pq_headers rq) = Some token"
proof (rule bearer_found [OF _ refl assms(4)])
  show "header_values ''authorization'' (pq_headers rq) = [''Bearer '' @ token]"
    using assms(2,3) header_names(1) by (simp add: header_values_def)
  show "ax_to_str (hc_axum H) (''Bearer '' @ token) = Some (''Bearer '' @ token)"
    using assms(1) bearer_visible [OF assms(4)] unfolding carried_def assms(2) by simp
qed

lemma plain_headers:
  "header_values ''content-type'' [(''Authorization'', v)] = []"
  "header_values ''authorization'' [(''Content-Type'', a), (''Idempotency-Key'', b)] = []"
  "header_values ''content-type'' [(''Authorization'', v), (''Content-Type'', a), (''Idempotency-Key'', b)] = [a]"
  "header_values ''idempotency-key'' [(''Authorization'', v), (''Content-Type'', a), (''Idempotency-Key'', b)] = [b]"
  by (simp_all add: header_values_def header_names)

section \<open>Reads\<close>

lemma get_reaches:
  assumes "get_request token path = Inr rq" "carried H rq call" "map_of public_routes (fst (call_route call)) = Some methods" "''GET'' \<in> set methods"
  shows "public_router H (received st wt rq) sv =
      assign_request_id H (\<lambda>i. public_handlers H i (fst (call_route call)) (received st wt rq)) sv"
    "bearer (hc_axum H) (pq_headers rq) = Some token"
proof -
  note shape = get_request_shape [OF assms(1)]
  show "bearer (hc_axum H) (pq_headers rq) = Some token"
    using authorization_carried [OF assms(2) shape(5) _ shape(1)] by (simp add: header_values_def)
  have "\<not> is_json H (received st wt rq)"
    by (simp add: is_json_def shape plain_headers)
  then show "public_router H (received st wt rq) sv =
      assign_request_id H (\<lambda>i. public_handlers H i (fst (call_route call)) (received st wt rq)) sv"
    using assms(2-4) shape by (intro public_router_reaches) (auto simp: carried_def)
qed

lemma get_performed:
  assumes "get_request token path = Inr rq" "carried H rq call" "map_of public_routes (fst (call_route call)) = Some methods" "''GET'' \<in> set methods"
    "fst (call_route call) \<notin> {''/health/live'', ''/health/ready'', ''/v1/registrations'', ''/v1/me'', ''/v1/me/profile''}"
    "\<And>i prin. journal_route H i (fst (call_route call)) token prin (snd (call_route call)) (received st wt rq) = op i prin"
    "\<And>i. performed H st wt token call i = served H i (authenticate (hc_env H) token PrincipalClient) (op i)"
  shows "public_router H (received st wt rq) sv = assign_request_id H (performed H st wt token call) sv"
proof -
  note reach = get_reaches [OF assms(1-4)] and shape = get_request_shape [OF assms(1)]
  have params: "ax_params (hc_axum H) (fst (call_route call)) (rq_path (received st wt rq)) = Some (snd (call_route call))"
    using assms(2) by (simp add: carried_def)
  have "public_handlers H i (fst (call_route call)) (received st wt rq) = performed H st wt token call i" for i
    using assms(5) journal_operation_reaches [OF _ params, of token i] reach(2) shape(2)
    by (simp add: public_handlers_def assms(6,7))
  then show ?thesis by (rule performed_reached [OF reach(1)])
qed

lemma query_or_Inr [simp]: "query_or (Inr q) f = f q"
  by (rule ext) (simp add: query_or_def bind_def lift_def)

lemma carriedD:
  assumes "carried H rq call"
  shows "form_roundtrips (hc_form H) (call_pairs call)"
    "\<And>k s. (k, s) \<in> set (snd (call_route call)) \<Longrightarrow> CHR ''?'' \<notin> set (path_segment (hc_form H) s)"
  using assms by (auto simp: carried_def list_all_iff)

definition read_routes :: "string list" where
  "read_routes = [''/v1/spaces'', ''/v1/principals'', ''/v1/spaces/{space}'', ''/v1/spaces/{space}/records'',
     ''/v1/spaces/{space}/search'', ''/v1/records/{record_id}'', ''/v1/records/{record_id}/thread'',
     ''/v1/records/{record_id}/delivery-status'']"

lemma read_route_methods:
  assumes "route \<in> set read_routes"
  obtains methods where "map_of public_routes route = Some methods" "''GET'' \<in> set methods"
  using assms that by (fastforce simp: read_routes_def public_routes_def GET_def)

lemma get_read_performed:
  assumes "get_request token path = Inr rq" "carried H rq call" "fst (call_route call) \<in> set read_routes"
    "rq_query (received st wt rq) = None \<and> query = [] \<or> rq_query (received st wt rq) = Some query"
    "\<And>i. performed H st wt token call i = served H i (authenticate (hc_env H) token PrincipalClient) (\<lambda>_.
       bootstrap H i 200 (\<lambda>v. v) (journal_read H token (fst (call_route call)) (path_param (snd (call_route call)) ''space'')
         (path_param (snd (call_route call)) ''record_id'') query))"
  shows "public_router H (received st wt rq) sv = assign_request_id H (performed H st wt token call) sv"
proof -
  obtain methods where methods: "map_of public_routes (fst (call_route call)) = Some methods" "''GET'' \<in> set methods"
    using read_route_methods [OF assms(3)] .
  show ?thesis
    using assms(3,4) get_request_shape(2) [OF assms(1)]
    by (intro get_performed [OF assms(1,2) methods _ _ assms(5)])
      (auto simp: journal_route_def Let_def read_routes_def)
qed

text \<open>With a query string built from pairs.\<close>

lemma with_query_performed:
  assumes "get_request token (with_query (hc_form H) path (call_pairs call)) = Inr rq" "carried H rq call"
    "fst (call_route call) \<in> set read_routes" "CHR ''?'' \<notin> set path"
    "\<And>i. performed H st wt token call i = served H i (authenticate (hc_env H) token PrincipalClient) (\<lambda>_.
       bootstrap H i 200 (\<lambda>v. v) (journal_read H token (fst (call_route call)) (path_param (snd (call_route call)) ''space'')
         (path_param (snd (call_route call)) ''record_id'') (query_string (hc_form H) (call_pairs call))))"
  shows "public_router H (received st wt rq) sv = assign_request_id H (performed H st wt token call) sv"
  using received_query(1) [OF assms(4), of rq] get_request_shape(3) [OF assms(1)]
  by (intro get_read_performed [OF assms(1-3) _ assms(5)]) (simp add: with_query_def)

lemmas request_defs = me_request_def spaces_request_def principals_request_def space_request_def get_record_request_def
  list_request_def search_request_def thread_request_def delivery_request_def inbox_request_def invalid_request_def

lemmas read_defs = read_routes_def journal_read_def Let_def path_param_def

lemma spaces_performed:
  assumes "call_request H token (CallSpaces q) = Inr rq" "carried H rq (CallSpaces q)"
  shows "public_router H (received st wt rq) sv = assign_request_id H (performed H st wt token (CallSpaces q)) sv"
proof -
  have rq: "validate_page_query q = Inr ()" "get_request token (with_query (hc_form H) ''/v1/spaces'' (call_pairs (CallSpaces q))) = Inr rq"
    using assms(1) by (auto simp: request_defs result_simps)
  show ?thesis
    using page_query_roundtrip [OF rq(1)] carriedD(1) [OF assms(2)]
    by (intro with_query_performed [OF rq(2) assms(2)]) (simp_all add: read_defs)
qed

lemma principals_performed:
  assumes "call_request H token (CallPrincipals q) = Inr rq" "carried H rq (CallPrincipals q)"
  shows "public_router H (received st wt rq) sv = assign_request_id H (performed H st wt token (CallPrincipals q)) sv"
proof -
  have rq: "validate_list_principals_query q = Inr ()"
    "get_request token (with_query (hc_form H) ''/v1/principals'' (call_pairs (CallPrincipals q))) = Inr rq"
    using assms(1) by (auto simp: request_defs result_simps)
  show ?thesis
    using list_principals_query_roundtrip [OF rq(1)] carriedD(1) [OF assms(2)]
    by (intro with_query_performed [OF rq(2) assms(2)]) (simp_all add: read_defs)
qed

lemma list_performed:
  assumes "call_request H token (CallList space q) = Inr rq" "carried H rq (CallList space q)" "call_typed (CallList space q)"
  shows "public_router H (received st wt rq) sv = assign_request_id H (performed H st wt token (CallList space q)) sv"
proof -
  have rq: "validate_list_records_query q = Inr ()"
    "get_request token (with_query (hc_form H) (''/v1/spaces/'' @ path_segment (hc_form H) space @ ''/records'')
       (call_pairs (CallList space q))) = Inr rq"
    using assms(1) by (auto simp: request_defs result_simps)
  show ?thesis
    using list_records_query_roundtrip [OF rq(1)] carriedD [OF assms(2)] assms(3)
    by (intro with_query_performed [OF rq(2) assms(2)]) (simp_all add: read_defs)
qed

lemma search_performed:
  assumes "call_request H token (CallSearch space q) = Inr rq" "carried H rq (CallSearch space q)"
  shows "public_router H (received st wt rq) sv = assign_request_id H (performed H st wt token (CallSearch space q)) sv"
proof -
  have rq: "validate_search_records_query (se_timestamp (env_search (hc_env H))) q = Inr ()"
    "get_request token (with_query (hc_form H) (''/v1/spaces/'' @ path_segment (hc_form H) space @ ''/search'')
       (call_pairs (CallSearch space q))) = Inr rq"
    using assms(1) by (auto simp: request_defs result_simps)
  show ?thesis
    using search_records_query_roundtrip [OF rq(1)] carriedD [OF assms(2)]
    by (intro with_query_performed [OF rq(2) assms(2)]) (simp_all add: read_defs)
qed

lemma record_pages_performed:
  assumes "call = CallThread i q \<or> call = CallDelivery i q" "call_request H token call = Inr rq" "carried H rq call"
  shows "public_router H (received st wt rq) sv = assign_request_id H (performed H st wt token call) sv"
proof -
  let ?suffix = "if call = CallThread i q then ''/thread'' else ''/delivery-status''"
  have rq: "validate_page_query q = Inr ()"
    "get_request token (with_query (hc_form H) (''/v1/records/'' @ path_segment (hc_form H) i @ ?suffix) (call_pairs call)) = Inr rq"
    using assms(1,2) by (auto simp: request_defs result_simps)
  show ?thesis
    using page_query_roundtrip [OF rq(1)] carriedD [OF assms(3)] assms(1)
    by (intro with_query_performed [OF rq(2) assms(3)]) (auto simp: read_defs)
qed

lemma single_reads_performed:
  assumes "call = CallSpace i \<or> call = CallGet i" "call_request H token call = Inr rq" "carried H rq call"
  shows "public_router H (received st wt rq) sv = assign_request_id H (performed H st wt token call) sv"
proof -
  let ?path = "(if call = CallSpace i then ''/v1/spaces/'' else ''/v1/records/'') @ path_segment (hc_form H) i"
  have rq: "get_request token ?path = Inr rq"
    using assms(1,2) by (auto simp: request_defs result_simps)
  have "rq_query (received st wt rq) = None"
    using carriedD(2) [OF assms(3)] assms(1) received_query(2) [OF _ get_request_shape(3) [OF rq]] by auto
  then show ?thesis
    using assms(1) by (intro get_read_performed [OF rq assms(3), where query = "[]"]) (auto simp: read_defs)
qed

lemma me_performed:
  assumes "call_request H token CallMe = Inr rq" "carried H rq CallMe"
  shows "public_router H (received st wt rq) sv = assign_request_id H (performed H st wt token CallMe) sv"
proof -
  have rq: "get_request token ''/v1/me'' = Inr rq" using assms(1) by (simp add: me_request_def)
  have reach: "public_router H (received st wt rq) sv = assign_request_id H (\<lambda>i. public_handlers H i ''/v1/me'' (received st wt rq)) sv"
    "bearer (hc_axum H) (pq_headers rq) = Some token"
    using get_reaches [OF rq assms(2), of GET] by (simp_all add: public_routes_def GET_def)
  have "public_handlers H i ''/v1/me'' (received st wt rq) = performed H st wt token CallMe i" for i
    by (simp add: public_handlers_def me_handler_def reach(2))
  then show ?thesis by (rule performed_reached [OF reach(1)])
qed

lemma inbox_performed:
  assumes "call_request H token (CallInbox q) = Inr rq" "carried H rq (CallInbox q)"
  shows "public_router H (received st wt rq) sv = assign_request_id H (performed H st wt token (CallInbox q)) sv"
proof -
  have rq: "validate_inbox_query q = Inr ()"
    "get_request token (with_query (hc_form H) ''/v1/inbox'' (call_pairs (CallInbox q))) = Inr rq"
    using assms(1) by (auto simp: request_defs result_simps)
  have query: "rq_query (received st wt rq) = Some (query_string (hc_form H) (inbox_query_pairs q))"
    using received_query(1) [of "''/v1/inbox''" rq] get_request_shape(3) [OF rq(2)] by (simp add: with_query_def)
  have "inbox_query_from_query (hc_form H) (query_string (hc_form H) (inbox_query_pairs q)) = Inr q"
    using inbox_query_roundtrip [OF rq(1)] carriedD(1) [OF assms(2)] by simp
  then show ?thesis
    using query get_request_shape(2) [OF rq(2)]
    by (intro get_performed [OF rq(2) assms(2), of GET])
      (simp_all add: public_routes_def GET_def journal_route_def inbox_long_poll_def cong: if_cong)
qed

section \<open>Writes\<close>

lemma document_accepted:
  assumes "json_roundtrips (hc_json H) d" "unique_value d = Some v" "of_json v = Some x" "to_json x = d"
    "ax_json_ok (hc_axum H) (pq_headers rq) (pq_body rq)" "pq_body rq = json_print (hc_json H) d"
  shows "strict_request H of_json to_json (received st wt rq) = Some x"
    "\<not> isl (decode_json (hc_json H) Some (\<lambda>v. v) (pq_body rq))"
proof -
  have "decode_json (hc_json H) of_json to_json (encode_json (hc_json H) to_json x) = Inr x"
    using assms(1-4) by (intro decode_json_roundtrip) (auto simp: json_roundtrips_def)
  then show "strict_request H of_json to_json (received st wt rq) = Some x"
    using assms(4-6) by (simp add: strict_request_def encode_json_def)
  show "\<not> isl (decode_json (hc_json H) Some (\<lambda>v. v) (pq_body rq))"
    using assms(1,2,6) unique_accepts(1) [of d] by (intro decode_untyped) (auto simp: json_roundtrips_def)
qed

lemma keyed_reaches:
  assumes "principal_request token (with_header ''Idempotency-Key'' key (json_body (new_request meth path body))) = Inr rq"
    "carried H rq call" "map_of public_routes (fst (call_route call)) = Some methods" "meth \<in> set methods" "valid_utf8 key"
    "\<not> isl (decode_json (hc_json H) Some (\<lambda>v. v) (pq_body rq))"
  shows "public_router H (received st wt rq) sv =
      assign_request_id H (\<lambda>i. public_handlers H i (fst (call_route call)) (received st wt rq)) sv"
    "bearer (hc_axum H) (pq_headers rq) = Some token" "idempotency_key (pq_headers rq) = Some key"
proof -
  note shape = keyed_request_shape [OF assms(1)]
  show "bearer (hc_axum H) (pq_headers rq) = Some token"
    using authorization_carried [OF assms(2) shape(5) _ shape(1)] by (simp add: plain_headers)
  show "idempotency_key (pq_headers rq) = Some key"
    using assms(5) by (simp add: idempotency_key_def shape(5) plain_headers)
  show "public_router H (received st wt rq) sv =
      assign_request_id H (\<lambda>i. public_handlers H i (fst (call_route call)) (received st wt rq)) sv"
    using assms(2-4,6) shape(2) by (intro public_router_reaches) (auto simp: carried_def)
qed

lemma profile_performed:
  assumes "call_request H token (CallUpdateProfile key input) = Inr rq" "carried H rq (CallUpdateProfile key input)"
    "call_typed (CallUpdateProfile key input)"
  shows "public_router H (received st wt rq) sv =
    assign_request_id H (performed H st wt token (CallUpdateProfile key input)) sv"
proof -
  have rq: "validate_profile_update input = Inr ()"
    "principal_request token (with_header ''Idempotency-Key'' key (json_body
       (new_request ''PATCH'' ''/v1/me/profile'' (json_print (hc_json H) (profile_update_json input))))) = Inr rq"
    using assms(1) by (auto simp: profile_request_def invalid_request_def encode_json_def result_simps)
  have "1 \<le> pu_expected_profile_revision input"
    using rq(1) by (auto simp: validate_profile_update_def result_simps split: if_splits)
  then obtain v where v: "unique_value (profile_update_json input) = Some v" "profile_update_of_json v = Some input"
    using profile_update_reads [of input] assms(3) by auto
  have "json_roundtrips (hc_json H) (profile_update_json input)" "ax_json_ok (hc_axum H) (pq_headers rq) (pq_body rq)"
    using assms(2) by (simp_all add: carried_def)
  note doc = document_accepted [where to_json = profile_update_json and of_json = profile_update_of_json, OF this(1) v refl this(2) keyed_request_shape(4) [OF rq(2)]]
  have handled: "public_handlers H i ''/v1/me/profile'' (received st wt rq) = performed H st wt token (CallUpdateProfile key input) i" for i
    using keyed_reaches(2,3) [OF rq(2) assms(2) _ _ _ doc(2), of "[''PATCH'']"] assms(3) doc(1)
    by (simp add: public_handlers_def update_profile_def public_routes_def)
  have "public_router H (received st wt rq) sv =
      assign_request_id H (\<lambda>i. public_handlers H i ''/v1/me/profile'' (received st wt rq)) sv"
    using keyed_reaches(1) [OF rq(2) assms(2) _ _ _ doc(2), of "[''PATCH'']"] assms(3) by (simp add: public_routes_def)
  then show ?thesis by (rule performed_reached) (rule handled)
qed

lemma append_performed:
  assumes "call_request H token (CallAppend space key input) = Inr rq" "carried H rq (CallAppend space key input)"
    "call_typed (CallAppend space key input)"
  shows "public_router H (received st wt rq) sv =
    assign_request_id H (performed H st wt token (CallAppend space key input)) sv"
proof -
  let ?call = "CallAppend space key input" and ?input = "input\<lparr>in_attention := sort (in_attention input)\<rparr>"
  let ?route = "''/v1/spaces/{space}/records''"
  have rq: "principal_request token (with_header ''Idempotency-Key'' key (json_body
       (new_request ''POST'' (''/v1/spaces/'' @ path_segment (hc_form H) space @ ''/records'')
         (json_print (hc_json H) (record_input_json ?input))))) = Inr rq"
    using assms(1) by (auto simp: append_request_def canonical_append_def invalid_request_def encode_json_def result_simps)
  obtain v where v: "unique_value (record_input_json ?input) = Some v" "record_input_of_json v = Some ?input"
    using record_input_reads by blast
  have "json_roundtrips (hc_json H) (record_input_json ?input)" "ax_json_ok (hc_axum H) (pq_headers rq) (pq_body rq)"
    and params: "ax_params (hc_axum H) ?route (rq_path (received st wt rq)) = Some [(''space'', space)]"
    using assms(2) by (simp_all add: carried_def)
  note doc = document_accepted [where to_json = record_input_json and of_json = record_input_of_json, OF this(1) v refl this(2) keyed_request_shape(4) [OF rq]]
  have reach: "public_router H (received st wt rq) sv = assign_request_id H (\<lambda>i. public_handlers H i ?route (received st wt rq)) sv"
    "bearer (hc_axum H) (pq_headers rq) = Some token" "idempotency_key (pq_headers rq) = Some key"
    using keyed_reaches [OF rq assms(2) _ _ _ doc(2), of "GET @ [''POST'']"] assms(3) by (simp_all add: public_routes_def)
  have "public_handlers H i ?route (received st wt rq) = performed H st wt token ?call i" for i
    using journal_operation_reaches [OF _ params, of token i] reach(2,3) keyed_request_shape(2) [OF rq] doc(1)
    by (simp add: public_handlers_def journal_route_def append_operation_def path_param_def)
  then show ?thesis by (rule performed_reached [OF reach(1)])
qed

lemma acknowledge_performed:
  assumes "call_request H token (CallAcknowledge item) = Inr rq" "carried H rq (CallAcknowledge item)"
  shows "public_router H (received st wt rq) sv = assign_request_id H (performed H st wt token (CallAcknowledge item)) sv"
proof -
  let ?route = "''/v1/inbox/{item_id}/ack''" and ?path = "''/v1/inbox/'' @ path_segment (hc_form H) item @ ''/ack''"
  have shape: "bearer_token token" "pq_method rq = ''POST''" "pq_path rq = ?path" "pq_body rq = []"
    "pq_headers rq = [(''Authorization'', ''Bearer '' @ token)]"
    using assms(1) by (auto simp: acknowledge_request_def invalid_request_def result_simps principal_request_def
        bearer_header_def with_header_def new_request_def split: if_splits)
  have bearer: "bearer (hc_axum H) (pq_headers rq) = Some token"
    using authorization_carried [OF assms(2) shape(5) _ shape(1)] by (simp add: header_values_def)
  have params: "ax_params (hc_axum H) ?route (rq_path (received st wt rq)) = Some [(''item_id'', item)]"
    using assms(2) by (simp add: carried_def)
  have query: "rq_query (received st wt rq) = None"
    using carriedD(2) [OF assms(2)] received_query(2) [OF _ shape(3)] by simp
  have handled: "public_handlers H i ?route (received st wt rq) = performed H st wt token (CallAcknowledge item) i" for i
    using journal_operation_reaches [OF _ params, of token i] bearer shape(4) query
    by (simp add: public_handlers_def journal_route_def path_param_def)
  have "\<not> is_json H (received st wt rq)"
    by (simp add: is_json_def shape(5) plain_headers)
  then have "public_router H (received st wt rq) sv =
      assign_request_id H (\<lambda>i. public_handlers H i ?route (received st wt rq)) sv"
    using assms(2) shape(2)
    by (intro public_router_reaches [where methods = "[''POST'']" and body = "pq_body rq"])
      (simp_all add: carried_def public_routes_def)
  then show ?thesis by (rule performed_reached) (rule handled)
qed


end
