(* ===== verification/Web.thy ===== *)
theory Web
  imports Http
begin

text \<open>
  The shared read-only viewer: HTML rendering (journald/src/web\_render.rs) and its router and handler
  (journald/src/web.rs). The Markdown parser of pulldown-cmark is a parameter that turns a text into
  events; nothing is assumed of it. Rendering works on bytes: the characters it replaces are ASCII, and
  no byte of a longer UTF-8 sequence is.
\<close>

section \<open>Markdown events\<close>

datatype md_tag = Paragraph | Heading | BlockQuote | CodeBlock | ListTag | Item | Emphasis | Strong
  | Link string | Image | OtherTag

datatype md_tag_end = EndParagraph | EndHeading | EndBlockQuote | EndCodeBlock | EndList | EndItem | EndEmphasis
  | EndStrong | EndLink | EndImage | EndOther

datatype md_event = Start md_tag | End md_tag_end | TextEvent string | Code string | SoftBreak | HardBreak | Rule
  | HtmlEvent string | InlineHtml string | OtherEvent

type_synonym markdown_parser = "string \<Rightarrow> md_event list"

section \<open>Rendering\<close>

definition CSP :: string where
  "CSP = ''default-src 'none'; script-src 'none'; style-src 'none'; img-src 'none'; connect-src 'none'; font-src 'none'; ''
     @ ''media-src 'none'; object-src 'none'; frame-src 'none'; frame-ancestors 'none'; base-uri 'none'; form-action 'self'' @ [CHR 0x27]"

definition escape_char :: "char \<Rightarrow> string" where
  "escape_char c =
     (if c = CHR ''&'' then ''&amp;'' else if c = CHR ''<'' then ''&lt;'' else if c = CHR ''>'' then ''&gt;''
      else if c = CHR 0x22 then ''&quot;'' else if c = CHR 0x27 then ''&#39;'' else [c])"

definition escape :: "string \<Rightarrow> string" where
  "escape s = concat (map escape_char s)"

definition safe_link :: "string \<Rightarrow> bool" where
  "safe_link s \<longleftrightarrow> ascii_lower (take 8 s) = ''https://'' \<and> length s > 8
     \<and> \<not> list_ex (\<lambda>c. is_control c \<or> is_whitespace c \<or> c = 0x5C) (utf8_chars s)"

fun start_html :: "md_tag \<Rightarrow> string \<times> bool list \<Rightarrow> string \<times> bool list" where
  "start_html Paragraph (html, links) = (html @ ''<p>'', links)"
| "start_html Heading (html, links) = (html @ ''<p><strong>'', links)"
| "start_html BlockQuote (html, links) = (html @ ''<blockquote>'', links)"
| "start_html CodeBlock (html, links) = (html @ ''<pre><code>'', links)"
| "start_html ListTag (html, links) = (html @ ''<ul>'', links)"
| "start_html Item (html, links) = (html @ ''<li>'', links)"
| "start_html Emphasis (html, links) = (html @ ''<em>'', links)"
| "start_html Strong (html, links) = (html @ ''<strong>'', links)"
| "start_html (Link dest) (html, links) =
     (if safe_link dest
      then html @ ''<a href=\"'' @ escape dest @ ''\" rel=\"nofollow noopener noreferrer\">''
      else html, safe_link dest # links)"
| "start_html Image (html, links) = (html @ ''[image omitted: '', links)"
| "start_html OtherTag (html, links) = (html, links)"

fun end_html :: "md_tag_end \<Rightarrow> string \<times> bool list \<Rightarrow> string \<times> bool list" where
  "end_html EndParagraph (html, links) = (html @ ''</p>'', links)"
| "end_html EndHeading (html, links) = (html @ ''</strong></p>'', links)"
| "end_html EndBlockQuote (html, links) = (html @ ''</blockquote>'', links)"
| "end_html EndCodeBlock (html, links) = (html @ ''</code></pre>'', links)"
| "end_html EndList (html, links) = (html @ ''</ul>'', links)"
| "end_html EndItem (html, links) = (html @ ''</li>'', links)"
| "end_html EndEmphasis (html, links) = (html @ ''</em>'', links)"
| "end_html EndStrong (html, links) = (html @ ''</strong>'', links)"
| "end_html EndLink (html, links) =
     (case links of [] \<Rightarrow> (html, []) | allowed # rest \<Rightarrow> (if allowed then html @ ''</a>'' else html, rest))"
| "end_html EndImage (html, links) = (html @ '']'', links)"
| "end_html EndOther (html, links) = (html, links)"

fun event_html :: "md_event \<Rightarrow> string \<times> bool list \<Rightarrow> string \<times> bool list" where
  "event_html (Start tag) st = start_html tag st"
| "event_html (End tag) st = end_html tag st"
| "event_html (TextEvent text) (html, links) = (html @ escape text, links)"
| "event_html (Code text) (html, links) = (html @ ''<code>'' @ escape text @ ''</code>'', links)"
| "event_html SoftBreak (html, links) = (html @ ''<br>'', links)"
| "event_html HardBreak (html, links) = (html @ ''<br>'', links)"
| "event_html Rule (html, links) = (html @ ''<hr>'', links)"
| "event_html (HtmlEvent _) st = st"
| "event_html (InlineHtml _) st = st"
| "event_html OtherEvent st = st"

definition markdown :: "markdown_parser \<Rightarrow> string \<Rightarrow> string" where
  "markdown M s = fst (fold event_html (M s) ([], []))"

definition link :: "string \<Rightarrow> string \<Rightarrow> string" where
  "link path label = ''<a href=\"'' @ escape path @ ''\">'' @ escape label @ ''</a>''"

definition record_path :: "form_codec \<Rightarrow> string \<Rightarrow> string" where
  "record_path F i = ''/web/records/'' @ path_segment F i"

definition space_path :: "form_codec \<Rightarrow> string \<Rightarrow> string" where
  "space_path F i = ''/web/spaces/'' @ path_segment F i"

record thread_ctx =
  tc_root_title :: "string option"
  tc_in_thread :: bool

definition untitled_placeholder :: string where
  "untitled_placeholder = ''<small><em>(untitled)</em></small>''"

definition is_reply :: "journal_record \<Rightarrow> bool" where
  "is_reply r \<longleftrightarrow> list_ex (\<lambda>l. rl_type l = ReplyTo) (r_relations r)"

text \<open>The subject line, and the breadcrumb that names the thread of a reply.\<close>

definition subject_line :: "journal_record \<Rightarrow> bool \<Rightarrow> string" where
  "subject_line r in_thread =
     (case (r_title r, \<not> is_reply r, in_thread) of
        (Some title, False, _) \<Rightarrow> ''<p>Subject: <span dir=\"auto\">'' @ escape title @ ''</span></p>''
      | (Some title, True, False) \<Rightarrow> ''<p>Subject: <span dir=\"auto\">'' @ escape title @ ''</span></p>''
      | (None, True, False) \<Rightarrow> ''<p>'' @ untitled_placeholder @ ''</p>''
      | _ \<Rightarrow> [])"

definition breadcrumb :: "journal_record \<Rightarrow> thread_ctx option \<Rightarrow> bool \<Rightarrow> string" where
  "breadcrumb r ctx in_thread =
     (if is_reply r \<and> \<not> in_thread then
        (case Option.bind ctx tc_root_title of
           Some root_title \<Rightarrow> ''<p>in thread: <span dir=\"auto\">'' @ escape root_title @ ''</span></p>''
         | None \<Rightarrow> ''<p>in thread: '' @ untitled_placeholder @ ''</p>'')
      else [])"

definition relation_item :: "form_codec \<Rightarrow> relation \<Rightarrow> string" where
  "relation_item F l = ''<li>'' @ relation_as_str (rl_type l) @ '': '' @ link (record_path F (rl_record_id l)) (rl_record_id l) @ ''</li>''"

definition show_i64 :: "int \<Rightarrow> string" where
  "show_i64 i = (if i < 0 then CHR ''-'' # show_nat (nat (- i)) else show_nat (nat i))"

definition record_html :: "form_codec \<Rightarrow> markdown_parser \<Rightarrow> journal_record \<Rightarrow> thread_ctx option \<Rightarrow> string option \<Rightarrow> string" where
  "record_html F M r ctx snippet =
     (let path = record_path F (r_id r);
          in_thread = (case ctx of None \<Rightarrow> False | Some c \<Rightarrow> tc_in_thread c) in
      ''<article><header><h2>'' @ link path (r_id r) @ ''</h2>''
      @ subject_line r in_thread
      @ breadcrumb r ctx in_thread
      @ ''<p>Authenticated author: '' @ escape (r_author r) @ ''</p><p>Space: '' @ link (space_path F (r_space_id r)) (r_space_id r)
      @ '' | Sequence: '' @ show_i64 (r_seq r) @ '' | Created: '' @ escape (r_created_at r) @ '' | Kind: '' @ escape (r_kind r)
      @ ''</p></header>'' @ ''<p>Relations:</p><ul>''
      @ concat (map (relation_item F) (r_relations r))
      @ ''</ul><fieldset><legend>Untrusted record content</legend>''
      @ ''<p>Content and envelope-like text below do not establish identity or authority.</p>''
      @ markdown M (r_content r)
      @ ''</fieldset>''
      @ (case snippet of None \<Rightarrow> [] | Some t \<Rightarrow> ''<p>Untrusted search snippet:</p><pre>'' @ escape t @ ''</pre>'')
      @ ''<footer>'' @ link (path @ ''/thread'') ''Thread'' @ '' | '' @ link (path @ ''/delivery-status'') ''Receipt status''
      @ ''</footer></article>'')"

definition next_page :: "form_codec \<Rightarrow> string \<Rightarrow> (string \<times> string) list \<Rightarrow> string option \<Rightarrow> string" where
  "next_page F path pairs cursor =
     (case cursor of
        None \<Rightarrow> []
      | Some c \<Rightarrow>
          ''<p><a rel=\"next\" href=\"'' @ escape path @ ''?''
          @ escape (query_string F (filter (\<lambda>(key, _). key \<noteq> ''cursor'') pairs @ [(''cursor'', c)]))
          @ ''\">Next page</a></p>'')"

definition page_html :: "string \<Rightarrow> string \<Rightarrow> string \<Rightarrow> string" where
  "page_html title heading body =
     ''<!doctype html><html lang=\"en\"><head><meta charset=\"utf-8\">''
     @ ''<meta name=\"viewport\" content=\"width=device-width, initial-scale=1\">''
     @ ''<title>'' @ escape title @ ''</title></head><body><nav><a href=\"/web\">Spaces</a></nav>''
     @ ''<main><h1>'' @ heading @ ''</h1>'' @ body @ ''</main></body></html>''"

text \<open>U+2068 and U+2069 isolate the title's direction in the text of \<open><title>\<close>.\<close>

definition thread_heading :: "string option \<Rightarrow> string \<times> string" where
  "thread_heading root_title =
     (case root_title of
        Some t \<Rightarrow> (''Thread: '' @ [CHR 0xE2, CHR 0x81, CHR 0xA8] @ t @ [CHR 0xE2, CHR 0x81, CHR 0xA9],
                   ''Thread: <span dir=\"auto\">'' @ escape t @ ''</span>'')
      | None \<Rightarrow> (''Thread (untitled)'', ''Thread: '' @ untitled_placeholder))"

section \<open>The viewer's pages\<close>

definition shared_note :: string where
  "shared_note = ''<p>Shared read-only viewer. Everyone with access sees the same permitted records.</p>''"

definition spaces_page :: "http_config \<Rightarrow> string \<Rightarrow> string \<Rightarrow> (store, string) prog" where
  "spaces_page H viewer query =
     (let F = hc_form H in
      query_or (page_query_from_query F query) (\<lambda>q.
      bind (viewer_spaces (hc_env H) viewer q) (\<lambda>sp.
      ret (page_html ''Spaces'' (escape ''Spaces'')
        (shared_note @ ''<ul>'' @ concat (map (\<lambda>s. ''<li>'' @ link (space_path F (s_id s)) (s_name s) @ ''</li>'') (items sp))
         @ ''</ul>'' @ next_page F ''/web'' (page_query_pairs q) (next_cursor sp))))))"

text \<open>The breadcrumb context of a record, when its thread was resolved.\<close>

definition root_ctx :: "(string \<times> string \<times> string option) list \<Rightarrow> string \<Rightarrow> thread_ctx option" where
  "root_ctx roots i = map_option (\<lambda>(_, title). \<lparr>tc_root_title = title, tc_in_thread = False\<rparr>) (map_of roots i)"

definition search_form :: "string \<Rightarrow> string" where
  "search_form search = ''<form action=\"'' @ escape search @ ''\" method=\"get\"><label>Search <input name=\"q\" required maxlength=\"512\"></label>''
     @ ''<button type=\"submit\">Search</button></form>''"

definition search_results_page :: "http_config \<Rightarrow> markdown_parser \<Rightarrow> string \<Rightarrow> string \<Rightarrow> string \<Rightarrow> (store, string) prog" where
  "search_results_page H M viewer space query =
     (let F = hc_form H; E = hc_env H; search = space_path F space @ ''/search'' in
      query_or (search_records_from_query F (se_timestamp (env_search E)) query) (\<lambda>q.
      bind (search_records_as E (ConfiguredViewer viewer) space q) (\<lambda>results.
      bind (get_thread_roots_as E (ConfiguredViewer viewer) (map (\<lambda>r. r_id (sr_record r)) (sg_items results))) (\<lambda>roots.
      ret (page_html ''Search'' (escape ''Search'')
        (shared_note @ search_form search
         @ concat (map (\<lambda>r. record_html F M (sr_record r) (root_ctx roots (r_id (sr_record r))) (sr_snippet r)) (sg_items results))
         @ next_page F search (search_records_pairs q) (sg_next_cursor results)))))))"

definition timeline_page :: "http_config \<Rightarrow> markdown_parser \<Rightarrow> string \<Rightarrow> string \<Rightarrow> string \<Rightarrow> (store, string) prog" where
  "timeline_page H M viewer space query =
     (let F = hc_form H; E = hc_env H; base = space_path F space in
      query_or (list_records_from_query F query) (\<lambda>q.
      bind (viewer_records E viewer space q) (\<lambda>rs.
      bind (get_thread_roots_as E (ConfiguredViewer viewer) (map r_id (items rs))) (\<lambda>roots.
      ret (page_html ''Timeline'' (escape ''Timeline'')
        (shared_note @ search_form (base @ ''/search'')
         @ concat (map (\<lambda>r. record_html F M r (root_ctx roots (r_id r)) None) (items rs))
         @ next_page F base (list_records_pairs q) (next_cursor rs)))))))"

definition thread_page :: "http_config \<Rightarrow> markdown_parser \<Rightarrow> string \<Rightarrow> string \<Rightarrow> page_query \<Rightarrow> (store, string) prog" where
  "thread_page H M viewer i q =
     (let F = hc_form H; E = hc_env H; base = record_path F i in
      bind (viewer_thread_root E viewer i) (\<lambda>(root, resolved).
      let header_title = (if resolved then r_title root else None) in
      case thread_heading header_title of (title, heading) \<Rightarrow>
      bind (viewer_thread E viewer i q) (\<lambda>rs.
      ret (page_html title heading
        (shared_note
         @ concat (map (\<lambda>r. record_html F M r (Some \<lparr>tc_root_title = header_title, tc_in_thread = True\<rparr>) None) (items rs))
         @ next_page F (base @ ''/thread'') (page_query_pairs q) (next_cursor rs))))))"

definition receipt_row_html :: "receipt_summary \<Rightarrow> string" where
  "receipt_row_html r = ''<tr><td>'' @ escape (rs_recipient r) @ ''</td><td>'' @ escape (state_wire (rs_state r)) @ ''</td><td>''
     @ escape (rs_created_at r) @ ''</td><td>''
     @ escape (case rs_acknowledged_at r of Some t \<Rightarrow> t | None \<Rightarrow> ''Not acknowledged'') @ ''</td></tr>''"

definition delivery_status_page :: "http_config \<Rightarrow> string \<Rightarrow> string \<Rightarrow> page_query \<Rightarrow> (store, string) prog" where
  "delivery_status_page H viewer i q =
     (let F = hc_form H; base = record_path F i in
      bind (viewer_delivery (hc_env H) viewer i q) (\<lambda>delivery.
      ret (page_html ''Receipt status'' (escape ''Receipt status'')
        (shared_note
         @ ''<p>Acknowledgment ends inbox reminders, not proof of runtime delivery, reading or completion.</p>''
         @ ''<table><thead><tr><th>Recipient</th><th>State</th><th>Created</th><th>Acknowledged</th></tr></thead><tbody>''
         @ concat (map receipt_row_html (items delivery))
         @ ''</tbody></table>''
         @ next_page F (base @ ''/delivery-status'') (page_query_pairs q) (next_cursor delivery)))))"

definition record_page :: "http_config \<Rightarrow> markdown_parser \<Rightarrow> string \<Rightarrow> string \<Rightarrow> page_query \<Rightarrow> (store, string) prog" where
  "record_page H M viewer i q =
     (let F = hc_form H; E = hc_env H in
      bind (guard (q_cursor q = None \<and> q_limit q = None) InvalidJournal) (\<lambda>_.
      bind (viewer_record E viewer i) (\<lambda>r.
      bind (get_thread_roots_as E (ConfiguredViewer viewer) [r_id r]) (\<lambda>roots.
      ret (page_html ''Record'' (escape ''Record'')
        (shared_note @ record_html F M r (root_ctx roots (r_id r)) None))))))"

definition view_page :: "http_config \<Rightarrow> markdown_parser \<Rightarrow> string \<Rightarrow> string \<Rightarrow> (string \<times> string) list \<Rightarrow> string \<Rightarrow> (store, string) prog" where
  "view_page H M viewer route path query =
     (if route = ''/web'' then spaces_page H viewer query
      else if route = ''/web/spaces/{space}'' \<or> route = ''/web/spaces/{space}/search'' then
        (case map_of path ''space'' of
           None \<Rightarrow> throw InvalidJournal
         | Some space \<Rightarrow>
             if route = ''/web/spaces/{space}/search'' then search_results_page H M viewer space query
             else timeline_page H M viewer space query)
      else if route = ''/web/records/{record_id}'' \<or> route = ''/web/records/{record_id}/thread''
          \<or> route = ''/web/records/{record_id}/delivery-status'' then
        (case map_of path ''record_id'' of
           None \<Rightarrow> throw InvalidJournal
         | Some i \<Rightarrow>
             query_or (page_query_from_query (hc_form H) query) (\<lambda>q.
             if route = ''/web/records/{record_id}/thread'' then thread_page H M viewer i q
             else if route = ''/web/records/{record_id}/delivery-status'' then delivery_status_page H viewer i q
             else record_page H M viewer i q))
      else throw NotFound)"

definition html_response :: "string \<Rightarrow> http_response" where
  "html_response html = \<lparr>rp_status = 200, rp_headers = [(''content-type'', ''text/html; charset=utf-8'')], rp_body = html\<rparr>"

definition view :: "http_config \<Rightarrow> markdown_parser \<Rightarrow> string \<Rightarrow> string \<Rightarrow> string \<Rightarrow> http_request \<Rightarrow> http_response handler" where
  "view H M viewer request_id route rq =
     (case ax_params (hc_axum H) route (rq_path rq) of
        None \<Rightarrow> answer (bad_request H request_id)
      | Some path \<Rightarrow>
          followed_by (bootstrap_result H request_id
            (view_page H M viewer route path (case rq_query rq of Some q \<Rightarrow> q | None \<Rightarrow> []))) (\<lambda>html.
          continue (html_response html)))"

section \<open>The router\<close>

definition web_routes :: "(string \<times> string list) list" where
  "web_routes = map (\<lambda>r. (r, GET)) [''/web'', ''/web/spaces/{space}'', ''/web/spaces/{space}/search'',
     ''/web/records/{record_id}'', ''/web/records/{record_id}/thread'', ''/web/records/{record_id}/delivery-status'']"

definition SECURITY_HEADERS :: "(string \<times> string) list" where
  "SECURITY_HEADERS = [(''content-security-policy'', CSP), (''cache-control'', ''no-store''), (''referrer-policy'', ''no-referrer''),
     (''x-content-type-options'', ''nosniff''), (''x-frame-options'', ''DENY''),
     (''permissions-policy'', ''camera=(), microphone=(), geolocation=()'')]"

text \<open>\<open>HeaderMap::insert\<close> replaces what is there.\<close>

definition insert_header :: "string \<times> string \<Rightarrow> (string \<times> string) list \<Rightarrow> (string \<times> string) list" where
  "insert_header h hs = filter (\<lambda>(k, _). ascii_lower k \<noteq> fst h) hs @ [h]"

definition security_headers :: "http_response \<Rightarrow> http_response" where
  "security_headers r = r\<lparr>rp_headers := fold insert_header SECURITY_HEADERS (rp_headers r)\<rparr>"

definition web_router :: "http_config \<Rightarrow> markdown_parser \<Rightarrow> string \<Rightarrow> http_request \<Rightarrow> server \<Rightarrow> http_response \<times> server" where
  "web_router H M viewer rq sv =
     (case routed H web_routes (view H M viewer) rq sv of (r, sv') \<Rightarrow> (security_headers r, sv'))"

section \<open>What a page may contain\<close>

text \<open>A page is inert when everything between angle brackets is one of the tags below: structure and
  text formatting without attributes that load or run anything, links and the search form within the
  viewer, and links to other hosts over HTTPS that pass on neither referrer nor opener. Attribute
  values contain no quotes and no angle brackets, so a value ends where its tag says it ends.\<close>

definition fixed_tags :: "string list" where
  "fixed_tags = [''!doctype html'', ''html lang=\"en\"'', ''/html'', ''head'', ''/head'', ''meta charset=\"utf-8\"'',
     ''meta name=\"viewport\" content=\"width=device-width, initial-scale=1\"'', ''title'', ''/title'', ''body'', ''/body'',
     ''nav'', ''/nav'', ''a href=\"/web\"'', ''main'', ''/main'', ''h1'', ''/h1'', ''h2'', ''/h2'', ''p'', ''/p'', ''small'', ''/small'', ''em'', ''/em'',
     ''strong'', ''/strong'', ''blockquote'', ''/blockquote'', ''pre'', ''/pre'', ''code'', ''/code'', ''ul'', ''/ul'', ''li'', ''/li'',
     ''br'', ''hr'', ''span dir=\"auto\"'', ''/span'', ''article'', ''/article'', ''header'', ''/header'', ''fieldset'', ''/fieldset'',
     ''legend'', ''/legend'', ''footer'', ''/footer'', ''/a'', ''/form'', ''label'', ''/label'', ''button type=\"submit\"'', ''/button'',
     ''input name=\"q\" required maxlength=\"512\"'', ''table'', ''/table'', ''thead'', ''/thead'', ''tbody'', ''/tbody'',
     ''tr'', ''/tr'', ''th'', ''/th'', ''td'', ''/td'']"

definition attribute_ok :: "string \<Rightarrow> bool" where
  "attribute_ok u \<longleftrightarrow> list_all (\<lambda>c. c \<notin> {CHR ''<'', CHR ''>'', CHR 0x22, CHR 0x27}) u"

definition local_target :: "string \<Rightarrow> bool" where
  "local_target u \<longleftrightarrow> attribute_ok u \<and> take 4 u = ''/web''"

definition external_target :: "string \<Rightarrow> bool" where
  "external_target u \<longleftrightarrow> attribute_ok u \<and> ascii_lower (take 8 u) = ''https://''"

definition harmless :: "string \<Rightarrow> bool" where
  "harmless t \<longleftrightarrow> t \<in> set fixed_tags
     \<or> (\<exists>u. local_target u \<and> t \<in> {''a href=\"'' @ u @ ''\"'', ''a rel=\"next\" href=\"'' @ u @ ''\"'',
           ''form action=\"'' @ u @ ''\" method=\"get\"''})
     \<or> (\<exists>u. external_target u \<and> t = ''a href=\"'' @ u @ ''\" rel=\"nofollow noopener noreferrer\"'')"

inductive inert :: "string \<Rightarrow> bool" where
  inert_Nil: "inert []"
| inert_text: "c \<noteq> CHR ''<'' \<Longrightarrow> c \<noteq> CHR ''>'' \<Longrightarrow> inert s \<Longrightarrow> inert (c # s)"
| inert_tag: "harmless t \<Longrightarrow> inert s \<Longrightarrow> inert (CHR ''<'' # t @ CHR ''>'' # s)"

lemma inert_append: "inert s \<Longrightarrow> inert t \<Longrightarrow> inert (s @ t)"
  by (induction s rule: inert.induct) (auto intro: inert.intros)

lemma inert_concat: "(\<And>x. x \<in> set xs \<Longrightarrow> inert x) \<Longrightarrow> inert (concat xs)"
  by (induction xs) (auto intro: inert_Nil inert_append)

text \<open>A literal of the program is checked by a scan for its tags.\<close>

fun literal_ok :: "string option \<Rightarrow> string \<Rightarrow> bool" where
  "literal_ok None [] = True"
| "literal_ok None (c # s) = (if c = CHR ''<'' then literal_ok (Some []) s else c \<noteq> CHR ''>'' \<and> literal_ok None s)"
| "literal_ok (Some t) [] = False"
| "literal_ok (Some t) (c # s) =
     (if c = CHR ''>'' then t \<in> set fixed_tags \<and> literal_ok None s else literal_ok (Some (t @ [c])) s)"

lemma literal_inert: "literal_ok open_tag s \<Longrightarrow> inert (case open_tag of None \<Rightarrow> s | Some t \<Rightarrow> CHR ''<'' # t @ s)"
proof (induction open_tag s rule: literal_ok.induct)
  case (4 t c s)
  then show ?case
    using inert_tag [of t s] by (auto simp: harmless_def split: if_splits)
qed (auto intro: inert.intros split: if_splits)

lemma inert_literal: "literal_ok None s \<Longrightarrow> inert s"
  using literal_inert [of None s] by simp

text \<open>Escaped text is text, and a valid attribute value.\<close>

lemma escape_append [simp]: "escape (s @ t) = escape s @ escape t"
  by (simp add: escape_def)

lemma escape_char_ok: "attribute_ok (escape_char c)"
  by (simp add: escape_char_def attribute_ok_def)

lemma escape_ok: "attribute_ok (escape s)"
  by (induction s) (use escape_char_ok in \<open>auto simp: escape_def attribute_ok_def\<close>)

lemma inert_plain: "attribute_ok s \<Longrightarrow> inert s"
  by (induction s) (auto simp: attribute_ok_def intro: inert_Nil inert_text)

lemma inert_escape: "inert (escape s)"
  by (intro inert_plain escape_ok)

lemma escape_plain: "(\<And>c. c \<in> set s \<Longrightarrow> c \<notin> set [CHR ''&'', CHR ''<'', CHR ''>'', CHR 0x22, CHR 0x27]) \<Longrightarrow> escape s = s"
  by (induction s) (auto simp: escape_def escape_char_def)

lemma external_escape:
  assumes "safe_link u"
  shows "external_target (escape u)"
proof -
  have lower: "ascii_lower (take 8 u) = ''https://''" using assms by (simp add: safe_link_def)
  have len: "length (take 8 u) = 8" using arg_cong [OF lower, of length] by (simp add: ascii_lower_def)
  have "escape (take 8 u) = take 8 u"
  proof (rule escape_plain)
    fix c assume "c \<in> set (take 8 u)"
    then have "ascii_lower [c] \<in> (\<lambda>c. [c]) ` set (ascii_lower (take 8 u))" by (auto simp: ascii_lower_def)
    then show "c \<notin> set [CHR ''&'', CHR ''<'', CHR ''>'', CHR 0x22, CHR 0x27]"
      unfolding lower by (auto simp: ascii_lower_def)
  qed
  then have "escape u = take 8 u @ escape (drop 8 u)"
    using escape_append [of "take 8 u" "drop 8 u"] by simp
  then have "take 8 (escape u) = take 8 u" using len by simp
  then show ?thesis using lower escape_ok by (simp add: external_target_def)
qed

lemma inert_tags:
  assumes "local_target u"
  shows "inert (''<a href=\"'' @ u @ ''\">'')" "inert (''<a rel=\"next\" href=\"'' @ u @ ''\">'')"
    "inert (''<form action=\"'' @ u @ ''\" method=\"get\">'')"
proof -
  have "harmless (''a href=\"'' @ u @ ''\"'')" "harmless (''a rel=\"next\" href=\"'' @ u @ ''\"'')"
    "harmless (''form action=\"'' @ u @ ''\" method=\"get\"'')"
    using assms unfolding harmless_def by blast+
  from this [THEN inert_tag, OF inert_Nil]
  show "inert (''<a href=\"'' @ u @ ''\">'')" "inert (''<a rel=\"next\" href=\"'' @ u @ ''\">'')"
    "inert (''<form action=\"'' @ u @ ''\" method=\"get\">'')"
    by simp_all
qed

lemma inert_external:
  assumes "external_target u"
  shows "inert (''<a href=\"'' @ u @ ''\" rel=\"nofollow noopener noreferrer\">'')"
proof -
  have "harmless (''a href=\"'' @ u @ ''\" rel=\"nofollow noopener noreferrer\"'')"
    using assms unfolding harmless_def by blast
  from inert_tag [OF this inert_Nil] show ?thesis by simp
qed

section \<open>The pages are inert\<close>

lemma markdown_literals:
  "inert ''<p>''" "inert ''<p><strong>''" "inert ''<blockquote>''" "inert ''<pre><code>''" "inert ''<ul>''" "inert ''<li>''"
  "inert ''<em>''" "inert ''<strong>''" "inert ''[image omitted: ''" "inert ''</p>''" "inert ''</strong></p>''"
  "inert ''</blockquote>''" "inert ''</code></pre>''" "inert ''</ul>''" "inert ''</li>''" "inert ''</em>''" "inert ''</strong>''"
  "inert ''</a>''" "inert '']''" "inert ''<code>''" "inert ''</code>''" "inert ''<br>''" "inert ''<hr>''"
  by (rule inert_literal, code_simp)+

lemmas inert_rules = inert_append inert_concat inert_escape inert_external external_escape

lemma start_inert: "inert html \<Longrightarrow> inert (fst (start_html tag (html, links)))"
  by (cases tag) (simp_all only: start_html.simps fst_conv, auto intro!: inert_rules markdown_literals simp del: append.simps)

lemma end_inert: "inert html \<Longrightarrow> inert (fst (end_html tag (html, links)))"
  by (cases tag; cases links) (auto intro!: inert_append markdown_literals)

lemma event_inert: "inert html \<Longrightarrow> inert (fst (event_html e (html, links)))"
  by (cases e) (auto intro!: inert_append inert_escape markdown_literals start_inert end_inert simp del: append.simps)

lemma markdown_inert: "inert (markdown M s)"
proof -
  have "inert (fst st) \<Longrightarrow> inert (fst (fold event_html es st))" for es st
    by (induction es arbitrary: st) (use event_inert in \<open>fastforce simp: split_paired_all\<close>)+
  then show ?thesis by (simp add: markdown_def inert_Nil)
qed

lemma local_target_path:
  "local_target (escape (record_path F i @ s))" "local_target (escape (space_path F i @ s))"
  "local_target (escape (record_path F i))" "local_target (escape (space_path F i))" "local_target (escape ''/web'')"
  by (simp_all add: local_target_def escape_ok record_path_def space_path_def del: escape_append)
    (simp_all add: escape_def escape_char_def)

lemma link_inert: "local_target (escape path) \<Longrightarrow> inert (link path label)"
  unfolding link_def
  using inert_append [OF inert_tags(1) inert_append [OF inert_escape markdown_literals(18)], of "escape path" label] by simp

lemma next_page_inert:
  assumes "local_target (escape path)"
  shows "inert (next_page F path pairs cursor)"
proof (cases cursor)
  case (Some c)
  define u where "u = escape path @ ''?'' @ escape (query_string F (filter (\<lambda>(key, _). key \<noteq> ''cursor'') pairs @ [(''cursor'', c)]))"
  have "4 \<le> length (escape path)"
    using assms arg_cong [of "take 4 (escape path)" _ length] by (fastforce simp: local_target_def)
  then have "local_target u"
    using assms escape_ok unfolding u_def by (auto simp: local_target_def attribute_ok_def take_append)
  moreover have "inert ''Next page</a></p>''" by (rule inert_literal, code_simp)
  ultimately have "inert (''<p>'' @ (''<a rel=\"next\" href=\"'' @ u @ ''\">'') @ ''Next page</a></p>'')"
    by (intro inert_append inert_tags markdown_literals)
  then show ?thesis using Some by (simp add: next_page_def u_def)
qed (simp add: next_page_def inert_Nil)

lemma search_form_inert:
  assumes "local_target (escape search)"
  shows "inert (search_form search)"
proof -
  have "inert ''<label>Search <input name=\"q\" required maxlength=\"512\"></label><button type=\"submit\">Search</button></form>''"
    by (rule inert_literal, code_simp)
  from inert_append [OF inert_tags(3) [OF assms] this] show ?thesis
    by (simp add: search_form_def)
qed

lemma page_inert:
  assumes "inert heading" "inert body"
  shows "inert (page_html title heading body)"
  unfolding page_html_def
  by (intro inert_append inert_escape assms) (rule inert_literal, code_simp)+

lemma subject_inert: "inert untitled_placeholder" "inert (subject_line r in_thread)" "inert (breadcrumb r ctx in_thread)"
proof -
  have lit: "inert untitled_placeholder" "inert ''<p>Subject: <span dir=\"auto\">''" "inert ''</span></p>''"
    "inert ''<p>in thread: <span dir=\"auto\">''" "inert ''<p>in thread: ''"
    by (rule inert_literal, code_simp)+
  note rules = lit inert_append inert_escape inert_Nil markdown_literals
  show "inert untitled_placeholder" by (rule lit)
  show "inert (subject_line r in_thread)"
    by (cases "r_title r"; cases "is_reply r"; cases in_thread)
      (simp_all only: subject_line_def option.case prod.case bool.case not_True_eq_False not_False_eq_True, (intro rules)+)
  show "inert (breadcrumb r ctx in_thread)"
    unfolding breadcrumb_def by (cases "Option.bind ctx tc_root_title") (simp_all only: option.case, (intro rules conjI impI | simp only: if_True if_False split: if_split)+)
qed

lemma show_i64_inert: "inert (show_i64 i)"
proof -
  have "attribute_ok (show_nat n)" for n
    using show_nat_digits [of n] by (auto simp: attribute_ok_def is_digit_def list_all_iff)
  then show ?thesis
    by (intro inert_plain) (auto simp: show_i64_def attribute_ok_def)
qed

lemma relation_item_inert: "inert (relation_item F l)"
proof -
  have "inert ''<li>''" "inert '': ''" "inert ''</li>''" by (rule inert_literal, code_simp)+
  moreover have "inert (relation_as_str (rl_type l))"
    by (cases "rl_type l") (simp_all only: relation_as_str.simps, (rule inert_literal, code_simp)+)
  ultimately show ?thesis
    unfolding relation_item_def by (intro inert_append link_inert local_target_path)
qed

lemma snippet_inert:
  "inert (case snippet of None \<Rightarrow> [] | Some t \<Rightarrow> ''<p>Untrusted search snippet:</p><pre>'' @ escape t @ ''</pre>'')"
proof (cases snippet)
  case (Some t)
  have "inert (''<p>Untrusted search snippet:</p><pre>'' @ escape t @ ''</pre>'')"
    by (intro inert_append inert_escape) (rule inert_literal, code_simp)+
  then show ?thesis using Some by simp
qed (simp add: inert_Nil)

lemma relations_inert: "inert (concat (map (relation_item F) ls))"
  by (rule inert_concat) (auto simp: relation_item_inert)

lemma record_inert: "inert (record_html F M r ctx snippet)"
  unfolding record_html_def Let_def
  by (intro inert_append inert_escape relations_inert snippet_inert link_inert local_target_path subject_inert show_i64_inert
      markdown_inert) (rule inert_literal, code_simp)+

text \<open>\<open>yields P m\<close>: every result of \<open>m\<close> satisfies \<open>P\<close>.\<close>

definition yields :: "('a \<Rightarrow> bool) \<Rightarrow> (store, 'a) prog \<Rightarrow> bool" where
  "yields P m \<longleftrightarrow> (\<forall>w x w'. m w = (Inr x, w') \<longrightarrow> P x)"

lemma yields_ret: "P x \<Longrightarrow> yields P (ret x)"
  and yields_throw: "yields P (throw e)"
  by (auto simp: yields_def ret_def throw_def)

lemma yields_bind: "(\<And>x. yields P (f x)) \<Longrightarrow> yields P (bind m f)"
  unfolding yields_def by (fastforce simp: bind_Inr)

lemma yields_query_or: "(\<And>q. yields P (f q)) \<Longrightarrow> yields P (query_or r f)"
  unfolding query_or_def by (rule yields_bind)

lemma yields_if: "yields P m \<Longrightarrow> yields P n \<Longrightarrow> yields P (if b then m else n)"
  by simp

lemmas yields_rules = yields_ret yields_throw yields_bind yields_query_or yields_if

lemma notes_inert: "inert shared_note"
  by (rule inert_literal, code_simp)

lemma records_inert: "inert (concat (map (\<lambda>r. record_html F M (f r) (ctx r) (snippet r)) rs))"
  by (rule inert_concat) (auto simp: record_inert)

lemmas page_rules = page_inert inert_append inert_escape notes_inert records_inert next_page_inert search_form_inert local_target_path

lemma spaces_page_inert: "yields inert (spaces_page H viewer query)"
proof -
  have "inert (concat (map (\<lambda>s. ''<li>'' @ link (space_path F (s_id s)) (s_name s) @ ''</li>'') sp))" for F sp
    by (rule inert_concat) (auto intro!: inert_append link_inert local_target_path markdown_literals simp del: append.simps)
  then show ?thesis
    unfolding spaces_page_def Let_def by (intro yields_rules page_rules markdown_literals)
qed

lemma search_results_page_inert: "yields inert (search_results_page H M viewer space query)"
  unfolding search_results_page_def Let_def by (intro yields_rules page_rules)

lemma timeline_page_inert: "yields inert (timeline_page H M viewer space query)"
  unfolding timeline_page_def Let_def by (intro yields_rules page_rules)

lemma thread_heading_inert: "inert (snd (thread_heading t))"
proof (cases t)
  case None
  have "inert (''Thread: '' @ untitled_placeholder)" by (rule inert_literal, code_simp)
  then show ?thesis using None by (simp add: thread_heading_def)
next
  case (Some x)
  have "inert (''Thread: <span dir=\"auto\">'' @ escape x @ ''</span>'')"
    by (intro inert_append inert_escape) (rule inert_literal, code_simp)+
  then show ?thesis using Some by (simp add: thread_heading_def)
qed

lemma thread_page_inert: "yields inert (thread_page H M viewer i q)"
  unfolding thread_page_def Let_def case_prod_beta
  by (intro yields_rules page_rules thread_heading_inert)

lemma delivery_status_page_inert: "yields inert (delivery_status_page H viewer i q)"
proof -
  have row: "inert (receipt_row_html r)" for r
    unfolding receipt_row_html_def by (intro inert_append inert_escape) (rule inert_literal, code_simp)+
  have rows: "inert (concat (map receipt_row_html rs))" for rs
    by (rule inert_concat) (auto simp: row)
  show ?thesis
    unfolding delivery_status_page_def Let_def
    by (intro yields_rules page_rules rows) (rule inert_literal, code_simp)+
qed

lemma record_page_inert: "yields inert (record_page H M viewer i q)"
  unfolding record_page_def Let_def by (intro yields_rules page_rules record_inert)

lemma view_page_inert: "yields inert (view_page H M viewer route path query)"
  unfolding view_page_def
  by (auto intro!: yields_rules spaces_page_inert search_results_page_inert timeline_page_inert thread_page_inert
      delivery_status_page_inert record_page_inert split: option.split)

section \<open>The viewer only reads\<close>

text \<open>All that may change is that the key of the cursors is created when there is none yet.\<close>

definition looked_at :: "db \<Rightarrow> db \<Rightarrow> bool" where
  "looked_at d d' \<longleftrightarrow>
     d' = d\<lparr>cursor_secret := cursor_secret d', anchor_revision := anchor_revision d', total_changes := total_changes d'\<rparr>
     \<and> (cursor_secret d = None \<or> cursor_secret d' = cursor_secret d)"

interpretation looking: db_step_order looked_at
proof
  fix a b c :: db assume "looked_at a b" "looked_at b c"
  then show "looked_at a c" by (cases a; cases b; cases c) (auto simp: looked_at_def)
qed (simp add: looked_at_def)

lemma looked_at_committed: "committed_as d d' \<Longrightarrow> looked_at d d'"
  by (auto simp: committed_as_def looked_at_def changed_def)

interpretation looking_service: service_order "\<lambda>s s'. looked_at (central s) (central s')" looked_at
proof
  fix fault d s n rf s'
  assume "finish_transaction fault d (s\<lparr>transactions := n\<rparr>) = (rf, s')" "looked_at (central s) d"
  then show "looked_at (central s) (central s')"
    using schema_inv.finish_committed [of fault d "s\<lparr>transactions := n\<rparr>" rf s'] looking.refl looking.trans
      looked_at_committed [of d "central s'"] by auto
qed (auto intro: looking.refl looking.trans)

lemma cursor_codec_looks: "keeps looked_at (bind (read_actor E identity) (\<lambda>_. cursor_codec E))"
  "keeps looked_at (search_codec_tx E identity space)"
proof -
  have key: "keeps looked_at (execute (insert_cursor_secret bytes))" for bytes
    by (rule looking.keeps_execute)
      (auto simp: looked_at_def changed_def dest!: insert_cursor_secretD)
  show "keeps looked_at (bind (read_actor E identity) (\<lambda>_. cursor_codec E))" "keeps looked_at (search_codec_tx E identity space)"
    unfolding search_codec_tx_def cursor_codec_def
    by (intro looking.keeps_rules looking.keeps_actor key)+
qed

abbreviation looks :: "(store, 'a) prog \<Rightarrow> bool" where
  "looks \<equiv> always (\<lambda>s s'. looked_at (central s) (central s'))"

lemma reads_look:
  "looks (get_record_as E identity i)" "looks (list_spaces_as E identity q)" "looks (list_records_as E identity space lq)"
  "looks (get_thread_as E identity i q)" "looks (get_thread_root_as E identity i)" "looks (get_thread_roots_as E identity ids)"
  "looks (search_records_as E identity space sq)" "looks (delivery_status_as E identity i q)"
  by (auto simp: get_record_as_def list_spaces_as_def list_records_as_def get_thread_as_def get_thread_root_as_def
      get_thread_roots_as_def search_records_as_def delivery_status_as_def cursor_codec_looks
      intro!: looking_service.always_rules looking_service.always_read looking_service.always_read_paged
        looking_service.always_transaction)

lemma view_page_looks: "looks (view_page H M viewer route path query)"
  by (auto simp: view_page_def spaces_page_def search_results_page_def timeline_page_def thread_page_def
      delivery_status_page_def record_page_def query_or_def viewer_record_def viewer_spaces_def viewer_records_def viewer_thread_def
      viewer_thread_root_def viewer_delivery_def Let_def case_prod_beta
      intro!: looking_service.always_rules reads_look split: option.split)

section \<open>Every response of the viewer\<close>

text \<open>An answer of the viewer: an error as JSON, or an inert page.\<close>

definition presentable :: "http_response \<Rightarrow> bool" where
  "presentable r \<longleftrightarrow> header_values ''content-type'' (rp_headers r) = [''application/json'']
     \<or> header_values ''content-type'' (rp_headers r) = [''text/html; charset=utf-8''] \<and> inert (rp_body r)"

definition presents :: "http_response handler \<Rightarrow> bool" where
  "presents m \<longleftrightarrow> (\<forall>sv. presentable (response_of (fst (m sv)))
     \<and> looked_at (central (sv_store sv)) (central (sv_store (snd (m sv)))))"

lemma error_presentable: "presentable (error_response H n c m i)"
  by (simp add: presentable_def error_response_def header_values_def ascii_lower_def)

lemma presents_answer: "presentable r \<Longrightarrow> presents (answer r)" "presentable r \<Longrightarrow> presents (continue r)"
  by (simp_all add: presents_def answer_def continue_def response_of_def looking.refl)

lemma blocking_looks:
  assumes "looks op"
  shows "looked_at (central (sv_store sv)) (central (sv_store (snd (bootstrap_result H i op sv))))"
proof -
  obtain r s z where run: "op (sv_store sv, sv_sources sv) = (r, s, z)" by (cases "op (sv_store sv, sv_sources sv)")
  then have "looked_at (central (sv_store sv)) (central s)"
    using assms unfolding always_def by (metis fst_conv snd_conv)
  then show ?thesis
    by (auto simp: bootstrap_result_def blocking_def Let_def run looking.refl split: sum.splits prod.splits berror.splits)
qed

lemma bootstrap_result_yields:
  assumes "yields P op" "bootstrap_result H i op sv = (r, sv')"
  shows "case r of Inl a \<Rightarrow> presentable a | Inr x \<Rightarrow> P x"
proof -
  obtain v s z where run: "op (sv_store sv, sv_sources sv) = (v, s, z)" by (cases "op (sv_store sv, sv_sources sv)")
  have "P x" if "v = Inr x" for x
    using assms(1) run that unfolding yields_def by metis
  then show ?thesis
    using assms(2) run
    by (auto simp: bootstrap_result_def blocking_def Let_def error_presentable
        split: sum.splits prod.splits if_splits berror.splits)
qed

lemma view_presents: "presents (view H M viewer i route rq)"
proof (cases "ax_params (hc_axum H) route (rq_path rq)")
  case None
  then show ?thesis by (simp add: view_def bad_request_def error_presentable presents_answer)
next
  case (Some path)
  define op where "op = view_page H M viewer route path (case rq_query rq of Some q \<Rightarrow> q | None \<Rightarrow> [])"
  show ?thesis
    unfolding presents_def
  proof
    fix sv
    obtain r sv' where run: "bootstrap_result H i op sv = (r, sv')" by (cases "bootstrap_result H i op sv")
    have "looked_at (central (sv_store sv)) (central (sv_store sv'))"
      using blocking_looks [of op sv H i] view_page_looks run by (simp add: op_def)
    moreover have "case r of Inl a \<Rightarrow> presentable a | Inr x \<Rightarrow> inert x"
      using bootstrap_result_yields [OF _ run] view_page_inert op_def by metis
    ultimately show "presentable (response_of (fst (view H M viewer i route rq sv)))
        \<and> looked_at (central (sv_store sv)) (central (sv_store (snd (view H M viewer i route rq sv))))"
      using run Some
      by (auto simp: view_def followed_by_def continue_def response_of_def html_response_def presentable_def header_values_def
          ascii_lower_def op_def split: sum.splits)
  qed
qed

lemma validate_presents: "presents next \<Longrightarrow> presents (validate_request_body H i route rq next)"
  by (auto simp: validate_request_body_def error_presentable intro!: presents_answer split: body_event.splits)

lemma routed_presents:
  assumes "\<And>i route. presents (handlers i route rq)" "routed H routes handlers rq sv = (r, sv')"
  shows "presentable r \<and> looked_at (central (sv_store sv)) (central (sv_store sv'))"
proof -
  obtain i sv1 where i: "new_request_id H sv = (i, sv1)" by (cases "new_request_id H sv")
  then have st: "sv_store sv1 = sv_store sv" by (auto simp: new_request_id_def Let_def)
  define m where "m = (\<lambda>i. let route = ax_match (hc_axum H) (map fst routes) (rq_path rq) in
       validate_request_body H i route rq
         (case route of
            None \<Rightarrow> continue (unimplemented_route H i)
          | Some template \<Rightarrow>
              (case map_of routes template of
                 None \<Rightarrow> continue (unimplemented_route H i)
               | Some methods \<Rightarrow>
                   if rq_method rq \<in> set methods then handlers i template rq
                   else continue (method_not_allowed H i))))"
  have "presents (m i)"
    using assms(1) by (auto simp: m_def Let_def unimplemented_route_def method_not_allowed_def error_presentable
        intro!: validate_presents presents_answer split: option.splits)
  then have "presentable (response_of (fst (m i sv1)))" "looked_at (central (sv_store sv)) (central (sv_store (snd (m i sv1))))"
    by (simp_all add: presents_def st [symmetric])
  moreover have "(r, sv') = assign_request_id H m sv"
    using assms(2) by (simp add: routed_def m_def)
  ultimately show ?thesis
    using i by (auto simp: assign_request_id_def Let_def response_of_def presentable_def header_values_def ascii_lower_def
        split: prod.splits sum.splits)
qed

lemma header_inserted:
  "ascii_lower n = n \<Longrightarrow> header_values k (insert_header (n, v) hs) = (if k = n then [v] else header_values k hs)"
  by (auto simp: header_values_def insert_header_def filter_empty_conv intro!: arg_cong [where f = "map snd"] filter_cong)

lemma security_inserted:
  "header_values k (rp_headers (security_headers r)) =
     (case map_of SECURITY_HEADERS k of Some v \<Rightarrow> [v] | None \<Rightarrow> header_values k (rp_headers r))"
proof -
  have "ascii_lower n = n" if "n \<in> fst ` set SECURITY_HEADERS" for n
    using that by (auto simp: SECURITY_HEADERS_def ascii_lower_def)
  then show ?thesis
    by (simp add: security_headers_def SECURITY_HEADERS_def header_inserted)
qed

text \<open>C32. The shared viewer shows and does nothing else. Every response of the viewer carries
  the security headers, each exactly once. It is either an error in JSON or a page in which everything
  between angle brackets is one of the viewer's own tags, whatever records, titles, names, snippets,
  query parameters and Markdown events it was made from: no script, style, image or handler, and no link
  that leaves the viewer other than by HTTPS and without a referrer. And the request changed nothing in the
  database, except that the key of the page cursors is created when there was none.\<close>

theorem web_viewer_is_inert:
  assumes "web_router H M viewer rq sv = (r, sv')"
  shows "list_all (\<lambda>(k, v). header_values k (rp_headers r) = [v]) SECURITY_HEADERS \<and> presentable r
    \<and> looked_at (central (sv_store sv)) (central (sv_store sv'))"
proof -
  obtain r1 where r1: "routed H web_routes (view H M viewer) rq sv = (r1, sv')" "r = security_headers r1"
    using assms by (auto simp: web_router_def split: prod.splits)
  have "list_all (\<lambda>(k, v). header_values k (rp_headers r) = [v]) SECURITY_HEADERS"
    by (simp add: r1(2) security_inserted) (simp add: SECURITY_HEADERS_def)
  moreover have "presentable r"
    using routed_presents [OF view_presents r1(1)]
    by (simp add: presentable_def r1(2) security_inserted) (simp add: SECURITY_HEADERS_def security_headers_def)
  ultimately show ?thesis
    using routed_presents [OF view_presents r1(1)] by simp
qed

end
