(* ===== verification/Sample_Http.thy ===== *)
theory Sample_Http
  imports Sample_Journal Client Web
begin

text \<open>
  A daemon over the sample journal: a router that matches templates segment by segment, a JSON
  extractor that takes any body, and header values of visible characters. The properties of the
  HTTP interface are applied to requests against it.
\<close>

definition segment_matches :: "string \<Rightarrow> string \<Rightarrow> bool" where
  "segment_matches t s \<longleftrightarrow> (if starts_with t ''{'' then s \<noteq> [] else t = s)"

definition template_matches :: "string \<Rightarrow> string \<Rightarrow> bool" where
  "template_matches t p \<longleftrightarrow> length (split_all CHR ''/'' t) = length (split_all CHR ''/'' p)
     \<and> list_all2 segment_matches (split_all CHR ''/'' t) (split_all CHR ''/'' p)"

definition sample_axum :: axum where
  "sample_axum = \<lparr>ax_match = (\<lambda>ts p. find (\<lambda>t. template_matches t p) ts),
     ax_params = (\<lambda>t p. Some (map (\<lambda>(x, s). (butlast (tl x), s))
       (filter (\<lambda>(x, s). starts_with x ''{'') (zip (split_all CHR ''/'' t) (split_all CHR ''/'' p))))),
     ax_json_ok = (\<lambda>_ _. True), ax_to_str = (\<lambda>v. if visible v then Some v else None)\<rparr>"

definition sample_metrics :: operational_metrics where
  "sample_metrics = \<lparr>om_sampled_at = ''t1'', om_database_bytes = 4096, om_wal_bytes = 0, om_unacknowledged_inbox_count = 1,
     om_oldest_unacknowledged_at = Some ''t0'', om_last_backup_at = None, om_last_verified_restore_at = None\<rparr>"

definition sample_http :: http_config where
  "sample_http = \<lparr>hc_axum = sample_axum, hc_env = sample_env, hc_form = sample_form, hc_max_body_bytes = 1000,
     hc_owner = Some 501, hc_version = ''0.1'', hc_permit = (\<lambda>_. True), hc_schema_version = (\<lambda>_. Inr 13),
     hc_metrics = ret sample_metrics, hc_process_id = 7, hc_epoch_nanos = (\<lambda>n. unat n + 1000)\<rparr>"

definition sample_server :: server where
  "sample_server = \<lparr>sv_store = sample_store, sv_sources = sources0, sv_arrivals = [], sv_executions = 0, sv_next_request_id = 1\<rparr>"

definition sample_waiting :: waiting where
  "sample_waiting = \<lparr>wt_arrivals = [], wt_last = (0, \<lambda>sv. sv), wt_end = DeadlinePassed\<rparr>"

definition token_c :: string where
  "token_c = replicate 64 CHR ''c''"

text \<open>A request with a token nobody has, and an administrative request of another user.\<close>

definition stranger_request :: http_request where
  "stranger_request = \<lparr>rq_method = ''GET'', rq_path = ''/v1/inbox'', rq_query = None,
     rq_headers = [(''Authorization'', ''Bearer '' @ token_c)], rq_body = Received [], rq_peer = None,
     rq_started = 0, rq_waiting = sample_waiting\<rparr>"

definition intruder_request :: http_request where
  "intruder_request = \<lparr>rq_method = ''POST'', rq_path = ''/v1/admin/credentials/revoke'', rq_query = None,
     rq_headers = [], rq_body = Received (print_json (credential_rotate_json \<lparr>cx_credential_id = ''ca'', cx_reason = None\<rparr>)),
     rq_peer = Some 502, rq_started = 0, rq_waiting = sample_waiting\<rparr>"


theorem administration_needs_the_owner_witness:
  "rp_status (fst (admin_router sample_http intruder_request sample_server)) \<ge> 400
    \<and> central (sv_store (snd (admin_router sample_http intruder_request sample_server))) = central (sv_store sample_server)"
proof (rule administration_needs_the_owner)
  show "admin_router sample_http intruder_request sample_server
      = (fst (admin_router sample_http intruder_request sample_server), snd (admin_router sample_http intruder_request sample_server))"
    by simp
  show "hc_owner sample_http = None \<or> rq_peer intruder_request \<noteq> hc_owner sample_http" by code_simp
  show "admin_route sample_http intruder_request \<notin> Some ` set health_routes" by code_simp
qed

definition sample_call :: client_call where
  "sample_call = CallAppend ''s'' ''k'' sample_note"

definition sample_request :: proto_request where
  "sample_request = bearer_header token_a (with_header ''Idempotency-Key'' ''k'' (json_body
     (new_request ''POST'' ''/v1/spaces/s/records'' (print_json (record_input_json sample_note)))))"


text \<open>The viewer asks for a record; the Markdown parser makes one paragraph of every text.\<close>

definition sample_markdown :: markdown_parser where
  "sample_markdown s = [Start Paragraph, TextEvent s, Start (Link ''javascript:x''), End EndLink, End EndParagraph]"

definition web_request :: http_request where
  "web_request = \<lparr>rq_method = ''GET'', rq_path = ''/web/records/r1'', rq_query = None, rq_headers = [], rq_body = Received [],
     rq_peer = None, rq_started = 0, rq_waiting = sample_waiting\<rparr>"

theorem web_viewer_is_inert_witness:
  "rp_status (fst (web_router sample_http sample_markdown ''pb'' web_request sample_server)) = 200
    \<and> list_all (\<lambda>(k, v). header_values k (rp_headers (fst (web_router sample_http sample_markdown ''pb'' web_request sample_server))) = [v])
        SECURITY_HEADERS
    \<and> presentable (fst (web_router sample_http sample_markdown ''pb'' web_request sample_server))
    \<and> looked_at (central (sv_store sample_server))
        (central (sv_store (snd (web_router sample_http sample_markdown ''pb'' web_request sample_server))))"
proof -
  have "rp_status (fst (web_router sample_http sample_markdown ''pb'' web_request sample_server)) = 200"
    by code_simp
  then show ?thesis
    using web_viewer_is_inert [OF prod.collapse [symmetric], of sample_http sample_markdown "''pb''" web_request sample_server] by simp
qed

end
