(* ===== verification/Worker_Cli.thy ===== *)
theory Worker_Cli
  imports Worker
begin

text \<open>
  The worker's command line (\<open>journal-inbox-worker/src/cli.rs\<close>): option parsing, the validated
  configuration, the query it polls with, and the loop that ticks the worker until it is told to
  stop. An argument is a byte string that may not be UTF-8, as \<open>OsString\<close> is.
\<close>

datatype config_error = HelpRequested | ConfigInvalid string

definition value_flags :: "string list" where
  "value_flags = [''--central-endpoint'', ''--credential-file'', ''--routes-file'', ''--poll-seconds'', ''--wait-seconds'']"

definition canonical_flag :: "string \<Rightarrow> string" where
  "canonical_flag flag = (if flag = ''--routes-json'' then ''--routes-file'' else flag)"

definition add_option :: "string \<Rightarrow> string \<Rightarrow> (string, string) btree_map \<Rightarrow> config_error + (string, string) btree_map" where
  "add_option flag v seen =
     (if bt_get seen flag \<noteq> None then Inl (ConfigInvalid ''duplicate option'') else Inr (bt_insert flag v seen))"

fun options_loop :: "string list \<Rightarrow> string list \<Rightarrow> (string, string) btree_map
    \<Rightarrow> config_error + (string, string) btree_map" where
  "options_loop runtime_flags [] seen = Inr seen"
| "options_loop runtime_flags (raw # args) seen =
     (if \<not> valid_utf8 raw then Inl (ConfigInvalid ''arguments must be UTF-8'')
      else if raw = ''--help'' \<or> raw = ''-h'' then Inl HelpRequested
      else let flag = canonical_flag raw in
        if flag = ''--once'' then and_then (add_option flag [] seen) (options_loop runtime_flags args)
        else if flag \<in> set value_flags \<or> flag \<in> set runtime_flags then
          (case args of
             v # rest \<Rightarrow>
               if valid_utf8 v then and_then (add_option flag v seen) (options_loop runtime_flags rest)
               else Inl (ConfigInvalid ''missing or invalid option value'')
           | [] \<Rightarrow> Inl (ConfigInvalid ''missing or invalid option value''))
        else Inl (ConfigInvalid ''unknown option; legacy delivery/spool options are not supported''))"

definition options :: "string list \<Rightarrow> string list \<Rightarrow> config_error + (string, string) btree_map" where
  "options args runtime_flags = options_loop runtime_flags args []"

definition required :: "(string, string) btree_map \<Rightarrow> string \<Rightarrow> config_error + string" where
  "required given flag =
     (case bt_get given flag of
        Some v \<Rightarrow> if v \<noteq> [] then Inr v else Inl (ConfigInvalid flag)
      | None \<Rightarrow> Inl (ConfigInvalid flag))"

record config =
  cf_endpoint :: string
  cf_credential_file :: string
  cf_routes_file :: string
  cf_once :: bool
  cf_poll :: duration
  cf_wait_seconds :: nat

definition seconds_option :: "(string, string) btree_map \<Rightarrow> string \<Rightarrow> nat \<Rightarrow> nat \<Rightarrow> nat \<Rightarrow> string \<Rightarrow> config_error + nat" where
  "seconds_option given flag unset lowest highest message =
     and_then (case bt_get given flag of
         None \<Rightarrow> Inr unset
       | Some v \<Rightarrow> ok_or (ConfigInvalid message) (parse_u64 v)) (\<lambda>n.
     if lowest \<le> n \<and> n \<le> highest then Inr n else Inl (ConfigInvalid message))"

definition from_options :: "(string, string) btree_map \<Rightarrow> config_error + config" where
  "from_options given =
     and_then (seconds_option given ''--poll-seconds'' 1 1 3600 ''poll seconds must be 1..3600'') (\<lambda>poll.
     and_then (seconds_option given ''--wait-seconds'' 0 0 MAX_INBOX_WAIT_SECONDS ''wait seconds must be 0..30'') (\<lambda>wait.
     and_then (required given ''--central-endpoint'') (\<lambda>endpoint.
     and_then (required given ''--credential-file'') (\<lambda>credential_file.
     and_then (required given ''--routes-file'') (\<lambda>routes_file.
     Inr \<lparr>cf_endpoint = endpoint, cf_credential_file = credential_file, cf_routes_file = routes_file,
          cf_once = (bt_get given ''--once'' \<noteq> None), cf_poll = from_secs poll, cf_wait_seconds = wait\<rparr>)))))"

text \<open>\<open>PrincipalInbox::fetch\<close>: the query each poll sends.\<close>

definition poll_query :: "nat \<Rightarrow> string option \<Rightarrow> inbox_query" where
  "poll_query wait_seconds cursor = \<lparr>iq_state = Unacknowledged,
     iq_page = \<lparr>q_cursor = cursor, q_limit = Some PAGE_LIMIT\<rparr>, iq_wait_seconds = wait_seconds\<rparr>"

text \<open>The loop of \<open>Config::run\<close>. Each turn reads the clock and, unless it is the only one, waits for
  the delay or for a signal; the turns are given as the clock readings and whether a signal came.
  The answer is why it stopped, with the delays waited; \<open>None\<close> when it is still running after the
  given turns.\<close>

definition stop_message :: "worker_error \<Rightarrow> string" where
  "stop_message e = (case e of
      WorkerUnauthorized \<Rightarrow> ''principal credential rejected; repair before restarting''
    | WorkerInvalidResponse \<Rightarrow> ''unexpected journal response; stopped without acknowledgment'')"

fun run_loop :: "json_text \<Rightarrow> 'w inbox_trait \<Rightarrow> 'w runtime \<Rightarrow> static_routes \<Rightarrow> config \<Rightarrow> (duration \<times> bool) list
    \<Rightarrow> worker \<times> 'w \<Rightarrow> (string + unit) option \<times> duration list \<times> worker \<times> 'w" where
  "run_loop T J R routes c [] s = (None, [], s)"
| "run_loop T J R routes c ((now, stop) # turns) s =
     (case tick T J R routes now s of
        (Inl e, s') \<Rightarrow> (Some (Inl (stop_message e)), [], s')
      | (Inr events, s') \<Rightarrow>
          let delay = (if continue_immediately events (fst s') then 0 else cf_poll c) in
          if cf_once c then (Some (Inr ()), [], s')
          else if stop then (Some (Inr ()), [delay], s')
          else (case run_loop T J R routes c turns s' of (r, delays, s'') \<Rightarrow> (r, delay # delays, s'')))"

section \<open>What a configuration promises\<close>

lemma required_iff [result_simps]: "required given flag = Inr v \<longleftrightarrow> bt_get given flag = Some v \<and> v \<noteq> []"
  by (auto simp: required_def split: option.splits)

lemma seconds_option_bounds:
  "seconds_option given flag d lo hi m = Inr n \<Longrightarrow> lo \<le> n \<and> n \<le> hi"
  by (auto simp: seconds_option_def result_simps split: if_splits)

text \<open>Every option kept was given: a flag, possibly by its old name, followed by its value.\<close>

definition given_as :: "string list \<Rightarrow> string \<Rightarrow> string \<Rightarrow> bool" where
  "given_as args flag v \<longleftrightarrow> (\<exists>before raw after. canonical_flag raw = flag
     \<and> (args = before @ raw # v # after \<or> flag = ''--once'' \<and> v = [] \<and> args = before @ raw # after))"

lemma given_as_later: "given_as args flag v \<Longrightarrow> given_as (a # args) flag v"
  unfolding given_as_def by (metis append_Cons)

lemma options_loop_given:
  assumes "options_loop flags args seen = Inr given" "bt_get given flag = Some v"
  shows "bt_get seen flag = Some v \<or> given_as args flag v"
  using assms
proof (induction flags args seen rule: options_loop.induct)
  case (2 flags raw args seen)
  show ?case
  proof (cases "canonical_flag raw = ''--once''")
    case True
    then obtain seen' where "add_option (canonical_flag raw) [] seen = Inr seen'" "options_loop flags args seen' = Inr given"
      using "2.prems" by (auto simp: result_simps Let_def split: if_splits)
    moreover have "given_as (raw # args) ''--once'' []"
      using True unfolding given_as_def by (metis append_Nil)
    moreover have "bt_get seen' flag = Some v \<or> given_as args flag v"
      using "2.IH"(1) "2.prems" True calculation by (auto simp: Let_def split: if_splits)
    ultimately show ?thesis
      using True by (auto simp: add_option_def bt_get_insert split: if_splits dest: given_as_later)
  next
    case False
    then obtain w rest seen' where args: "args = w # rest" "valid_utf8 w"
        "add_option (canonical_flag raw) w seen = Inr seen'" "options_loop flags rest seen' = Inr given"
      using "2.prems" by (auto simp: result_simps Let_def split: if_splits list.splits)
    have "given_as (raw # args) (canonical_flag raw) w"
      using args unfolding given_as_def by (metis append_Nil)
    moreover have "bt_get seen' flag = Some v \<or> given_as rest flag v"
      using "2.IH"(2) "2.prems" False args by (auto simp: Let_def split: if_splits)
    moreover have "given_as rest flag v \<Longrightarrow> given_as (raw # args) flag v"
      using args(1) by (simp add: given_as_later)
    ultimately show ?thesis
      using args(3) by (auto simp: add_option_def bt_get_insert split: if_splits)
  qed
qed simp

text \<open>A worker that starts is configured within bounds and only from its command line: it polls
  every 1 to 3600 seconds, holds a fetch at most 30 seconds, its endpoint and files are not empty
  and were given as options, each at most once, and every query it polls with is valid.\<close>

lemma worker_configuration_is_bounded:
  assumes "options args runtime_flags = Inr given" "from_options given = Inr c"
  shows "from_secs 1 \<le> cf_poll c \<and> cf_poll c \<le> from_secs 3600
    \<and> given_as args ''--central-endpoint'' (cf_endpoint c) \<and> cf_endpoint c \<noteq> []
    \<and> given_as args ''--credential-file'' (cf_credential_file c) \<and> cf_credential_file c \<noteq> []
    \<and> given_as args ''--routes-file'' (cf_routes_file c) \<and> cf_routes_file c \<noteq> []
    \<and> (\<forall>cursor. validate_inbox_query (poll_query (cf_wait_seconds c) cursor) = Inr ()
        \<longleftrightarrow> pred_option (\<lambda>t. chars_count t \<le> MAX_CURSOR_CHARS) cursor)"
proof -
  obtain poll wait where n: "seconds_option given ''--poll-seconds'' 1 1 3600 ''poll seconds must be 1..3600'' = Inr poll"
      "seconds_option given ''--wait-seconds'' 0 0 MAX_INBOX_WAIT_SECONDS ''wait seconds must be 0..30'' = Inr wait"
      "cf_poll c = from_secs poll" "cf_wait_seconds c = wait"
    and r: "bt_get given ''--central-endpoint'' = Some (cf_endpoint c)" "cf_endpoint c \<noteq> []"
      "bt_get given ''--credential-file'' = Some (cf_credential_file c)" "cf_credential_file c \<noteq> []"
      "bt_get given ''--routes-file'' = Some (cf_routes_file c)" "cf_routes_file c \<noteq> []"
    using assms(2) by (auto simp: from_options_def result_simps)
  have "given_as args flag v" if "bt_get given flag = Some v" for flag v
    using options_loop_given [OF assms(1) [unfolded options_def] that] by simp
  with r n seconds_option_bounds [OF n(1)] seconds_option_bounds [OF n(2)] show ?thesis
    by (auto simp: from_secs_def poll_query_def result_simps effective_limit_def PAGE_LIMIT_def MAX_PAGE_SIZE_def)
qed

end
