(* ===== verification/Spool.thy ===== *)
theory Spool
  imports Worker Cursor
begin

text \<open>
  The runtimes that hand an item over as a file in a private directory:
  journal-runtime-file/src/lib.rs and journal-runtime-muse/src/lib.rs, whose publication code is the
  same. A directory has names, some of them durable, and files with contents, some of them synced.
  Every system call is a step: before it other processes may have changed the directory, and it may
  work, fail, fail after taking effect, or be the last thing the process does. A crash of the machine
  keeps what was durable and may keep or lose the rest.
\<close>

section \<open>A directory and its system calls\<close>

datatype io_kind = KindNotFound | KindAlreadyExists | KindOther

datatype entry = File nat | SymLink "nat option" | Special

record spool =
  sp_names :: "string \<Rightarrow> entry option"
  sp_durable :: "string \<Rightarrow> entry option"
  sp_data :: "nat \<Rightarrow> string"
  sp_synced :: "nat \<Rightarrow> string option"
  sp_next :: nat
  sp_calls :: nat
  sp_sequence :: u64

datatype fault = Works | Fails io_kind | FailsAfter io_kind | Killed | KilledAfter

record spool_env =
  pe_fault :: "nat \<Rightarrow> fault"
  pe_others :: "nat \<Rightarrow> spool \<Rightarrow> spool"
  pe_written :: "nat \<Rightarrow> nat"
  pe_nanos :: "nat \<Rightarrow> nat"
  pe_process_id :: nat
  pe_crypto :: crypto

text \<open>A call returns its value or an error, or the process died in it.\<close>

datatype 'e stop = Stopped 'e | Died

type_synonym ('e, 'a) io = "spool \<Rightarrow> ('e stop + 'a) \<times> spool"

definition io_ok :: "'a \<Rightarrow> ('e, 'a) io" where
  "io_ok x s = (Inr x, s)"

definition io_err :: "'e \<Rightarrow> ('e, 'a) io" where
  "io_err e s = (Inl (Stopped e), s)"

definition io_bind :: "('e, 'a) io \<Rightarrow> ('a \<Rightarrow> ('e, 'b) io) \<Rightarrow> ('e, 'b) io" where
  "io_bind m f s = (case m s of (Inl e, s') \<Rightarrow> (Inl e, s') | (Inr x, s') \<Rightarrow> f x s')"

definition io_map_err :: "('e \<Rightarrow> 'f) \<Rightarrow> ('e, 'a) io \<Rightarrow> ('f, 'a) io" where
  "io_map_err g m s = (case m s of
     (Inl (Stopped e), s') \<Rightarrow> (Inl (Stopped (g e)), s')
   | (Inl Died, s') \<Rightarrow> (Inl Died, s')
   | (Inr x, s') \<Rightarrow> (Inr x, s'))"

definition others_ran :: "spool_env \<Rightarrow> spool \<Rightarrow> spool" where
  "others_ran V s = (pe_others V (sp_calls s) s)\<lparr>sp_calls := sp_calls s + 1\<rparr>"

text \<open>\<open>part\<close> is what a call that fails or is cut short has done.\<close>

definition attempt :: "spool_env \<Rightarrow> (nat \<Rightarrow> spool \<Rightarrow> spool) \<Rightarrow> (spool \<Rightarrow> (io_kind + 'a) \<times> spool) \<Rightarrow> (io_kind, 'a) io" where
  "attempt V part f s =
     (let s1 = others_ran V s; n = sp_calls s in
      case pe_fault V n of
        Works \<Rightarrow> (case f s1 of (Inl k, s2) \<Rightarrow> (Inl (Stopped k), s2) | (Inr x, s2) \<Rightarrow> (Inr x, s2))
      | Fails k \<Rightarrow> (Inl (Stopped k), part (pe_written V n) s1)
      | FailsAfter k \<Rightarrow> (Inl (Stopped k), snd (f s1))
      | Killed \<Rightarrow> (Inl Died, part (pe_written V n) s1)
      | KilledAfter \<Rightarrow> (Inl Died, snd (f s1)))"

definition syscall :: "spool_env \<Rightarrow> (spool \<Rightarrow> (io_kind + 'a) \<times> spool) \<Rightarrow> (io_kind, 'a) io" where
  "syscall V f = attempt V (\<lambda>_ s. s) f"

definition symlink_metadata :: "string \<Rightarrow> spool \<Rightarrow> (io_kind + bool \<times> bool \<times> nat) \<times> spool" where
  "symlink_metadata n s = ((case sp_names s n of
     None \<Rightarrow> Inl KindNotFound
   | Some (File i) \<Rightarrow> Inr (True, False, length (sp_data s i))
   | Some (SymLink _) \<Rightarrow> Inr (False, True, 0)
   | Some Special \<Rightarrow> Inr (False, False, 0)), s)"

definition open_file :: "string \<Rightarrow> spool \<Rightarrow> (io_kind + nat) \<times> spool" where
  "open_file n s = ((case sp_names s n of
     Some (File i) \<Rightarrow> Inr i
   | Some (SymLink (Some i)) \<Rightarrow> Inr i
   | Some Special \<Rightarrow> Inl KindOther
   | _ \<Rightarrow> Inl KindNotFound), s)"

definition read_to_end :: "nat \<Rightarrow> nat \<Rightarrow> spool \<Rightarrow> (io_kind + string) \<times> spool" where
  "read_to_end limit i s = (Inr (take limit (sp_data s i)), s)"

definition sync_file :: "nat \<Rightarrow> spool \<Rightarrow> (io_kind + unit) \<times> spool" where
  "sync_file i s = (Inr (), s\<lparr>sp_synced := (sp_synced s)(i := Some (sp_data s i))\<rparr>)"

definition open_dir :: "spool \<Rightarrow> (io_kind + unit) \<times> spool" where
  "open_dir s = (Inr (), s)"

definition sync_dir :: "spool \<Rightarrow> (io_kind + unit) \<times> spool" where
  "sync_dir s = (Inr (), s\<lparr>sp_durable := sp_names s\<rparr>)"

definition create_new :: "string \<Rightarrow> spool \<Rightarrow> (io_kind + nat) \<times> spool" where
  "create_new n s = (if sp_names s n \<noteq> None then (Inl KindAlreadyExists, s)
     else (Inr (sp_next s), s\<lparr>sp_names := (sp_names s)(n := Some (File (sp_next s))),
        sp_data := (sp_data s)(sp_next s := []), sp_synced := (sp_synced s)(sp_next s := None), sp_next := sp_next s + 1\<rparr>))"

definition append_data :: "nat \<Rightarrow> string \<Rightarrow> spool \<Rightarrow> spool" where
  "append_data i bytes s = s\<lparr>sp_data := (sp_data s)(i := sp_data s i @ bytes)\<rparr>"

definition hard_link :: "string \<Rightarrow> string \<Rightarrow> spool \<Rightarrow> (io_kind + unit) \<times> spool" where
  "hard_link original n s =
     (if sp_names s original = None then (Inl KindNotFound, s)
      else if sp_names s n \<noteq> None then (Inl KindAlreadyExists, s)
      else (Inr (), s\<lparr>sp_names := (sp_names s)(n := sp_names s original)\<rparr>))"

definition remove_file :: "string \<Rightarrow> spool \<Rightarrow> (io_kind + unit) \<times> spool" where
  "remove_file n s = (if sp_names s n = None then (Inl KindNotFound, s)
     else (Inr (), s\<lparr>sp_names := (sp_names s)(n := None)\<rparr>))"

section \<open>Publishing a file\<close>

definition write_all :: "spool_env \<Rightarrow> nat \<Rightarrow> string \<Rightarrow> (io_kind, unit) io" where
  "write_all V i bytes = attempt V (\<lambda>k. append_data i (take k bytes)) (\<lambda>s. (Inr (), append_data i bytes s))"

definition read_published :: "spool_env \<Rightarrow> nat \<Rightarrow> string \<Rightarrow> (io_kind, string) io" where
  "read_published V max_bytes path =
     io_bind (syscall V (symlink_metadata path)) (\<lambda>(is_file, is_symlink, len).
     if \<not> is_file \<or> is_symlink \<or> len > max_bytes then io_err KindOther
     else
       io_bind (syscall V (open_file path)) (\<lambda>i.
       io_bind (syscall V (read_to_end (max_bytes + 1) i)) (\<lambda>bytes.
       if length bytes > max_bytes then io_err KindOther else io_ok bytes)))"

definition sync_published :: "spool_env \<Rightarrow> string \<Rightarrow> string \<Rightarrow> (runtime_error, unit) io" where
  "sync_published V unavailable path =
     io_map_err (\<lambda>_. RuntimeUnavailableError unavailable)
       (io_bind (syscall V (open_file path)) (\<lambda>i.
        io_bind (syscall V (sync_file i)) (\<lambda>_.
        io_bind (syscall V open_dir) (\<lambda>_.
        syscall V sync_dir))))"

definition STAGING_CREATE_ATTEMPTS :: nat where
  "STAGING_CREATE_ATTEMPTS = 128"

definition staging_name :: "spool_env \<Rightarrow> string \<Rightarrow> nat \<Rightarrow> u64 \<Rightarrow> string" where
  "staging_name V file_name timestamp sequence =
     ''.'' @ file_name @ ''.tmp.'' @ show_nat (pe_process_id V) @ ''.'' @ show_nat timestamp @ ''.'' @ show_nat (unat sequence)"

fun create_staging_at :: "spool_env \<Rightarrow> string \<Rightarrow> nat \<Rightarrow> u64 \<Rightarrow> nat list \<Rightarrow> (io_kind, string \<times> nat) io" where
  "create_staging_at V path timestamp sequence [] = io_err KindOther"
| "create_staging_at V path timestamp sequence (offset # offsets) = (\<lambda>s.
     let staging = staging_name V path timestamp (sequence + of_nat offset) in
     case syscall V (create_new staging) s of
       (Inr file, s') \<Rightarrow> (Inr (staging, file), s')
     | (Inl (Stopped k), s') \<Rightarrow>
         if k = KindAlreadyExists then create_staging_at V path timestamp sequence offsets s' else (Inl (Stopped k), s')
     | (Inl Died, s') \<Rightarrow> (Inl Died, s'))"

definition create_staging_file :: "spool_env \<Rightarrow> string \<Rightarrow> (io_kind, string \<times> nat) io" where
  "create_staging_file V path s =
     create_staging_at V path (pe_nanos V (sp_calls s)) (sp_sequence s) [0..<STAGING_CREATE_ATTEMPTS]
       (s\<lparr>sp_sequence := sp_sequence s + of_nat STAGING_CREATE_ATTEMPTS\<rparr>)"

definition link_published :: "spool_env \<Rightarrow> nat \<Rightarrow> string \<Rightarrow> string \<Rightarrow> string \<Rightarrow> string \<Rightarrow> (runtime_error, unit) io" where
  "link_published V max_bytes unavailable staging path bytes s =
     (case syscall V (hard_link staging path) s of
        (Inr _, s') \<Rightarrow> (Inr (), s')
      | (Inl Died, s') \<Rightarrow> (Inl Died, s')
      | (Inl (Stopped k), s') \<Rightarrow>
          if k = KindAlreadyExists then
            io_bind (io_map_err (\<lambda>_. RuntimeRejectedError) (read_published V max_bytes path)) (\<lambda>existing.
            if existing \<noteq> bytes then io_err RuntimeRejectedError else sync_published V unavailable path) s'
          else (Inl (Stopped (RuntimeUnavailableError unavailable)), s'))"

text \<open>A failed publication removes its staging file and ignores whether that worked.\<close>

definition removing :: "spool_env \<Rightarrow> string \<Rightarrow> ('e, 'a) io \<Rightarrow> ('e, 'a) io" where
  "removing V staging m s = (case m s of
     (Inl (Stopped e), s') \<Rightarrow> (case syscall V (remove_file staging) s' of
        (Inl Died, s'') \<Rightarrow> (Inl Died, s'')
      | (_, s'') \<Rightarrow> (Inl (Stopped e), s''))
   | (Inl Died, s') \<Rightarrow> (Inl Died, s')
   | (Inr x, s') \<Rightarrow> (Inr x, s'))"

definition write_published :: "spool_env \<Rightarrow> nat \<Rightarrow> string \<Rightarrow> string \<Rightarrow> string \<Rightarrow> (runtime_error, unit) io" where
  "write_published V max_bytes unavailable path bytes =
     (let failed = io_map_err (\<lambda>_. RuntimeUnavailableError unavailable) in
      io_bind (io_map_err (\<lambda>_. RuntimeUnavailableError unavailable) (create_staging_file V path)) (\<lambda>(staging, file).
      removing V staging (
        io_bind (failed (write_all V file bytes)) (\<lambda>_.
        io_bind (failed (syscall V (sync_file file))) (\<lambda>_.
        io_bind (link_published V max_bytes unavailable staging path bytes) (\<lambda>_.
        io_bind (failed (syscall V (remove_file staging))) (\<lambda>_.
        io_bind (failed (syscall V open_dir)) (\<lambda>_.
        failed (syscall V sync_dir)))))))))"

definition publish_file :: "(io_kind, string) io \<Rightarrow> (runtime_error, unit) io \<Rightarrow> (runtime_error, unit) io \<Rightarrow> string \<Rightarrow> string
    \<Rightarrow> (runtime_error, string) io" where
  "publish_file read_file sync_it write_file file_name bytes s =
     (case read_file s of
        (Inr existing, s') \<Rightarrow>
          if existing = bytes then io_bind sync_it (\<lambda>_. io_ok file_name) s'
          else (Inl (Stopped RuntimeRejectedError), s')
      | (Inl (Stopped k), s') \<Rightarrow>
          if k = KindNotFound then io_bind write_file (\<lambda>_. io_ok file_name) s'
          else (Inl (Stopped RuntimeRejectedError), s')
      | (Inl Died, s') \<Rightarrow> (Inl Died, s'))"

section \<open>The file runtime\<close>

definition MAX_LABEL_BYTES :: nat where
  "MAX_LABEL_BYTES = 255"

definition MAX_SPOOL_FRAMING_BYTES :: nat where
  "MAX_SPOOL_FRAMING_BYTES = 1024"

definition MAX_SPOOL_BYTES :: nat where
  "MAX_SPOOL_BYTES = 6 * MAX_CONTENT_BYTES
     + 6 * (MAX_CONTENT_BYTES + 8 * (6 * MAX_IDENTIFIER_CHARS + 2) + 512)
     + 9 * (6 * MAX_IDENTIFIER_CHARS + 2) + 6 * MAX_LABEL_BYTES + MAX_SPOOL_FRAMING_BYTES"

definition HEX :: string where
  "HEX = ''0123456789abcdef''"

definition hex_bytes :: "byte list \<Rightarrow> string" where
  "hex_bytes bytes = concat (map (\<lambda>b. [HEX ! unat (drop_bit 4 b), HEX ! unat (and b 0x0f)]) bytes)"

text \<open>Labels are recorded inside the envelope and are never path segments.\<close>

definition ascii_alphabetic :: "char \<Rightarrow> bool" where
  "ascii_alphabetic c \<longleftrightarrow> 65 \<le> (of_char c :: nat) \<and> (of_char c :: nat) \<le> 90 \<or> 97 \<le> (of_char c :: nat) \<and> (of_char c :: nat) \<le> 122"

fun dots :: "string \<Rightarrow> bool" where
  "dots (a # b # s) \<longleftrightarrow> a = CHR ''.'' \<and> b = CHR ''.'' \<or> dots (b # s)"
| "dots _ \<longleftrightarrow> False"

definition valid_label :: "nat \<Rightarrow> string \<Rightarrow> bool" where
  "valid_label max_bytes label \<longleftrightarrow> \<not> (label = [] \<or> length label > max_bytes
     \<or> list_ex (\<lambda>c. (of_char c :: nat) < 0x20 \<or> (of_char c :: nat) = 0x7f) label
     \<or> dots label \<or> list_ex (\<lambda>c. c = CHR ''/'' \<or> c = CHR 0x5C) label
     \<or> (case label of a # b # _ \<Rightarrow> ascii_alphabetic a \<and> b = CHR '':'' | _ \<Rightarrow> False))"

record dir_metadata =
  dm_is_dir :: bool
  dm_is_symlink :: bool
  dm_mode :: "32 word"

definition validate_spool_dir :: "(string \<Rightarrow> dir_metadata option) \<Rightarrow> string \<Rightarrow> runtime_error + string" where
  "validate_spool_dir metadata dir =
     (if dir = [] \<or> length dir > 4096 then Inl RuntimeRejectedError
      else case metadata dir of
        None \<Rightarrow> Inl RuntimeRejectedError
      | Some m \<Rightarrow> if \<not> dm_is_dir m \<or> dm_is_symlink m then Inl RuntimeRejectedError
                  else if and (dm_mode m) 0x3F \<noteq> 0 then Inl RuntimeRejectedError else Inr dir)"

definition json_opt :: "string option \<Rightarrow> json" where
  "json_opt v = (case v of None \<Rightarrow> JNull | Some t \<Rightarrow> JStr t)"

definition content_sha256 :: "spool_env \<Rightarrow> string \<Rightarrow> string" where
  "content_sha256 V rendered = hex_bytes (sha256 (pe_crypto V) (as_bytes rendered))"

definition spool_envelope :: "spool_env \<Rightarrow> string \<Rightarrow> envelope \<Rightarrow> string \<Rightarrow> json" where
  "spool_envelope V runtime_target e rendered = JObj [(''version'', JInt 1), (''dedupe_key'', JStr (en_inbox_item_id e)),
     (''runtime_target'', JStr runtime_target), (''inbox_item_id'', JStr (en_inbox_item_id e)),
     (''record_id'', JStr (en_record_id e)), (''space_id'', JStr (en_space_id e)),
     (''from_principal'', JStr (en_from_principal e)), (''source_run'', json_opt (en_source_run e)),
     (''reply_to'', json_opt (en_reply_to e)), (''addressed_to'', JStr (en_addressed_to e)),
     (''routing_key'', json_opt (en_routing_key e)), (''body'', JStr (en_body e)), (''rendered'', JStr rendered),
     (''content_sha256'', JStr (content_sha256 V rendered))]"

definition spool_bytes :: "spool_env \<Rightarrow> string \<Rightarrow> envelope \<Rightarrow> string \<Rightarrow> string" where
  "spool_bytes V target e rendered = json_print (json_codec (pe_crypto V)) (spool_envelope V target e rendered)"

definition spool_file_name :: "spool_env \<Rightarrow> string \<Rightarrow> string" where
  "spool_file_name V inbox_item_id =
     ''aj-'' @ hex_bytes (sha256 (pe_crypto V) (as_bytes inbox_item_id)) @ ''.envelope.json''"

definition read_spool_file :: "spool_env \<Rightarrow> string \<Rightarrow> (io_kind, string) io" where
  "read_spool_file V path = read_published V MAX_SPOOL_BYTES path"

definition sync_spool_file :: "spool_env \<Rightarrow> string \<Rightarrow> (runtime_error, unit) io" where
  "sync_spool_file V path = sync_published V ''file spool unavailable'' path"

definition write_spool_file :: "spool_env \<Rightarrow> string \<Rightarrow> string \<Rightarrow> (runtime_error, unit) io" where
  "write_spool_file V path bytes = write_published V MAX_SPOOL_BYTES ''file spool unavailable'' path bytes"

definition file_inject :: "spool_env \<Rightarrow> route \<Rightarrow> envelope \<Rightarrow> string \<Rightarrow> (runtime_error, string) io" where
  "file_inject V route e rendered =
     (if \<not> ro_enabled route then io_err RuntimeRejectedError
      else if \<not> valid_label MAX_LABEL_BYTES (ro_runtime_target route) then io_err RuntimeRejectedError
      else if rendered \<noteq> render (json_codec (pe_crypto V)) e then io_err RuntimeRejectedError
      else
        let bytes = spool_bytes V (ro_runtime_target route) e rendered in
        if length bytes > MAX_SPOOL_BYTES then io_err RuntimeRejectedError
        else
          let file_name = spool_file_name V (en_inbox_item_id e) in
          publish_file (read_spool_file V file_name) (sync_spool_file V file_name) (write_spool_file V file_name bytes)
            file_name bytes)"

section \<open>The Muse runtime\<close>

definition MAX_CHAT_ID_BYTES :: nat where
  "MAX_CHAT_ID_BYTES = 255"

definition validate_chat_id :: "string \<Rightarrow> bool" where
  "validate_chat_id chat_id = valid_label MAX_CHAT_ID_BYTES chat_id"

definition validate_drop_dir :: "(string \<Rightarrow> dir_metadata option) \<Rightarrow> string \<Rightarrow> runtime_error + string" where
  "validate_drop_dir metadata dir = validate_spool_dir metadata dir"

definition MAX_DROP_FRAMING_BYTES :: nat where
  "MAX_DROP_FRAMING_BYTES = 1024"

definition MAX_DROP_BYTES :: nat where
  "MAX_DROP_BYTES = 6 * MAX_CONTENT_BYTES + 8 * (7 * MAX_IDENTIFIER_CHARS + 4)
     + 7 * (6 * MAX_IDENTIFIER_CHARS + 2) + 2 * MAX_CHAT_ID_BYTES + 2 + MAX_DROP_FRAMING_BYTES"

definition drop_payload :: "spool_env \<Rightarrow> string \<Rightarrow> envelope \<Rightarrow> string \<Rightarrow> json" where
  "drop_payload V target_chat e rendered = JObj [(''version'', JInt 2), (''dedupe_key'', JStr (en_inbox_item_id e)),
     (''target_chat'', JStr target_chat), (''record_id'', JStr (en_record_id e)),
     (''inbox_item_id'', JStr (en_inbox_item_id e)), (''space_id'', JStr (en_space_id e)),
     (''from_principal'', JStr (en_from_principal e)), (''addressed_to'', JStr (en_addressed_to e)),
     (''routing_key'', json_opt (en_routing_key e)), (''body'', JStr rendered),
     (''content_sha256'', JStr (content_sha256 V rendered))]"

definition drop_bytes :: "spool_env \<Rightarrow> string \<Rightarrow> envelope \<Rightarrow> string \<Rightarrow> string" where
  "drop_bytes V target e rendered = json_print (json_codec (pe_crypto V)) (drop_payload V target e rendered)"

definition drop_file_name :: "spool_env \<Rightarrow> string \<Rightarrow> string" where
  "drop_file_name V inbox_item_id =
     ''muse-'' @ hex_bytes (sha256 (pe_crypto V) (as_bytes inbox_item_id)) @ ''.drop.json''"

definition read_drop_file :: "spool_env \<Rightarrow> string \<Rightarrow> (io_kind, string) io" where
  "read_drop_file V path = read_published V MAX_DROP_BYTES path"

definition sync_drop_file :: "spool_env \<Rightarrow> string \<Rightarrow> (runtime_error, unit) io" where
  "sync_drop_file V path = sync_published V ''muse drop point unavailable'' path"

definition write_drop_file :: "spool_env \<Rightarrow> string \<Rightarrow> string \<Rightarrow> (runtime_error, unit) io" where
  "write_drop_file V path bytes = write_published V MAX_DROP_BYTES ''muse drop point unavailable'' path bytes"

definition muse_inject :: "spool_env \<Rightarrow> route \<Rightarrow> envelope \<Rightarrow> string \<Rightarrow> (runtime_error, string) io" where
  "muse_inject V route e rendered =
     (if \<not> ro_enabled route then io_err RuntimeRejectedError
      else if \<not> validate_chat_id (ro_runtime_target route) then io_err RuntimeRejectedError
      else if rendered \<noteq> render (json_codec (pe_crypto V)) e then io_err RuntimeRejectedError
      else
        let bytes = drop_bytes V (ro_runtime_target route) e rendered in
        if length bytes > MAX_DROP_BYTES then io_err RuntimeRejectedError
        else
          let file_name = drop_file_name V (en_inbox_item_id e) in
          publish_file (read_drop_file V file_name) (sync_drop_file V file_name) (write_drop_file V file_name bytes)
            file_name bytes)"

section \<open>Directories that keep their files\<close>

text \<open>\<open>kept N I s s'\<close>: apart from the names in \<open>N\<close> and the files in \<open>I\<close>, what was in the directory is
  still there with the same contents, as durable as before, and under no further name.\<close>

definition wf_spool :: "spool \<Rightarrow> bool" where
  "wf_spool s \<longleftrightarrow> (\<forall>n i. sp_names s n = Some (File i) \<or> sp_durable s n = Some (File i) \<longrightarrow> i < sp_next s)"

definition kept :: "string set \<Rightarrow> nat set \<Rightarrow> spool \<Rightarrow> spool \<Rightarrow> bool" where
  "kept N I s s' \<longleftrightarrow> sp_next s \<le> sp_next s'
     \<and> (\<forall>n i. n \<notin> N \<longrightarrow> sp_names s n = Some (File i) \<longrightarrow> sp_names s' n = Some (File i))
     \<and> (\<forall>n i. n \<notin> N \<longrightarrow> sp_names s n = Some (File i) \<longrightarrow> sp_durable s n = Some (File i) \<longrightarrow> sp_durable s' n = Some (File i))
     \<and> (\<forall>i. i < sp_next s \<longrightarrow> i \<notin> I \<longrightarrow> sp_data s' i = sp_data s i
          \<and> (sp_synced s i = Some (sp_data s i) \<longrightarrow> sp_synced s' i = Some (sp_data s i)))
     \<and> (\<forall>n i. i < sp_next s \<longrightarrow> i \<notin> I \<longrightarrow> sp_names s' n = Some (File i) \<longrightarrow> sp_names s n = Some (File i))
     \<and> (\<forall>n i. i < sp_next s \<longrightarrow> i \<notin> I \<longrightarrow> sp_durable s' n = Some (File i) \<longrightarrow>
          sp_durable s n = Some (File i) \<or> sp_names s n = Some (File i))"

text \<open>While a publication runs, other processes only add files. They leave a name alone when they neither
  bind nor unbind it.\<close>

definition polite :: "spool_env \<Rightarrow> bool" where
  "polite V \<longleftrightarrow> (\<forall>k s. wf_spool s \<longrightarrow> kept {} {} s (pe_others V k s) \<and> wf_spool (pe_others V k s))"

definition leaves :: "spool_env \<Rightarrow> string \<Rightarrow> bool" where
  "leaves V n \<longleftrightarrow> (\<forall>k s. sp_names (pe_others V k s) n = sp_names s n
     \<and> sp_durable (pe_others V k s) n \<in> {sp_durable s n, sp_names s n})"

text \<open>A crash of the machine: each name is as it was or as it was last durable, and synced contents survive.\<close>

definition crashed :: "spool \<Rightarrow> spool \<Rightarrow> bool" where
  "crashed s s' \<longleftrightarrow> (\<forall>n. sp_names s' n \<in> {sp_names s n, sp_durable s n})
     \<and> (\<forall>i. sp_synced s i = Some (sp_data s i) \<longrightarrow> sp_data s' i = sp_data s i)"

text \<open>\<open>holds s n b\<close>: the name is a file with these contents. \<open>safe\<close>: and both are durable. \<open>untorn\<close>: it is
  absent, or a file with exactly these contents, all of them synced.\<close>

definition holds :: "spool \<Rightarrow> string \<Rightarrow> string \<Rightarrow> bool" where
  "holds s n b \<longleftrightarrow> (\<exists>i. sp_names s n = Some (File i) \<and> sp_data s i = b)"

definition safe :: "spool \<Rightarrow> string \<Rightarrow> string \<Rightarrow> bool" where
  "safe s n b \<longleftrightarrow> (\<exists>i. sp_names s n = Some (File i) \<and> sp_durable s n = Some (File i)
     \<and> sp_data s i = b \<and> sp_synced s i = Some b)"

definition untorn :: "spool \<Rightarrow> string \<Rightarrow> string \<Rightarrow> bool" where
  "untorn s n b \<longleftrightarrow> (\<forall>e. sp_names s n = Some e \<or> sp_durable s n = Some e \<longrightarrow>
     (\<exists>i. e = File i \<and> sp_data s i = b \<and> sp_synced s i = Some b))"

lemma safe_survives: "safe s n b \<Longrightarrow> crashed s s' \<Longrightarrow> holds s' n b"
  unfolding safe_def crashed_def holds_def by (metis empty_iff insert_iff)

lemma untorn_survives: "untorn s n b \<Longrightarrow> crashed s s' \<Longrightarrow> sp_names s' n = None \<or> holds s' n b"
  unfolding untorn_def crashed_def holds_def by (metis empty_iff insert_iff not_None_eq)

lemma kept_refl: "kept N I s s"
  by (auto simp: kept_def)

lemma kept_mono: "kept N I s s' \<Longrightarrow> N \<subseteq> N' \<Longrightarrow> I \<subseteq> I' \<Longrightarrow> kept N' I' s s'"
  unfolding kept_def by blast

lemma keptD:
  assumes "kept N I s s'"
  shows "sp_next s \<le> sp_next s'"
    and "n \<notin> N \<Longrightarrow> sp_names s n = Some (File i) \<Longrightarrow> sp_names s' n = Some (File i)"
    and "n \<notin> N \<Longrightarrow> sp_names s n = Some (File i) \<Longrightarrow> sp_durable s n = Some (File i) \<Longrightarrow> sp_durable s' n = Some (File i)"
    and "i < sp_next s \<Longrightarrow> i \<notin> I \<Longrightarrow> sp_data s' i = sp_data s i"
    and "i < sp_next s \<Longrightarrow> i \<notin> I \<Longrightarrow> sp_synced s i = Some (sp_data s i) \<Longrightarrow> sp_synced s' i = Some (sp_data s i)"
    and "i < sp_next s \<Longrightarrow> i \<notin> I \<Longrightarrow> sp_names s' n = Some (File i) \<Longrightarrow> sp_names s n = Some (File i)"
    and "i < sp_next s \<Longrightarrow> i \<notin> I \<Longrightarrow> sp_durable s' n = Some (File i) \<Longrightarrow>
          sp_durable s n = Some (File i) \<or> sp_names s n = Some (File i)"
  using assms unfolding kept_def by blast+

lemma kept_trans:
  assumes "kept N I s s'" "kept N I s' s''"
  shows "kept N I s s''"
  unfolding kept_def
proof (intro conjI allI impI)
  note d1 = keptD [OF assms(1)] and d2 = keptD [OF assms(2)]
  have lt: "i < sp_next s \<Longrightarrow> i < sp_next s'" for i using d1(1) by simp
  show "sp_next s \<le> sp_next s''" using d1(1) d2(1) by simp
  fix n i
  show "sp_names s'' n = Some (File i)" if "n \<notin> N" "sp_names s n = Some (File i)"
    using that d1(2) d2(2) by blast
  show "sp_durable s'' n = Some (File i)" if "n \<notin> N" "sp_names s n = Some (File i)" "sp_durable s n = Some (File i)"
    using that d1(2,3) d2(3) by blast
  show "sp_data s'' i = sp_data s i" if "i < sp_next s" "i \<notin> I"
    using that d1(4) [of i] d2(4) [of i] lt by simp
  show "sp_synced s'' i = Some (sp_data s i)" if "i < sp_next s" "i \<notin> I" "sp_synced s i = Some (sp_data s i)"
    using that d1(4,5) [of i] d2(5) [of i] lt by simp
  show "sp_names s n = Some (File i)" if "i < sp_next s" "i \<notin> I" "sp_names s'' n = Some (File i)"
    using that d1(6) d2(6) lt by blast
  show "sp_durable s n = Some (File i) \<or> sp_names s n = Some (File i)"
    if "i < sp_next s" "i \<notin> I" "sp_durable s'' n = Some (File i)"
    using that d1(6,7) d2(7) lt by blast
qed

lemma kept_sequence [simp]: "kept N I s (s'\<lparr>sp_sequence := q\<rparr>) = kept N I s s'" "wf_spool (s\<lparr>sp_sequence := q\<rparr>) = wf_spool s"
  "untorn (s\<lparr>sp_sequence := q\<rparr>) n b = untorn s n b"
  by (simp_all add: kept_def wf_spool_def untorn_def)

lemma kept_calls [simp]: "kept N I s (s'\<lparr>sp_calls := k\<rparr>) = kept N I s s'" "wf_spool (s\<lparr>sp_calls := k\<rparr>) = wf_spool s"
  by (simp_all add: kept_def wf_spool_def)

definition inter :: "bool \<Rightarrow> string \<Rightarrow> spool \<Rightarrow> spool \<Rightarrow> bool" where
  "inter w n s s' \<longleftrightarrow> kept {} {} s s' \<and> wf_spool s'
     \<and> (w \<longrightarrow> sp_names s' n = sp_names s n \<and> sp_durable s' n \<in> {sp_durable s n, sp_names s n})"

lemma others_inter:
  assumes "polite V" "w \<longrightarrow> leaves V n" "wf_spool s"
  shows "inter w n s (others_ran V s)"
proof -
  have "kept {} {} s (pe_others V (sp_calls s) s)" "wf_spool (pe_others V (sp_calls s) s)"
    using assms by (auto simp: polite_def)
  moreover have "w \<longrightarrow> sp_names (pe_others V (sp_calls s) s) n = sp_names s n
      \<and> sp_durable (pe_others V (sp_calls s) s) n \<in> {sp_durable s n, sp_names s n}"
    using assms(2) by (simp only: leaves_def) blast
  ultimately show ?thesis by (simp add: inter_def others_ran_def)
qed

section \<open>Publication, step by step\<close>

text \<open>\<open>triple P m Q E\<close>: from a state in \<open>P\<close>, a value leads to \<open>Q\<close>, and an error or the end of the process
  to \<open>E\<close>.\<close>

definition triple :: "(spool \<Rightarrow> bool) \<Rightarrow> ('e, 'a) io \<Rightarrow> ('a \<Rightarrow> spool \<Rightarrow> bool) \<Rightarrow> (spool \<Rightarrow> bool) \<Rightarrow> bool" where
  "triple P m Q E \<longleftrightarrow> (\<forall>s r s'. P s \<longrightarrow> m s = (r, s') \<longrightarrow> (case r of Inr x \<Rightarrow> Q x s' | Inl _ \<Rightarrow> E s'))"

lemma tripleD: "triple P m Q E \<Longrightarrow> P s \<Longrightarrow> m s = (r, s') \<Longrightarrow> (case r of Inr x \<Rightarrow> Q x s' | Inl _ \<Rightarrow> E s')"
  unfolding triple_def by blast

lemma triple_ok: "(\<And>s. P s \<Longrightarrow> Q x s) \<Longrightarrow> triple P (io_ok x) Q E"
  by (auto simp: triple_def io_ok_def)

lemma triple_err: "(\<And>s. P s \<Longrightarrow> E s) \<Longrightarrow> triple P (io_err e) Q E"
  by (auto simp: triple_def io_err_def)

lemma triple_bind:
  assumes "triple P m R E" "\<And>x. triple (R x) (f x) Q E"
  shows "triple P (io_bind m f) Q E"
  unfolding triple_def
proof (intro allI impI)
  fix s r s' assume P: "P s" and run: "io_bind m f s = (r, s')"
  obtain r1 s1 where m: "m s = (r1, s1)" by (cases "m s")
  with tripleD [OF assms(1) P m] run show "case r of Inr x \<Rightarrow> Q x s' | Inl _ \<Rightarrow> E s'"
    by (cases r1) (auto simp: io_bind_def dest: tripleD [OF assms(2)])
qed

lemma triple_map_err: "triple P m Q E \<Longrightarrow> triple P (io_map_err g m) Q E"
  unfolding triple_def io_map_err_def by (fastforce split: sum.splits prod.splits stop.splits)

lemma triple_pre: "triple P m Q E \<Longrightarrow> (\<And>s. P' s \<Longrightarrow> P s) \<Longrightarrow> triple P' m Q E"
  unfolding triple_def by blast

lemma triple_post: "triple P m Q E \<Longrightarrow> (\<And>x s. Q x s \<Longrightarrow> Q' x s) \<Longrightarrow> (\<And>s. E s \<Longrightarrow> E' s) \<Longrightarrow> triple P m Q' E'"
  unfolding triple_def by (fastforce split: sum.splits)

text \<open>Assertions that survive what other processes do.\<close>

definition stable :: "bool \<Rightarrow> string \<Rightarrow> (spool \<Rightarrow> bool) \<Rightarrow> bool" where
  "stable w n P \<longleftrightarrow> (\<forall>s s'. P s \<longrightarrow> inter w n s s' \<longrightarrow> P s') \<and> (\<forall>s. P s \<longrightarrow> wf_spool s)"

lemma triple_attempt:
  assumes env: "polite V" "w \<longrightarrow> leaves V n" and P: "stable w n P"
    and ok: "\<And>s x s'. P s \<Longrightarrow> f s = (Inr x, s') \<Longrightarrow> Q x s'"
    and after: "\<And>s. P s \<Longrightarrow> E (snd (f s))" and part: "\<And>s k. P s \<Longrightarrow> E (part k s)"
  shows "triple P (attempt V part f) Q E"
  unfolding triple_def
proof (intro allI impI)
  fix s r s' assume "P s" and run: "attempt V part f s = (r, s')"
  then have now: "P (others_ran V s)"
    using P others_inter [OF env] by (auto simp: stable_def)
  show "case r of Inr x \<Rightarrow> Q x s' | Inl _ \<Rightarrow> E s'"
    using run ok [OF now] after [OF now] part [OF now]
    by (auto simp: attempt_def Let_def split: fault.splits prod.splits sum.splits)
qed

lemma triple_syscall:
  assumes "polite V" "w \<longrightarrow> leaves V n" "stable w n P"
    and "\<And>s x s'. P s \<Longrightarrow> f s = (Inr x, s') \<Longrightarrow> Q x s'"
    and "\<And>s. P s \<Longrightarrow> E (snd (f s))" "\<And>s. P s \<Longrightarrow> E s"
  shows "triple P (syscall V f) Q E"
  unfolding syscall_def by (rule triple_attempt [OF assms(1-3)]) (use assms(4-6) in auto)

definition within :: "bool \<Rightarrow> string set \<Rightarrow> nat set \<Rightarrow> spool \<Rightarrow> string \<Rightarrow> string \<Rightarrow> spool \<Rightarrow> bool" where
  "within w N I s0 n b s \<longleftrightarrow> wf_spool s \<and> kept N I s0 s \<and> (w \<longrightarrow> untorn s n b)"

lemma wf_names: "wf_spool s \<Longrightarrow> sp_names s n = Some (File i) \<Longrightarrow> i < sp_next s"
  and wf_durable: "wf_spool s \<Longrightarrow> sp_durable s n = Some (File i) \<Longrightarrow> i < sp_next s"
  by (auto simp: wf_spool_def)

lemma untorn_inter:
  assumes "untorn s n b" "inter True n s s'" "wf_spool s"
  shows "untorn s' n b"
  unfolding untorn_def
proof (intro allI impI)
  fix e assume "sp_names s' n = Some e \<or> sp_durable s' n = Some e"
  then have e: "sp_names s n = Some e \<or> sp_durable s n = Some e" using assms(2) by (auto simp: inter_def)
  then obtain i where i: "e = File i" "sp_data s i = b" "sp_synced s i = Some b" using assms(1) by (auto simp: untorn_def)
  then have "i < sp_next s" using e assms(3) wf_names wf_durable by blast
  then show "\<exists>i. e = File i \<and> sp_data s' i = b \<and> sp_synced s' i = Some b"
    using i assms(2) keptD(4,5) [of "{}" "{}" s s' i] by (auto simp: inter_def)
qed

lemma inter_wf: "inter w n s s' \<Longrightarrow> wf_spool s'" "inter w n s s' \<Longrightarrow> kept {} {} s s'"
  by (auto simp: inter_def)

lemma within_inter:
  assumes "within w N I s0 n b s" "inter w n s s'"
  shows "within w N I s0 n b s'"
proof -
  have "kept N I s s'" using inter_wf(2) [OF assms(2)] by (rule kept_mono) auto
  then have "kept N I s0 s'" using assms(1) kept_trans by (auto simp: within_def)
  moreover have "w \<longrightarrow> untorn s' n b"
    using assms untorn_inter [of s n b s'] by (auto simp: within_def)
  ultimately show ?thesis using inter_wf(1) [OF assms(2)] by (simp add: within_def)
qed

lemma stable_within: "stable w n (within w N I s0 n b)"
  unfolding stable_def by (intro conjI allI impI, erule (1) within_inter) (simp add: within_def)

lemma stable_wf: "stable w n P \<Longrightarrow> P s \<Longrightarrow> wf_spool s" "stable w n P \<Longrightarrow> P s \<Longrightarrow> inter w n s s' \<Longrightarrow> P s'"
  unfolding stable_def by blast+

lemma file_inter:
  assumes "inter w n s s'" "wf_spool s" "sp_names s m = Some (File i)"
  shows "sp_names s' m = Some (File i)" "sp_data s' i = sp_data s i"
    "sp_synced s i = Some (sp_data s i) \<Longrightarrow> sp_synced s' i = Some (sp_data s i)"
    "sp_durable s m = Some (File i) \<Longrightarrow> sp_durable s' m = Some (File i)"
proof -
  note d = keptD [OF inter_wf(2) [OF assms(1)]] and i = wf_names [OF assms(2,3)]
  show "sp_names s' m = Some (File i)" using d(2) assms(3) by simp
  show "sp_data s' i = sp_data s i" using d(4) i by simp
  show "sp_synced s i = Some (sp_data s i) \<Longrightarrow> sp_synced s' i = Some (sp_data s i)" using d(5) i by simp
  show "sp_durable s m = Some (File i) \<Longrightarrow> sp_durable s' m = Some (File i)" using d(3) assms(3) by simp
qed

lemma safe_inter:
  assumes "inter w n s s'" "wf_spool s" "safe s m d"
  shows "safe s' m d"
proof -
  obtain i where "sp_names s m = Some (File i)" "sp_durable s m = Some (File i)" "sp_data s i = d" "sp_synced s i = Some d"
    using assms(3) by (auto simp: safe_def)
  then show ?thesis using file_inter [OF assms(1,2), of m i] by (auto simp: safe_def)
qed

lemma stable_conj:
  assumes "stable w n P" "\<And>s s'. wf_spool s \<Longrightarrow> inter w n s s' \<Longrightarrow> R s \<Longrightarrow> R s'"
  shows "stable w n (\<lambda>s. P s \<and> R s)"
  unfolding stable_def
  by (intro conjI allI impI; elim conjE) (use stable_wf [OF assms(1)] assms(2) in blast)+

lemma stable_file:
  assumes "stable w n P"
  shows "stable w n (\<lambda>s. P s \<and> (\<exists>i. sp_names s m = Some (File i)))"
    and "stable w n (\<lambda>s. P s \<and> sp_names s m = Some (File i))"
    and "stable w n (\<lambda>s. P s \<and> sp_names s m = Some (File i) \<and> sp_data s i = d)"
    and "stable w n (\<lambda>s. P s \<and> sp_names s m = Some (File i) \<and> sp_data s i = d \<and> sp_synced s i = Some d)"
    and "stable w n (\<lambda>s. P s \<and> holds s m d)"
    and "stable w n (\<lambda>s. P s \<and> safe s m d)"
proof -
  note rule = stable_conj [OF assms]
  show "stable w n (\<lambda>s. P s \<and> (\<exists>i. sp_names s m = Some (File i)))" by (rule rule) (use file_inter(1) in blast)
  show "stable w n (\<lambda>s. P s \<and> sp_names s m = Some (File i))" by (rule rule) (rule file_inter(1))
  show "stable w n (\<lambda>s. P s \<and> sp_names s m = Some (File i) \<and> sp_data s i = d)"
    by (rule rule) (use file_inter(1,2) in auto)
  show "stable w n (\<lambda>s. P s \<and> sp_names s m = Some (File i) \<and> sp_data s i = d \<and> sp_synced s i = Some d)"
    by (rule rule) (use file_inter(1,2,3) in auto)
  show "stable w n (\<lambda>s. P s \<and> holds s m d)"
    by (rule rule) (use file_inter(1,2) in \<open>unfold holds_def, blast\<close>)
  show "stable w n (\<lambda>s. P s \<and> safe s m d)"
    by (rule rule) (rule safe_inter)
qed

text \<open>What the quiet calls and the syncs do is nothing another process could not do.\<close>

lemma inter_refl: "wf_spool s \<Longrightarrow> inter w n s s"
  by (simp add: inter_def kept_refl)

lemma inter_sync_file: "wf_spool s \<Longrightarrow> inter w n s (snd (sync_file i s))"
  by (auto simp: inter_def sync_file_def kept_def wf_spool_def)

lemma inter_sync_dir: "wf_spool s \<Longrightarrow> inter w n s (snd (sync_dir s))"
  by (auto simp: inter_def sync_dir_def kept_def wf_spool_def)

lemma inter_create:
  assumes "wf_spool s" "m \<noteq> n"
  shows "inter w n s (snd (create_new m s))"
proof (cases "sp_names s m")
  case None
  then show ?thesis
    using assms wf_names [OF assms(1)] wf_durable [OF assms(1)]
    by (auto simp: inter_def create_new_def kept_def wf_spool_def less_Suc_eq)
qed (use assms in \<open>simp add: create_new_def inter_refl\<close>)

lemma quiet_calls:
  "snd (symlink_metadata m s) = s" "snd (open_file m s) = s" "snd (read_to_end l i s) = s" "snd (open_dir s) = s"
  by (simp_all add: symlink_metadata_def open_file_def read_to_end_def open_dir_def)

lemma triple_quiet:
  assumes "polite V" "w \<longrightarrow> leaves V n" "stable w n P" "\<And>s. snd (f s) = s" "\<And>s x. P s \<Longrightarrow> fst (f s) = Inr x \<Longrightarrow> Q x s"
    "\<And>s. P s \<Longrightarrow> E s"
  shows "triple P (syscall V f) Q E"
proof (rule triple_syscall [OF assms(1-3)])
  fix s x s' assume P: "P s" "f s = (Inr x, s')"
  then have "s' = s" using assms(4) [of s] by simp
  then show "Q x s'" using assms(5) [of s x] P by simp
qed (use assms(4,6) in auto)

lemma read_triple:
  assumes "polite V" "w \<longrightarrow> leaves V n" "stable w n P"
  shows "triple P (read_published V mx m) (\<lambda>d s. P s \<and> holds s m d) P"
  unfolding read_published_def
proof (rule triple_bind [where R = "\<lambda>(is_file, is_symlink, len) s. P s \<and> (is_file \<longrightarrow> (\<exists>i. sp_names s m = Some (File i)))"])
  show "triple P (syscall V (symlink_metadata m))
      (\<lambda>(is_file, is_symlink, len) s. P s \<and> (is_file \<longrightarrow> (\<exists>i. sp_names s m = Some (File i)))) P"
    by (rule triple_quiet [OF assms quiet_calls(1)]) (auto simp: symlink_metadata_def split: option.splits entry.splits)
  fix x :: "bool \<times> bool \<times> nat"
  obtain is_file is_symlink len where x: "x = (is_file, is_symlink, len)" by (cases x)
  define R where "R = (\<lambda>s. P s \<and> (\<exists>i. sp_names s m = Some (File i)))"
  have R: "stable w n R" "stable w n (\<lambda>s. P s \<and> sp_names s m = Some (File i))" for i
    unfolding R_def by (rule stable_file [OF assms(3)])+
  have "triple R (io_bind (syscall V (open_file m)) (\<lambda>i. io_bind (syscall V (read_to_end (mx + 1) i)) (\<lambda>bytes.
      if length bytes > mx then io_err KindOther else io_ok bytes))) (\<lambda>d s. P s \<and> holds s m d) P"
  proof (rule triple_bind)
    show "triple R (syscall V (open_file m)) (\<lambda>i s. P s \<and> sp_names s m = Some (File i)) P"
      by (rule triple_quiet [OF assms(1,2) R(1) quiet_calls(2)]) (auto simp: R_def open_file_def)
    fix i
    show "triple (\<lambda>s. P s \<and> sp_names s m = Some (File i)) (io_bind (syscall V (read_to_end (mx + 1) i)) (\<lambda>bytes.
      if length bytes > mx then io_err KindOther else io_ok bytes)) (\<lambda>d s. P s \<and> holds s m d) P"
    proof (rule triple_bind)
      show "triple (\<lambda>s. P s \<and> sp_names s m = Some (File i)) (syscall V (read_to_end (mx + 1) i))
          (\<lambda>bytes s. P s \<and> sp_names s m = Some (File i) \<and> bytes = take (mx + 1) (sp_data s i)) P"
        by (rule triple_quiet [OF assms(1,2) R(2) quiet_calls(3)]) (auto simp: read_to_end_def)
      fix bytes :: string
      show "triple (\<lambda>s. P s \<and> sp_names s m = Some (File i) \<and> bytes = take (mx + 1) (sp_data s i))
          (if length bytes > mx then io_err KindOther else io_ok bytes) (\<lambda>d s. P s \<and> holds s m d) P"
        by (auto simp: holds_def min_def intro!: triple_ok triple_err split: if_splits)
    qed
  qed
  then show "triple (case x of (is_file, is_symlink, len) \<Rightarrow> \<lambda>s. P s \<and> (is_file \<longrightarrow> (\<exists>i. sp_names s m = Some (File i))))
      (case x of (is_file, is_symlink, len) \<Rightarrow>
        if \<not> is_file \<or> is_symlink \<or> len > mx then io_err KindOther
        else io_bind (syscall V (open_file m)) (\<lambda>i. io_bind (syscall V (read_to_end (mx + 1) i)) (\<lambda>bytes.
          if length bytes > mx then io_err KindOther else io_ok bytes))) (\<lambda>d s. P s \<and> holds s m d) P"
    unfolding x prod.case by (auto simp: R_def intro!: triple_err elim: triple_pre)
qed

lemma sync_triple:
  assumes "polite V" "w \<longrightarrow> leaves V n" "stable w n P"
  shows "triple (\<lambda>s. P s \<and> holds s m d) (sync_published V msg m) (\<lambda>_ s. P s \<and> safe s m d) P"
proof -
  define R where "R = (\<lambda>i s. P s \<and> sp_names s m = Some (File i) \<and> sp_data s i = d)"
  define S where "S = (\<lambda>i s. P s \<and> sp_names s m = Some (File i) \<and> sp_data s i = d \<and> sp_synced s i = Some d)"
  have st: "stable w n (\<lambda>s. P s \<and> holds s m d)" "stable w n (R i)" "stable w n (S i)" for i
    unfolding R_def S_def by (rule stable_file [OF assms(3)])+
  note keep = stable_wf [OF assms(3)]
  have 1: "triple (\<lambda>s. P s \<and> holds s m d) (syscall V (open_file m)) R P"
    by (rule triple_quiet [OF assms(1,2) st(1) quiet_calls(2)]) (auto simp: R_def open_file_def holds_def)
  have 2: "triple (R i) (syscall V (sync_file i)) (\<lambda>_. S i) P" for i
  proof (rule triple_syscall [OF assms(1,2) st(2)])
    fix s :: spool and x s' assume "R i s" "sync_file i s = (Inr x, s')"
    then show "S i s'"
      using keep inter_sync_file [of s w n i] by (auto simp: R_def S_def sync_file_def)
  next
    fix s assume "R i s" then show "P (snd (sync_file i s))"
      using keep inter_sync_file by (auto simp: R_def)
  qed (simp add: R_def)
  have 3: "triple (S i) (syscall V open_dir) (\<lambda>_. S i) P" for i
    by (rule triple_quiet [OF assms(1,2) st(3) quiet_calls(4)]) (auto simp: S_def)
  have 4: "triple (S i) (syscall V sync_dir) (\<lambda>_ s. P s \<and> safe s m d) P" for i
  proof (rule triple_syscall [OF assms(1,2) st(3)])
    fix s :: spool and x s' assume "S i s" "sync_dir s = (Inr x, s')"
    then show "P s' \<and> safe s' m d"
      using keep inter_sync_dir [of s w n] by (auto simp: S_def sync_dir_def safe_def)
  next
    fix s assume "S i s" then show "P (snd (sync_dir s))"
      using keep inter_sync_dir by (auto simp: S_def)
  qed (simp add: S_def)
  show ?thesis
    unfolding sync_published_def by (rule triple_map_err, rule triple_bind [OF 1], rule triple_bind [OF 2], rule triple_bind [OF 3], rule 4)
qed

text \<open>The staging file is this process's own: nothing else names it, and it is newer than everything that
  was there.\<close>

definition hidden :: "string \<Rightarrow> bool" where
  "hidden m \<longleftrightarrow> take 1 m = ''.''"

definition staged :: "bool \<Rightarrow> spool \<Rightarrow> string \<Rightarrow> string \<Rightarrow> string \<Rightarrow> nat \<Rightarrow> string \<Rightarrow> spool \<Rightarrow> bool" where
  "staged w s0 n b st j d s \<longleftrightarrow> within w {st} {j} s0 n b s \<and> sp_names s st = Some (File j) \<and> sp_data s j = d
     \<and> sp_next s0 \<le> j \<and> (\<forall>m. sp_names s m = Some (File j) \<or> sp_durable s m = Some (File j) \<longrightarrow> m = st)"

lemma staged_stable: "stable w n (staged w s0 n b st j d)"
  unfolding stable_def
proof (intro conjI allI impI)
  fix s s' assume st: "staged w s0 n b st j d s" and i: "inter w n s s'"
  note s = st [unfolded staged_def]
  have wf: "wf_spool s" using s by (simp add: within_def)
  note d = keptD [OF inter_wf(2) [OF i]] and f = file_inter [OF i wf]
  have "j < sp_next s" using wf_names [OF wf] s by blast
  then have "m = st" if "sp_names s' m = Some (File j) \<or> sp_durable s' m = Some (File j)" for m
    using that d(6,7) [of j m] s by blast
  then show "staged w s0 n b st j d s'"
    using s within_inter [OF _ i] f(1,2) [of st j] by (auto simp: staged_def)
qed (simp add: staged_def within_def)

definition all_kept :: "bool \<Rightarrow> spool \<Rightarrow> string \<Rightarrow> string \<Rightarrow> spool \<Rightarrow> bool" where
  "all_kept w s0 n b s \<longleftrightarrow> (\<exists>st j. hidden st \<and> sp_next s0 \<le> j \<and> within w {st} {j} s0 n b s)"

lemma all_keptI: "within w {} {} s0 n b s \<Longrightarrow> all_kept w s0 n b s"
  unfolding all_kept_def within_def
  by (rule exI [of _ "''.''"], rule exI [of _ "sp_next s0"]) (auto simp: hidden_def elim: kept_mono)

lemma staging_hidden: "hidden (staging_name V m t q)"
  by (simp add: hidden_def staging_name_def)

lemma create_new_staged:
  assumes "within w {} {} s0 n b s" "create_new st s = (Inr j, s')" "st \<noteq> n"
  shows "staged w s0 n b st j [] s'"
proof -
  have wf: "wf_spool s" and k: "sp_next s0 \<le> sp_next s" using assms(1) by (auto simp: within_def dest: keptD(1))
  have "within w {} {} s0 n b s'"
    using within_inter [OF assms(1) inter_create [OF wf assms(3)]] assms(2) by simp
  then have "within w {st} {j} s0 n b s'" by (auto simp: within_def elim: kept_mono)
  moreover have "sp_names s m \<noteq> Some (File (sp_next s))" "sp_durable s m \<noteq> Some (File (sp_next s))" for m
    using wf_names [OF wf] wf_durable [OF wf] by blast+
  ultimately show ?thesis
    using assms(2) k by (auto simp: staged_def create_new_def split: if_splits)
qed

lemma create_staging_triple:
  assumes "polite V" "w \<longrightarrow> leaves V n" "\<not> hidden n"
  shows "triple (within w {} {} s0 n b) (create_staging_at V m t q ks)
    (\<lambda>(st, j) s. hidden st \<and> staged w s0 n b st j [] s) (within w {} {} s0 n b)"
proof (induction ks)
  case Nil
  show ?case by (auto intro: triple_err)
next
  case (Cons k ks)
  define st where "st = staging_name V m t (q + of_nat k)"
  have st: "hidden st" "st \<noteq> n" using staging_hidden assms(3) by (auto simp: st_def)
  have call: "triple (within w {} {} s0 n b) (syscall V (create_new st)) (\<lambda>j s. staged w s0 n b st j [] s) (within w {} {} s0 n b)"
  proof (rule triple_syscall [OF assms(1,2) stable_within])
    fix s assume P: "within w {} {} s0 n b s"
    then have "wf_spool s" by (simp add: within_def)
    then show "within w {} {} s0 n b (snd (create_new st s))"
      using within_inter [OF P inter_create [OF _ st(2)]] by simp
  qed (erule create_new_staged [OF _ _ st(2)], assumption+)
  show ?case
    unfolding triple_def
  proof (intro allI impI)
    fix s r s' assume P: "within w {} {} s0 n b s" and run: "create_staging_at V m t q (k # ks) s = (r, s')"
    obtain r1 s1 where c: "syscall V (create_new st) s = (r1, s1)" by (cases "syscall V (create_new st) s")
    have "case r1 of Inr j \<Rightarrow> staged w s0 n b st j [] s1 | Inl _ \<Rightarrow> within w {} {} s0 n b s1"
      by (rule tripleD [OF call P c])
    then show "case r of Inr x \<Rightarrow> (case x of (st, j) \<Rightarrow> \<lambda>s. hidden st \<and> staged w s0 n b st j [] s) s' | Inl _ \<Rightarrow> within w {} {} s0 n b s'"
      using run c st tripleD [OF Cons, of s1 r s']
      by (auto simp: st_def Let_def split: sum.splits stop.splits if_splits)
  qed
qed

lemma kept_contents:
  assumes "kept N I s0 s" "sp_next s' = sp_next s" "sp_names s' = sp_names s" "sp_durable s' = sp_durable s"
    "\<And>i. i \<notin> I \<Longrightarrow> sp_data s' i = sp_data s i \<and> sp_synced s' i = sp_synced s i"
  shows "kept N I s0 s'"
  unfolding kept_def assms(2-4)
proof (intro conjI allI impI)
  note d = keptD [OF assms(1)]
  show "sp_next s0 \<le> sp_next s" by (rule d(1))
  fix n i
  show "sp_data s' i = sp_data s0 i" if "i < sp_next s0" "i \<notin> I" using that d(4) assms(5) by simp
  show "sp_synced s' i = Some (sp_data s0 i)" if "i < sp_next s0" "i \<notin> I" "sp_synced s0 i = Some (sp_data s0 i)"
    using that d(5) assms(5) by simp
qed (use keptD [OF assms(1)] in blast)+

lemma append_within:
  assumes "staged w s0 n b st j d s" "st \<noteq> n"
  shows "within w {st} {j} s0 n b (append_data j x s)" "staged w s0 n b st j (d @ x) (append_data j x s)"
proof -
  note s = assms(1) [unfolded staged_def within_def]
  have "sp_names s n \<noteq> Some (File j)" "sp_durable s n \<noteq> Some (File j)" using s assms(2) by blast+
  then have "w \<longrightarrow> untorn (append_data j x s) n b"
    using s by (auto simp: untorn_def append_data_def)
  moreover have "kept {st} {j} s0 (append_data j x s)"
    by (rule kept_contents [of _ _ _ s]) (use s in \<open>auto simp: append_data_def\<close>)
  moreover have "wf_spool (append_data j x s)"
    using s by (simp add: append_data_def wf_spool_def)
  ultimately show "within w {st} {j} s0 n b (append_data j x s)" by (simp add: within_def)
  then show "staged w s0 n b st j (d @ x) (append_data j x s)"
    using s by (simp add: staged_def append_data_def)
qed

lemma write_triple:
  assumes "polite V" "w \<longrightarrow> leaves V n" "st \<noteq> n"
  shows "triple (staged w s0 n b st j []) (write_all V j b) (\<lambda>_. staged w s0 n b st j b) (within w {st} {j} s0 n b)"
  unfolding write_all_def
  by (rule triple_attempt [OF assms(1,2) staged_stable])
    (use append_within [OF _ assms(3), where d = "[]"] in auto)

definition written :: "spool \<Rightarrow> string \<Rightarrow> string \<Rightarrow> bool" where
  "written s n b \<longleftrightarrow> (\<exists>i. sp_names s n = Some (File i) \<and> sp_data s i = b \<and> sp_synced s i = Some b)"

lemma stable_written:
  assumes "stable w n P"
  shows "stable w n (\<lambda>s. P s \<and> written s m d)"
proof (rule stable_conj [OF assms])
  fix s s' assume i: "wf_spool s" "inter w n s s'" "written s m d"
  then obtain i where "sp_names s m = Some (File i)" "sp_data s i = d" "sp_synced s i = Some d"
    by (auto simp: written_def)
  then show "written s' m d" using file_inter [OF i(2,1), of m i] by (auto simp: written_def)
qed

lemma link_within:
  assumes "staged w s0 n b st j b s" "sp_synced s j = Some b" "sp_names s n = None"
  shows "within w {st} {j} s0 n b (s\<lparr>sp_names := (sp_names s)(n := Some (File j))\<rparr>)"
proof -
  note s = assms(1) [unfolded staged_def within_def]
  define s' where "s' = s\<lparr>sp_names := (sp_names s)(n := Some (File j))\<rparr>"
  have j: "j < sp_next s" using s wf_names by blast
  have "kept {st} {j} s0 s'"
    unfolding kept_def
  proof (intro conjI allI impI)
    have k: "kept {st} {j} s0 s" using s by blast
    note d = keptD [OF k]
    show "sp_next s0 \<le> sp_next s'" using d(1) by (simp add: s'_def)
    fix m i
    show "sp_names s' m = Some (File i)" if "m \<notin> {st}" "sp_names s0 m = Some (File i)"
      using that d(2) assms(3) by (auto simp: s'_def)
    show "sp_durable s' m = Some (File i)" if "m \<notin> {st}" "sp_names s0 m = Some (File i)" "sp_durable s0 m = Some (File i)"
      using that d(3) by (simp add: s'_def)
    show "sp_data s' i = sp_data s0 i" if "i < sp_next s0" "i \<notin> {j}" using that d(4) by (simp add: s'_def)
    show "sp_synced s' i = Some (sp_data s0 i)" if "i < sp_next s0" "i \<notin> {j}" "sp_synced s0 i = Some (sp_data s0 i)"
      using that d(5) by (simp add: s'_def)
    show "sp_names s0 m = Some (File i)" if "i < sp_next s0" "i \<notin> {j}" "sp_names s' m = Some (File i)"
      using that d(6) by (auto simp: s'_def split: if_splits)
    show "sp_durable s0 m = Some (File i) \<or> sp_names s0 m = Some (File i)"
      if "i < sp_next s0" "i \<notin> {j}" "sp_durable s' m = Some (File i)"
      using that d(7) by (simp add: s'_def)
  qed
  moreover have "wf_spool s'" using s j by (auto simp: wf_spool_def s'_def)
  moreover have "w \<longrightarrow> untorn s' n b" using s assms(2) by (auto simp: untorn_def s'_def)
  ultimately show ?thesis by (simp add: within_def s'_def)
qed

lemma remove_within:
  assumes "within w {st} {j} s0 n b s" "st \<noteq> n"
  shows "within w {st} {j} s0 n b (snd (remove_file st s))" "written s n b \<Longrightarrow> written (snd (remove_file st s)) n b"
proof -
  note s = assms(1) [unfolded within_def]
  define s' where "s' = snd (remove_file st s)"
  have s': "sp_next s' = sp_next s" "sp_durable s' = sp_durable s" "sp_data s' = sp_data s" "sp_synced s' = sp_synced s"
    "m \<noteq> st \<Longrightarrow> sp_names s' m = sp_names s m" "sp_names s' st = None" for m
    by (auto simp: s'_def remove_file_def)
  have sub: "sp_names s m = Some e" if "sp_names s' m = Some e" for m e
    using that s'(5,6) by (cases "m = st") auto
  have "kept {st} {j} s0 s'"
    unfolding kept_def s'(1-4)
  proof (intro conjI allI impI)
    have k: "kept {st} {j} s0 s" using s by blast
    note d = keptD [OF k]
    show "sp_next s0 \<le> sp_next s" by (rule d(1))
    fix m i
    show "sp_names s' m = Some (File i)" if "m \<notin> {st}" "sp_names s0 m = Some (File i)"
      using that d(2) s'(5) by simp
    show "sp_durable s m = Some (File i)" if "m \<notin> {st}" "sp_names s0 m = Some (File i)" "sp_durable s0 m = Some (File i)"
      using that d(3) by simp
    show "sp_data s i = sp_data s0 i" if "i < sp_next s0" "i \<notin> {j}" using that d(4) by simp
    show "sp_synced s i = Some (sp_data s0 i)" if "i < sp_next s0" "i \<notin> {j}" "sp_synced s0 i = Some (sp_data s0 i)"
      using that d(5) by simp
    show "sp_names s0 m = Some (File i)" if "i < sp_next s0" "i \<notin> {j}" "sp_names s' m = Some (File i)"
      using that d(6) sub by simp
    show "sp_durable s0 m = Some (File i) \<or> sp_names s0 m = Some (File i)"
      if "i < sp_next s0" "i \<notin> {j}" "sp_durable s m = Some (File i)"
      using that d(7) by simp
  qed
  moreover have "wf_spool s'" using s sub by (auto simp: wf_spool_def s')
  moreover have "w \<longrightarrow> untorn s' n b" using s sub by (auto simp: untorn_def s')
  ultimately show "within w {st} {j} s0 n b (snd (remove_file st s))" by (simp add: within_def s'_def)
  show "written s n b \<Longrightarrow> written (snd (remove_file st s)) n b"
    using s'(3-5) assms(2) by (auto simp: written_def s'_def [symmetric])
qed

lemma link_triple:
  assumes "polite V" "w \<longrightarrow> leaves V n" "st \<noteq> n"
  shows "triple (\<lambda>s. staged w s0 n b st j b s \<and> sp_synced s j = Some b) (link_published V mx msg st n b)
    (\<lambda>_ s. within w {st} {j} s0 n b s \<and> written s n b) (within w {st} {j} s0 n b)"
proof -
  define P where "P = (\<lambda>s. staged w s0 n b st j b s \<and> sp_names s st = Some (File j) \<and> sp_data s j = b \<and> sp_synced s j = Some b)"
  define Q where "Q = (\<lambda>s. within w {st} {j} s0 n b s)"
  have P: "stable w n P" unfolding P_def by (rule stable_file(4) [OF staged_stable])
  have PQ: "P s \<Longrightarrow> Q s" for s by (simp add: P_def Q_def staged_def)
  have Q: "stable w n Q" unfolding Q_def by (rule stable_within)
  have linked: "Q (snd (hard_link st n s)) \<and> (fst (hard_link st n s) = Inr () \<longrightarrow> written (snd (hard_link st n s)) n b)" if "P s" for s
    using that PQ [OF that] link_within [of w s0 n b st j s]
    by (auto simp: hard_link_def P_def Q_def written_def)
  have call: "triple P (syscall V (hard_link st n)) (\<lambda>_ s. Q s \<and> written s n b) Q"
  proof (rule triple_syscall [OF assms(1,2) P])
    fix s x s' assume "P s" "hard_link st n s = (Inr x, s')"
    then show "Q s' \<and> written s' n b" using linked [of s] by simp
  qed (use linked PQ in blast)+
  have again: "triple Q (io_bind (io_map_err (\<lambda>_. RuntimeRejectedError) (read_published V mx n)) (\<lambda>existing.
      if existing \<noteq> b then io_err RuntimeRejectedError else sync_published V msg n)) (\<lambda>_ s. Q s \<and> written s n b) Q"
  proof (rule triple_bind [OF triple_map_err [OF read_triple [OF assms(1,2) Q]]])
    fix d
    show "triple (\<lambda>s. Q s \<and> holds s n d) (if d \<noteq> b then io_err RuntimeRejectedError else sync_published V msg n)
        (\<lambda>_ s. Q s \<and> written s n b) Q"
      by (auto intro!: triple_err triple_post [OF sync_triple [OF assms(1,2) Q]] simp: safe_def written_def)
  qed
  have "triple P (link_published V mx msg st n b) (\<lambda>_ s. Q s \<and> written s n b) Q"
    unfolding triple_def
  proof (intro allI impI)
    fix s r s' assume Ps: "P s" and run: "link_published V mx msg st n b s = (r, s')"
    obtain r1 s1 where c: "syscall V (hard_link st n) s = (r1, s1)" by (cases "syscall V (hard_link st n) s")
    have "case r1 of Inr _ \<Rightarrow> Q s1 \<and> written s1 n b | Inl _ \<Rightarrow> Q s1" by (rule tripleD [OF call Ps c])
    then show "case r of Inr x \<Rightarrow> Q s' \<and> written s' n b | Inl _ \<Rightarrow> Q s'"
      using run c tripleD [OF again, of s1 r s']
      by (auto simp: link_published_def split: sum.splits stop.splits if_splits)
  qed
  then show ?thesis
    unfolding Q_def by (rule triple_pre) (auto simp: P_def staged_def)
qed

lemma removing_triple:
  assumes "polite V" "w \<longrightarrow> leaves V n" "st \<noteq> n" "triple P m Q (within w {st} {j} s0 n b)"
  shows "triple P (removing V st m) Q (within w {st} {j} s0 n b)"
  unfolding triple_def
proof (intro allI impI)
  fix s r s' assume P: "P s" and run: "removing V st m s = (r, s')"
  obtain r1 s1 where m: "m s = (r1, s1)" by (cases "m s")
  have 1: "case r1 of Inr x \<Rightarrow> Q x s1 | Inl _ \<Rightarrow> within w {st} {j} s0 n b s1" by (rule tripleD [OF assms(4) P m])
  have rm: "triple (within w {st} {j} s0 n b) (syscall V (remove_file st)) (\<lambda>_. within w {st} {j} s0 n b) (within w {st} {j} s0 n b)"
    by (rule triple_syscall [OF assms(1,2) stable_within]) (use remove_within(1) [OF _ assms(3)] in \<open>force+\<close>)
  obtain r2 s2 where r: "syscall V (remove_file st) s1 = (r2, s2)" by (cases "syscall V (remove_file st) s1")
  show "case r of Inr x \<Rightarrow> Q x s' | Inl _ \<Rightarrow> within w {st} {j} s0 n b s'"
    using run m r 1 tripleD [OF rm _ r] by (auto simp: removing_def split: sum.splits stop.splits)
qed

text \<open>Once the staging file exists.\<close>

lemma staged_body_triple:
  assumes "polite V" "w \<longrightarrow> leaves V n" "st \<noteq> n"
  shows "triple (staged w s0 n b st j [])
     (io_bind (io_map_err g (write_all V j b)) (\<lambda>_.
      io_bind (io_map_err g (syscall V (sync_file j))) (\<lambda>_.
      io_bind (link_published V mx msg st n b) (\<lambda>_.
      io_bind (io_map_err g (syscall V (remove_file st))) (\<lambda>_.
      io_bind (io_map_err g (syscall V open_dir)) (\<lambda>_.
      io_map_err g (syscall V sync_dir)))))))
     (\<lambda>_ s. within w {st} {j} s0 n b s \<and> safe s n b) (within w {st} {j} s0 n b)"
proof -
  define W where "W = within w {st} {j} s0 n b"
  let ?S = "staged w s0 n b st j b"
  let ?C = "\<lambda>s. W s \<and> written s n b"
  have W: "stable w n W" unfolding W_def by (rule stable_within)
  note keep = stable_wf [OF W]
  have C: "stable w n ?C" by (rule stable_written [OF W])
  have SW: "?S s \<Longrightarrow> W s" for s by (simp add: staged_def W_def)
  have 1: "triple (staged w s0 n b st j []) (write_all V j b) (\<lambda>_. ?S) W"
    unfolding W_def by (rule write_triple [OF assms(1-3)])
  have synced: "?S (snd (sync_file j s))" if "?S s" for s
    using stable_wf [OF staged_stable that] inter_sync_file by blast
  have 2: "triple ?S (syscall V (sync_file j)) (\<lambda>_ s. ?S s \<and> sp_synced s j = Some b) W"
  proof (rule triple_syscall [OF assms(1,2) staged_stable])
    fix s :: spool and x s' assume s: "?S s" "sync_file j s = (Inr x, s')"
    then have "sp_data s j = b" by (simp add: staged_def)
    then show "?S s' \<and> sp_synced s' j = Some b" using s synced [of s] by (auto simp: sync_file_def)
  qed (use synced SW in auto)
  have 3: "triple (\<lambda>s. ?S s \<and> sp_synced s j = Some b) (link_published V mx msg st n b) (\<lambda>_. ?C) W"
    unfolding W_def by (rule link_triple [OF assms(1-3)])
  have removed: "W (snd (remove_file st s))" "written (snd (remove_file st s)) n b" if "?C s" for s
    using that remove_within [OF _ assms(3), of w j s0 b s] by (auto simp: W_def)
  have 4: "triple ?C (syscall V (remove_file st)) (\<lambda>_. ?C) W"
  proof (rule triple_syscall [OF assms(1,2) C])
    fix s x s' assume "?C s" "remove_file st s = (Inr x, s')"
    then show "?C s'" using removed [of s] by simp
  qed (use removed in auto)
  have 5: "triple ?C (syscall V open_dir) (\<lambda>_. ?C) W"
    by (rule triple_quiet [OF assms(1,2) C quiet_calls(4)]) auto
  have 6: "triple ?C (syscall V sync_dir) (\<lambda>_ s. W s \<and> safe s n b) W"
  proof (rule triple_syscall [OF assms(1,2) C])
    fix s :: spool and x s' assume "?C s" "sync_dir s = (Inr x, s')"
    then show "W s' \<and> safe s' n b"
      using keep inter_sync_dir [of s w n] by (auto simp: sync_dir_def written_def safe_def)
  next
    fix s assume "?C s" then show "W (snd (sync_dir s))" using keep inter_sync_dir by blast
  qed simp
  show ?thesis
    unfolding W_def [symmetric]
    by (rule triple_bind [OF triple_map_err [OF 1]], rule triple_bind [OF triple_map_err [OF 2]], rule triple_bind [OF 3],
        rule triple_bind [OF triple_map_err [OF 4]], rule triple_bind [OF triple_map_err [OF 5]], rule triple_map_err [OF 6])
qed

lemma write_published_triple:
  assumes "polite V" "w \<longrightarrow> leaves V n" "\<not> hidden n"
  shows "triple (within w {} {} s0 n b) (write_published V mx msg n b)
    (\<lambda>_ s. all_kept w s0 n b s \<and> safe s n b) (all_kept w s0 n b)"
proof -
  let ?W = "within w {} {} s0 n b"
  have create: "triple ?W (create_staging_file V n) (\<lambda>(st, j) s. hidden st \<and> staged w s0 n b st j [] s) ?W"
    unfolding triple_def create_staging_file_def
  proof (intro allI impI)
    fix s r s'
    assume P: "?W s" and run: "create_staging_at V n (pe_nanos V (sp_calls s)) (sp_sequence s) [0..<STAGING_CREATE_ATTEMPTS]
      (s\<lparr>sp_sequence := sp_sequence s + of_nat STAGING_CREATE_ATTEMPTS\<rparr>) = (r, s')"
    have "?W (s\<lparr>sp_sequence := sp_sequence s + of_nat STAGING_CREATE_ATTEMPTS\<rparr>)"
      using P by (simp add: within_def)
    from tripleD [OF create_staging_triple [OF assms] this run]
    show "case r of Inr x \<Rightarrow> (case x of (st, j) \<Rightarrow> \<lambda>s. hidden st \<and> staged w s0 n b st j [] s) s' | Inl _ \<Rightarrow> ?W s'" .
  qed
  have body: "triple (case x of (st, j) \<Rightarrow> \<lambda>s. hidden st \<and> staged w s0 n b st j [] s)
      (case x of (st, file) \<Rightarrow> removing V st (
        io_bind (io_map_err (\<lambda>_. RuntimeUnavailableError msg) (write_all V file b)) (\<lambda>_.
        io_bind (io_map_err (\<lambda>_. RuntimeUnavailableError msg) (syscall V (sync_file file))) (\<lambda>_.
        io_bind (link_published V mx msg st n b) (\<lambda>_.
        io_bind (io_map_err (\<lambda>_. RuntimeUnavailableError msg) (syscall V (remove_file st))) (\<lambda>_.
        io_bind (io_map_err (\<lambda>_. RuntimeUnavailableError msg) (syscall V open_dir)) (\<lambda>_.
        io_map_err (\<lambda>_. RuntimeUnavailableError msg) (syscall V sync_dir))))))))
      (\<lambda>_ s. all_kept w s0 n b s \<and> safe s n b) (all_kept w s0 n b)" for x
  proof -
    obtain st j where x: "x = (st, j)" by (cases x)
    show ?thesis
    proof (cases "hidden st \<and> sp_next s0 \<le> j")
      case True
      then have "st \<noteq> n" using assms(3) by blast
      note t = removing_triple [OF assms(1,2) this staged_body_triple [OF assms(1,2) this]]
      show ?thesis
        unfolding x prod.case
        by (rule triple_pre [OF triple_post [OF t]]) (use True in \<open>auto simp: all_kept_def\<close>)
    qed (auto simp: x triple_def staged_def)
  qed
  show ?thesis
    unfolding write_published_def Let_def
    by (rule triple_bind [OF triple_post [OF triple_map_err [OF create]] body]) (auto intro: all_keptI)
qed

lemma publish_triple:
  assumes "polite V" "w \<longrightarrow> leaves V n" "\<not> hidden n"
  shows "triple (within w {} {} s0 n b) (publish_file (read_published V mx n) (sync_published V msg n) (write_published V mx msg n b) n b)
    (\<lambda>x s. x = n \<and> all_kept w s0 n b s \<and> safe s n b) (all_kept w s0 n b)"
  unfolding triple_def
proof (intro allI impI)
  let ?W = "within w {} {} s0 n b"
  fix s r s' assume P: "?W s" and run: "publish_file (read_published V mx n) (sync_published V msg n) (write_published V mx msg n b) n b s = (r, s')"
  obtain r1 s1 where c: "read_published V mx n s = (r1, s1)" by (cases "read_published V mx n s")
  have 1: "case r1 of Inr d \<Rightarrow> ?W s1 \<and> holds s1 n d | Inl _ \<Rightarrow> ?W s1"
    by (rule tripleD [OF read_triple [OF assms(1,2) stable_within] P c])
  have ok: "triple (\<lambda>s. all_kept w s0 n b s \<and> safe s n b) (io_ok n) (\<lambda>x s. x = n \<and> all_kept w s0 n b s \<and> safe s n b) (all_kept w s0 n b)"
    by (rule triple_ok) simp
  have sync: "triple (\<lambda>s. ?W s \<and> holds s n b) (io_bind (sync_published V msg n) (\<lambda>_. io_ok n))
      (\<lambda>x s. x = n \<and> all_kept w s0 n b s \<and> safe s n b) (all_kept w s0 n b)"
    by (rule triple_bind [OF triple_post [OF sync_triple [OF assms(1,2) stable_within]] ok]) (auto intro: all_keptI)
  have new: "triple ?W (io_bind (write_published V mx msg n b) (\<lambda>_. io_ok n))
      (\<lambda>x s. x = n \<and> all_kept w s0 n b s \<and> safe s n b) (all_kept w s0 n b)"
    by (rule triple_bind [OF write_published_triple [OF assms] ok])
  show "case r of Inr x \<Rightarrow> x = n \<and> all_kept w s0 n b s' \<and> safe s' n b | Inl _ \<Rightarrow> all_kept w s0 n b s'"
    using run c 1 tripleD [OF sync, of s1 r s'] tripleD [OF new, of s1 r s']
    by (auto simp: publish_file_def intro: all_keptI split: sum.splits stop.splits if_splits)
qed

section \<open>When every call works\<close>

definition undisturbed :: "spool_env \<Rightarrow> bool" where
  "undisturbed V \<longleftrightarrow> (\<forall>k. pe_fault V k = Works) \<and> (\<forall>k s. pe_others V k s = s)"

lemma works:
  assumes "undisturbed V"
  shows "attempt V part f s = (case f (s\<lparr>sp_calls := sp_calls s + 1\<rparr>) of
      (Inl k, s2) \<Rightarrow> (Inl (Stopped k), s2) | (Inr x, s2) \<Rightarrow> (Inr x, s2))"
    and "syscall V f s = (case f (s\<lparr>sp_calls := sp_calls s + 1\<rparr>) of
      (Inl k, s2) \<Rightarrow> (Inl (Stopped k), s2) | (Inr x, s2) \<Rightarrow> (Inr x, s2))"
  using assms by (simp_all add: undisturbed_def attempt_def syscall_def others_ran_def)

lemmas io_eval = io_bind_def io_map_err_def io_ok_def io_err_def symlink_metadata_def open_file_def read_to_end_def
  sync_file_def open_dir_def sync_dir_def

lemma staging_works:
  assumes "undisturbed V" "\<exists>k \<in> set ks. sp_names s (staging_name V m t (q + of_nat k)) = None" "\<not> hidden m"
  shows "\<exists>st j s'. create_staging_at V m t q ks s = (Inr (st, j), s') \<and> st \<noteq> m \<and> sp_names s' st = Some (File j)
    \<and> sp_names s' m = sp_names s m \<and> sp_data s' j = []"
  using assms(2)
proof (induction ks arbitrary: s)
  case (Cons k ks)
  define st where "st = staging_name V m t (q + of_nat k)"
  have st: "st \<noteq> m" using staging_hidden [of V m t "q + of_nat k"] assms(3) st_def by metis
  show ?case
  proof (cases "sp_names s st")
    case None
    then show ?thesis using st by (simp add: works [OF assms(1)] create_new_def st_def Let_def)
  next
    case (Some e)
    then have "\<exists>k \<in> set ks. sp_names (s\<lparr>sp_calls := sp_calls s + 1\<rparr>) (staging_name V m t (q + of_nat k)) = None"
      using Cons.prems by (auto simp: st_def)
    from Cons.IH [OF this] Some show ?thesis
      by (simp add: works [OF assms(1)] create_new_def st_def Let_def)
  qed
qed simp

definition can_stage :: "spool_env \<Rightarrow> string \<Rightarrow> spool \<Rightarrow> bool" where
  "can_stage V n s \<longleftrightarrow> (\<exists>k < STAGING_CREATE_ATTEMPTS.
     sp_names s (staging_name V n (pe_nanos V (sp_calls s + 1)) (sp_sequence s + of_nat k)) = None)"

lemma write_works:
  assumes "undisturbed V" "\<not> hidden n" "sp_names s n = None"
    "\<exists>k < STAGING_CREATE_ATTEMPTS. sp_names s (staging_name V n (pe_nanos V (sp_calls s)) (sp_sequence s + of_nat k)) = None"
  shows "\<exists>s'. write_published V mx msg n b s = (Inr (), s')"
proof -
  define s0 where "s0 = s\<lparr>sp_sequence := sp_sequence s + of_nat STAGING_CREATE_ATTEMPTS\<rparr>"
  have "\<exists>k \<in> set [0..<STAGING_CREATE_ATTEMPTS]. sp_names s0 (staging_name V n (pe_nanos V (sp_calls s)) (sp_sequence s + of_nat k)) = None"
    using assms(4) by (auto simp: s0_def)
  from staging_works [OF assms(1) this assms(2)]
  obtain st j s1 where c: "create_staging_file V n s = (Inr (st, j), s1)" "st \<noteq> n" "sp_names s1 st = Some (File j)"
      "sp_names s1 n = None" "sp_data s1 j = []"
    using assms(3) by (auto simp: create_staging_file_def s0_def)
  then show ?thesis
    by (simp add: write_published_def Let_def io_eval removing_def link_published_def write_all_def works [OF assms(1)]
        append_data_def hard_link_def remove_file_def)
qed

lemma publish_works:
  assumes "undisturbed V" "\<not> hidden n" "length b \<le> mx" "sp_names s n = None \<and> can_stage V n s \<or> holds s n b"
  shows "\<exists>s'. publish_file (read_published V mx n) (sync_published V msg n) (write_published V mx msg n b) n b s = (Inr n, s')"
  using assms(4)
proof
  assume a: "sp_names s n = None \<and> can_stage V n s"
  define s1 where "s1 = s\<lparr>sp_calls := sp_calls s + 1\<rparr>"
  have "sp_names s1 n = None" "\<exists>k < STAGING_CREATE_ATTEMPTS. sp_names s1 (staging_name V n (pe_nanos V (sp_calls s1)) (sp_sequence s1 + of_nat k)) = None"
    using a unfolding can_stage_def s1_def by simp_all
  from write_works [OF assms(1,2) this]
  obtain s' where "write_published V mx msg n b (s\<lparr>sp_calls := sp_calls s + 1\<rparr>) = (Inr (), s')"
    unfolding s1_def by blast
  then show ?thesis
    using a by (simp add: publish_file_def read_published_def io_eval works [OF assms(1)])
next
  assume "holds s n b"
  then show ?thesis
    using assms(3) by (auto simp: holds_def publish_file_def read_published_def sync_published_def io_eval works [OF assms(1)])
qed

section \<open>What both runtimes promise\<close>

lemma publish_outcome:
  assumes "polite V" "\<not> hidden n" "wf_spool s"
    "publish_file (read_published V mx n) (sync_published V msg n) (write_published V mx msg n b) n b s = (r, s')"
  shows "r = Inr x \<Longrightarrow> x = n \<and> safe s' n b" "\<exists>st j. hidden st \<and> sp_next s \<le> j \<and> kept {st} {j} s s'"
    "leaves V n \<Longrightarrow> sp_names s n = None \<Longrightarrow> sp_durable s n = None \<Longrightarrow> untorn s' n b"
proof -
  have W: "within False {} {} s n b s" using assms(3) by (simp add: within_def kept_refl)
  note 1 = tripleD [OF publish_triple [OF assms(1) _ assms(2)] W assms(4)]
  show "r = Inr x \<Longrightarrow> x = n \<and> safe s' n b" using 1 by simp
  show "\<exists>st j. hidden st \<and> sp_next s \<le> j \<and> kept {st} {j} s s'"
    using 1 by (auto simp: all_kept_def within_def split: sum.splits)
  assume a: "leaves V n" "sp_names s n = None" "sp_durable s n = None"
  have "within True {} {} s n b s" using assms(3) a by (simp add: within_def kept_refl untorn_def)
  from tripleD [OF publish_triple [OF assms(1) _ assms(2)] this assms(4)] a(1)
  show "untorn s' n b" by (auto simp: all_kept_def within_def split: sum.splits)
qed

text \<open>Published files are undamaged; a name is free; a name is free or holds the complete bytes.\<close>

definition undamaged :: "spool \<Rightarrow> spool \<Rightarrow> bool" where
  "undamaged s s' \<longleftrightarrow> (\<forall>m i. \<not> hidden m \<longrightarrow> sp_names s m = Some (File i) \<longrightarrow>
     sp_names s' m = Some (File i) \<and> sp_data s' i = sp_data s i)"

definition free_name :: "spool \<Rightarrow> string \<Rightarrow> bool" where
  "free_name s n \<longleftrightarrow> sp_names s n = None \<and> sp_durable s n = None"

definition whole :: "spool \<Rightarrow> string \<Rightarrow> string \<Rightarrow> bool" where
  "whole s n b \<longleftrightarrow> sp_names s n = None \<or> holds s n b"

text \<open>The contract of a runtime that hands items over as files: it refuses a handoff without touching
  anything, or publishes the item's bytes under the item's name, which is not a staging name.\<close>

locale drop_point =
  fixes inject :: "spool_env \<Rightarrow> route \<Rightarrow> envelope \<Rightarrow> string \<Rightarrow> (runtime_error, string) io"
    and name_of :: "spool_env \<Rightarrow> string \<Rightarrow> string"
    and bytes_of :: "spool_env \<Rightarrow> string \<Rightarrow> envelope \<Rightarrow> string \<Rightarrow> string"
    and limit :: nat and unavailable :: string
    and acceptable :: "spool_env \<Rightarrow> route \<Rightarrow> envelope \<Rightarrow> string \<Rightarrow> bool"
  assumes visible: "\<not> hidden (name_of V i)"
    and injects: "inject V route e rendered s = (r, s') \<Longrightarrow> r = Inl (Stopped RuntimeRejectedError) \<and> s' = s
      \<or> ro_enabled route \<and> rendered = render (json_codec (pe_crypto V)) e
        \<and> publish_file (read_published V limit (name_of V (en_inbox_item_id e)))
            (sync_published V unavailable (name_of V (en_inbox_item_id e)))
            (write_published V limit unavailable (name_of V (en_inbox_item_id e)) (bytes_of V (ro_runtime_target route) e rendered))
            (name_of V (en_inbox_item_id e)) (bytes_of V (ro_runtime_target route) e rendered) s = (r, s')"
    and accepts: "acceptable V route e rendered \<Longrightarrow> length (bytes_of V (ro_runtime_target route) e rendered) \<le> limit
      \<and> inject V route e rendered = publish_file (read_published V limit (name_of V (en_inbox_item_id e)))
            (sync_published V unavailable (name_of V (en_inbox_item_id e)))
            (write_published V limit unavailable (name_of V (en_inbox_item_id e)) (bytes_of V (ro_runtime_target route) e rendered))
            (name_of V (en_inbox_item_id e)) (bytes_of V (ro_runtime_target route) e rendered)"
    and same_code: "pe_crypto V' = pe_crypto V \<Longrightarrow> name_of V' = name_of V \<and> bytes_of V' = bytes_of V \<and> acceptable V' = acceptable V"
begin

lemma durable_handoff:
  assumes "polite V" "wf_spool s" "inject V route e rendered s = (Inr x, s')" "crashed s' s''"
  shows "ro_enabled route \<and> rendered = render (json_codec (pe_crypto V)) e \<and> x = name_of V (en_inbox_item_id e)
    \<and> holds s'' x (bytes_of V (ro_runtime_target route) e rendered)"
  using injects [OF assms(3)] publish_outcome(1) [OF assms(1) visible assms(2) _ refl] safe_survives [OF _ assms(4)] by blast

lemma atomic_handoff:
  assumes "polite V" "wf_spool s" "inject V route e rendered s = (r, s')" "crashed s' s''"
  shows "undamaged s s' \<and> (leaves V (name_of V (en_inbox_item_id e)) \<and> free_name s (name_of V (en_inbox_item_id e)) \<longrightarrow>
       whole s'' (name_of V (en_inbox_item_id e)) (bytes_of V (ro_runtime_target route) e rendered))"
proof (cases "s' = s")
  case True
  have "sp_names s'' n = sp_names s n \<or> sp_names s'' n = sp_durable s n" for n
    using assms(4) True by (auto simp: crashed_def)
  with True show ?thesis by (auto simp: undamaged_def free_name_def whole_def) metis
next
  case False
  then have run: "publish_file (read_published V limit (name_of V (en_inbox_item_id e)))
            (sync_published V unavailable (name_of V (en_inbox_item_id e)))
            (write_published V limit unavailable (name_of V (en_inbox_item_id e)) (bytes_of V (ro_runtime_target route) e rendered))
            (name_of V (en_inbox_item_id e)) (bytes_of V (ro_runtime_target route) e rendered) s = (r, s')"
    using injects [OF assms(3)] by blast
  note out = publish_outcome [OF assms(1) visible assms(2) run]
  obtain st j where k: "hidden st" "sp_next s \<le> j" "kept {st} {j} s s'" using out(2) by blast
  have "sp_names s' m = Some (File i) \<and> sp_data s' i = sp_data s i" if "\<not> hidden m" "sp_names s m = Some (File i)" for m i
  proof -
    have "m \<noteq> st" using that(1) k(1) by blast
    moreover have "i < sp_next s" using wf_names [OF assms(2) that(2)] .
    ultimately show ?thesis using keptD(2,4) [OF k(3)] that(2) k(2) by auto
  qed
  moreover have "whole s'' (name_of V (en_inbox_item_id e)) (bytes_of V (ro_runtime_target route) e rendered)"
    if "leaves V (name_of V (en_inbox_item_id e))" "free_name s (name_of V (en_inbox_item_id e))"
    using untorn_survives [OF out(3) assms(4)] that by (auto simp: whole_def free_name_def)
  ultimately show ?thesis by (auto simp: undamaged_def)
qed

lemma undisturbed_handoff:
  assumes "undisturbed V" "acceptable V route e rendered" "can_stage V (name_of V (en_inbox_item_id e)) s"
    "whole s (name_of V (en_inbox_item_id e)) (bytes_of V (ro_runtime_target route) e rendered)"
  shows "\<exists>s'. inject V route e rendered s = (Inr (name_of V (en_inbox_item_id e)), s')"
  using accepts [OF assms(2)] publish_works [OF assms(1) visible, of "bytes_of V (ro_runtime_target route) e rendered" limit s V
      "en_inbox_item_id e" unavailable] assms(3,4)
  by (auto simp: whole_def)

lemma retried_handoff:
  assumes first: "polite V" "wf_spool s" "leaves V (name_of V (en_inbox_item_id e))" "free_name s (name_of V (en_inbox_item_id e))"
      "inject V route e rendered s = (r, s')" "crashed s' s''"
    and again: "undisturbed V'" "pe_crypto V' = pe_crypto V" "can_stage V' (name_of V (en_inbox_item_id e)) s''"
      "acceptable V route e rendered"
  shows "undamaged s s' \<and> (\<exists>s3. inject V' route e rendered s'' = (Inr (name_of V (en_inbox_item_id e)), s3))"
  using atomic_handoff [OF first(1,2,5,6)] first(3,4) same_code [OF again(2)] again undisturbed_handoff [of V' route e rendered s'']
  by simp

end

definition file_acceptable :: "spool_env \<Rightarrow> route \<Rightarrow> envelope \<Rightarrow> string \<Rightarrow> bool" where
  "file_acceptable V route e rendered \<longleftrightarrow> ro_enabled route \<and> valid_label MAX_LABEL_BYTES (ro_runtime_target route)
     \<and> rendered = render (json_codec (pe_crypto V)) e \<and> length (spool_bytes V (ro_runtime_target route) e rendered) \<le> MAX_SPOOL_BYTES"

definition muse_acceptable :: "spool_env \<Rightarrow> route \<Rightarrow> envelope \<Rightarrow> string \<Rightarrow> bool" where
  "muse_acceptable V route e rendered \<longleftrightarrow> ro_enabled route \<and> validate_chat_id (ro_runtime_target route)
     \<and> rendered = render (json_codec (pe_crypto V)) e \<and> length (drop_bytes V (ro_runtime_target route) e rendered) \<le> MAX_DROP_BYTES"

lemma same_crypto:
  assumes "pe_crypto V' = pe_crypto V"
  shows "spool_file_name V' = spool_file_name V \<and> spool_bytes V' = spool_bytes V \<and> file_acceptable V' = file_acceptable V"
    and "drop_file_name V' = drop_file_name V \<and> drop_bytes V' = drop_bytes V \<and> muse_acceptable V' = muse_acceptable V"
  by (simp_all add: fun_eq_iff spool_file_name_def spool_bytes_def spool_envelope_def content_sha256_def drop_file_name_def
      drop_bytes_def drop_payload_def file_acceptable_def muse_acceptable_def assms)

interpretation file_spool: drop_point file_inject spool_file_name spool_bytes MAX_SPOOL_BYTES "''file spool unavailable''" file_acceptable
proof
  show "\<not> hidden (spool_file_name V i)" for V i by (simp add: hidden_def spool_file_name_def)
  show "spool_file_name V' = spool_file_name V \<and> spool_bytes V' = spool_bytes V \<and> file_acceptable V' = file_acceptable V" if "pe_crypto V' = pe_crypto V" for V V'
    using that by (rule same_crypto(1))
qed (auto simp: file_inject_def io_err_def Let_def read_spool_file_def sync_spool_file_def write_spool_file_def file_acceptable_def
    split: if_splits)

interpretation muse_drop: drop_point muse_inject drop_file_name drop_bytes MAX_DROP_BYTES "''muse drop point unavailable''" muse_acceptable
proof
  show "\<not> hidden (drop_file_name V i)" for V i by (simp add: hidden_def drop_file_name_def)
  show "drop_file_name V' = drop_file_name V \<and> drop_bytes V' = drop_bytes V \<and> muse_acceptable V' = muse_acceptable V" if "pe_crypto V' = pe_crypto V" for V V'
    using that by (rule same_crypto(2))
qed (auto simp: muse_inject_def io_err_def Let_def read_drop_file_def sync_drop_file_def write_drop_file_def muse_acceptable_def
    split: if_splits)

text \<open>C29. An accepted handoff is durable. When the file runtime or the Muse runtime accepts an item, the route is
  enabled, the text is the item's rendering, and from then on the item's file is there with exactly the
  item's bytes, even after a crash of the machine at that moment. Any system call may fail or kill
  the process, and other processes may add files meanwhile.\<close>

theorem accepted_handoff_is_durable:
  assumes "polite V" "wf_spool s" "crashed s' s''"
  shows "(file_inject V route e rendered s = (Inr x, s') \<longrightarrow> ro_enabled route \<and> rendered = render (json_codec (pe_crypto V)) e
        \<and> x = spool_file_name V (en_inbox_item_id e) \<and> holds s'' x (spool_bytes V (ro_runtime_target route) e rendered))
    \<and> (muse_inject V route e rendered s = (Inr x, s') \<longrightarrow> ro_enabled route \<and> rendered = render (json_codec (pe_crypto V)) e
        \<and> x = drop_file_name V (en_inbox_item_id e) \<and> holds s'' x (drop_bytes V (ro_runtime_target route) e rendered))"
  using file_spool.durable_handoff [OF assms(1,2) _ assms(3)] muse_drop.durable_handoff [OF assms(1,2) _ assms(3)] by blast

text \<open>C30. An interrupted handoff damages nothing and can be repeated. However the first attempt ended, by
  acceptance, refusal, failure at any call or the death of the process, every published file that was there
  is still there with the same contents; and after a crash of the machine at that moment the next attempt
  with working calls is accepted: the item's name, which was free before the first attempt, is never left
  with a torn file that would have to be refused.\<close>

theorem interrupted_handoff_is_retried:
  assumes "polite V" "wf_spool s" "leaves V (spool_file_name V (en_inbox_item_id e))"
    "free_name s (spool_file_name V (en_inbox_item_id e))"
    "file_inject V route e rendered s = (r, s')" "crashed s' s''"
    "undisturbed V'" "pe_crypto V' = pe_crypto V" "can_stage V' (spool_file_name V (en_inbox_item_id e)) s''"
    "file_acceptable V route e rendered"
  shows "undamaged s s' \<and> (\<exists>s3. file_inject V' route e rendered s'' = (Inr (spool_file_name V (en_inbox_item_id e)), s3))"
  by (rule file_spool.retried_handoff [OF assms])

lemma interrupted_drop_is_retried:
  assumes "polite V" "wf_spool s" "leaves V (drop_file_name V (en_inbox_item_id e))"
    "free_name s (drop_file_name V (en_inbox_item_id e))"
    "muse_inject V route e rendered s = (r, s')" "crashed s' s''"
    "undisturbed V'" "pe_crypto V' = pe_crypto V" "can_stage V' (drop_file_name V (en_inbox_item_id e)) s''"
    "muse_acceptable V route e rendered"
  shows "undamaged s s' \<and> (\<exists>s3. muse_inject V' route e rendered s'' = (Inr (drop_file_name V (en_inbox_item_id e)), s3))"
  by (rule muse_drop.retried_handoff [OF assms])

end
