(* ===== verification/Hermes.thy ===== *)
theory Hermes
  imports Spool
begin

text \<open>
  The Hermes runtime (journal-runtime-hermes/src/lib.rs). The HTTP client, URL parser and header library
  are the record \<open>hermes_lib\<close> of parameters; the service may answer anything. A run of a program carries
  the exchanges with the service, so that statements can speak of what was sent.
\<close>

section \<open>Requests to the Runs API\<close>

record url =
  ur_scheme :: string
  ur_host :: "string option"
  ur_username :: string
  ur_password :: "string option"
  ur_path :: string
  ur_query :: "string option"
  ur_fragment :: "string option"

record hermes_request =
  hq_method :: string
  hq_url :: string
  hq_authorization :: "string option"
  hq_idempotency_key :: "string option"
  hq_content_type :: "string option"
  hq_body :: "string option"

text \<open>The body is \<open>None\<close> when reading it fails.\<close>

record hermes_response =
  hs_status :: nat
  hs_content_length :: "nat option"
  hs_body :: "string option"

record 'w hermes_lib =
  hl_parse_url :: "string \<Rightarrow> url option"
  hl_join :: "url \<Rightarrow> string \<Rightarrow> string option"
  hl_header_ok :: "string \<Rightarrow> bool"
  hl_build :: bool
  hl_send :: "hermes_request \<Rightarrow> 'w \<Rightarrow> hermes_response option \<times> 'w"
  hl_json :: json_text

record hermes_runtime =
  hr_base :: url
  hr_api_key :: string

type_synonym exchange = "hermes_request \<times> hermes_response option"

type_synonym ('w, 'a) vendor = "'w \<times> exchange list \<Rightarrow> (runtime_error + 'a) \<times> 'w \<times> exchange list"

definition vendor_ok :: "'a \<Rightarrow> ('w, 'a) vendor" where
  "vendor_ok x w = (Inr x, w)"

definition vendor_err :: "runtime_error \<Rightarrow> ('w, 'a) vendor" where
  "vendor_err e w = (Inl e, w)"

definition vendor_bind :: "('w, 'a) vendor \<Rightarrow> ('a \<Rightarrow> ('w, 'b) vendor) \<Rightarrow> ('w, 'b) vendor" where
  "vendor_bind m f w = (case m w of (Inl e, w') \<Rightarrow> (Inl e, w') | (Inr x, w') \<Rightarrow> f x w')"

definition vendor_lift :: "runtime_error + 'a \<Rightarrow> ('w, 'a) vendor" where
  "vendor_lift r w = (r, w)"

definition vendor_send :: "'w hermes_lib \<Rightarrow> hermes_request \<Rightarrow> runtime_error \<Rightarrow> ('w, hermes_response) vendor" where
  "vendor_send L rq failed = (\<lambda>(x, log). case hl_send L rq x of
     (None, x') \<Rightarrow> (Inl failed, x', log @ [(rq, None)])
   | (Some r, x') \<Rightarrow> (Inr r, x', log @ [(rq, Some r)]))"

definition MAX_VENDOR_BODY_BYTES :: nat where
  "MAX_VENDOR_BODY_BYTES = 64 * 1024"

definition MAX_RUN_ID_BYTES :: nat where
  "MAX_RUN_ID_BYTES = 256"

definition REQUIRED_IDEMPOTENCY_RETENTION_SECONDS :: int where
  "REQUIRED_IDEMPOTENCY_RETENTION_SECONDS = 86400"

definition UNAVAILABLE :: runtime_error where
  "UNAVAILABLE = RuntimeUnavailableError ''Hermes Runs API temporarily unavailable''"

definition validate_base_url :: "'w hermes_lib \<Rightarrow> string \<Rightarrow> runtime_error + url" where
  "validate_base_url L base_url =
     (case hl_parse_url L base_url of
        None \<Rightarrow> Inl RuntimeRejectedError
      | Some base \<Rightarrow>
          let loopback = ur_host base \<in> {Some ''127.0.0.1'', Some ''localhost'', Some ''[::1]'', Some ''::1''} in
          if \<not> (ur_scheme base = ''https'' \<or> ur_scheme base = ''http'' \<and> loopback) \<or> ur_username base \<noteq> []
            \<or> ur_password base \<noteq> None \<or> ur_query base \<noteq> None \<or> ur_fragment base \<noteq> None \<or> ur_path base \<noteq> ''/''
          then Inl RuntimeRejectedError else Inr base)"

definition is_bounded_visible_ascii :: "string \<Rightarrow> nat \<Rightarrow> bool" where
  "is_bounded_visible_ascii v max_bytes \<longleftrightarrow> v \<noteq> [] \<and> length v \<le> max_bytes
     \<and> list_all (\<lambda>c. 0x21 \<le> (of_char c :: nat) \<and> (of_char c :: nat) \<le> 0x7e) v"

definition run_key :: "string \<Rightarrow> runtime_error + string" where
  "run_key inbox_item_id =
     (let key = ''agent-journal:'' @ inbox_item_id in
      if is_bounded_visible_ascii key 255 then Inr key else Inl RuntimeRejectedError)"

definition status_error :: "nat \<Rightarrow> runtime_error" where
  "status_error status = (if status = 429 \<or> 500 \<le> status \<and> status \<le> 599 then UNAVAILABLE else RuntimeRejectedError)"

definition read_body :: "hermes_response \<Rightarrow> runtime_error + string" where
  "read_body response =
     (if (case hs_content_length response of Some n \<Rightarrow> n > MAX_VENDOR_BODY_BYTES | None \<Rightarrow> False) then Inl RuntimeInvalidResponse
      else case hs_body response of
        None \<Rightarrow> Inl UNAVAILABLE
      | Some body \<Rightarrow>
          let body = take (MAX_VENDOR_BODY_BYTES + 1) body in
          if length body > MAX_VENDOR_BODY_BYTES then Inl RuntimeInvalidResponse else Inr body)"

definition send_request :: "'w hermes_lib \<Rightarrow> hermes_runtime \<Rightarrow> string \<Rightarrow> string \<Rightarrow> string option \<Rightarrow> bool \<Rightarrow> string option
    \<Rightarrow> ('w, hermes_response) vendor" where
  "send_request L self method path body authenticated key =
     (case hl_join L (hr_base self) path of
        None \<Rightarrow> vendor_err RuntimeInvalidResponse
      | Some url \<Rightarrow>
          let authorization = ''Bearer '' @ hr_api_key self in
          if authenticated \<and> \<not> hl_header_ok L authorization then vendor_err RuntimeRejectedError
          else if (case key of Some k \<Rightarrow> \<not> hl_header_ok L k | None \<Rightarrow> False) then vendor_err RuntimeRejectedError
          else vendor_send L \<lparr>hq_method = method, hq_url = url,
            hq_authorization = (if authenticated then Some authorization else None), hq_idempotency_key = key,
            hq_content_type = map_option (\<lambda>_. ''application/json'') body, hq_body = body\<rparr> UNAVAILABLE)"

text \<open>\<open>serde_json::Value\<close>: an object keeps the last member of a name.\<close>

fun value_get :: "string \<Rightarrow> json \<Rightarrow> json option" where
  "value_get k (JObj fs) = map_of (rev fs) k"
| "value_get k _ = None"

fun as_bool :: "json \<Rightarrow> bool option" where
  "as_bool (JBool b) = Some b"
| "as_bool _ = None"

fun as_u64 :: "json \<Rightarrow> int option" where
  "as_u64 (JInt i) = (if 0 \<le> i \<and> i < 2 ^ 64 then Some i else None)"
| "as_u64 _ = None"

fun as_str :: "json \<Rightarrow> string option" where
  "as_str (JStr s) = Some s"
| "as_str _ = None"

definition pointer :: "string list \<Rightarrow> json \<Rightarrow> json option" where
  "pointer ks v = fold (\<lambda>k r. Option.bind r (value_get k)) ks (Some v)"

definition durable_runs :: "json \<Rightarrow> bool" where
  "durable_runs v \<longleftrightarrow>
     (let idempotency = pointer [''features'', ''runs_idempotency''] v in
      Option.bind (pointer [''features'', ''run_submission''] v) as_bool = Some True
      \<and> Option.bind (Option.bind idempotency (value_get ''supported'')) as_bool = Some True
      \<and> Option.bind (Option.bind idempotency (value_get ''durable'')) as_bool = Some True
      \<and> (case Option.bind (Option.bind idempotency (value_get ''retention_seconds'')) as_u64 of
           Some seconds \<Rightarrow> seconds \<ge> REQUIRED_IDEMPOTENCY_RETENTION_SECONDS | None \<Rightarrow> False))"

definition parsed :: "'w hermes_lib \<Rightarrow> string \<Rightarrow> runtime_error + json" where
  "parsed L body = (case json_parse (hl_json L) body of None \<Rightarrow> Inl RuntimeInvalidResponse | Some v \<Rightarrow> Inr v)"

definition preflight :: "'w hermes_lib \<Rightarrow> hermes_runtime \<Rightarrow> ('w, unit) vendor" where
  "preflight L self =
     vendor_bind (send_request L self ''GET'' ''/health'' None False None) (\<lambda>health.
     if hs_status health \<noteq> 200 then vendor_err (status_error (hs_status health))
     else
       vendor_bind (vendor_lift (read_body health)) (\<lambda>_.
       vendor_bind (send_request L self ''GET'' ''/v1/capabilities'' None True None) (\<lambda>capabilities.
       if hs_status capabilities \<noteq> 200 then vendor_err (status_error (hs_status capabilities))
       else
         vendor_bind (vendor_lift (read_body capabilities)) (\<lambda>body.
         vendor_bind (vendor_lift (parsed L body)) (\<lambda>v.
         if \<not> durable_runs v then vendor_err RuntimeRejectedError else vendor_ok ())))))"

definition hermes_new :: "'w hermes_lib \<Rightarrow> string \<Rightarrow> string \<Rightarrow> ('w, hermes_runtime) vendor" where
  "hermes_new L base_url api_key =
     vendor_bind (vendor_lift (validate_base_url L base_url)) (\<lambda>base.
     if api_key = [] \<or> list_ex (\<lambda>c. (of_char c :: nat) \<ge> 128) api_key \<or> list_ex (\<lambda>c. (of_char c :: nat) < 0x20) api_key
     then vendor_err RuntimeRejectedError
     else if \<not> hl_build L then vendor_err UNAVAILABLE
     else
       let runtime = \<lparr>hr_base = base, hr_api_key = api_key\<rparr> in
       vendor_bind (preflight L runtime) (\<lambda>_. vendor_ok runtime))"

definition validate_session_id :: "string \<Rightarrow> runtime_error + unit" where
  "validate_session_id session_id = (if valid_label 255 session_id then Inr () else Inl RuntimeRejectedError)"

definition ensure_session :: "'w hermes_lib \<Rightarrow> hermes_runtime \<Rightarrow> string \<Rightarrow> ('w, unit) vendor" where
  "ensure_session L self session_id =
     vendor_bind (vendor_lift (validate_session_id session_id)) (\<lambda>_.
     vendor_bind (send_request L self ''POST'' ''/api/sessions''
       (Some (json_print (hl_json L) (JObj [(''id'', JStr session_id)]))) True None) (\<lambda>response.
     if hs_status response = 201 \<or> hs_status response = 409
     then vendor_bind (vendor_lift (read_body response)) (\<lambda>_. vendor_ok ())
     else vendor_err (status_error (hs_status response))))"

definition run_body :: "'w hermes_lib \<Rightarrow> string \<Rightarrow> string \<Rightarrow> string" where
  "run_body L session_id rendered =
     json_print (hl_json L) (JObj [(''input'', JStr rendered), (''session_id'', JStr session_id)])"

definition hermes_inject :: "'w hermes_lib \<Rightarrow> hermes_runtime \<Rightarrow> route \<Rightarrow> envelope \<Rightarrow> string \<Rightarrow> ('w, string) vendor" where
  "hermes_inject L self route e rendered =
     (if \<not> ro_enabled route then vendor_err RuntimeRejectedError
      else
        vendor_bind (vendor_lift (validate_session_id (ro_runtime_target route))) (\<lambda>_.
        vendor_bind (vendor_lift (run_key (en_inbox_item_id e))) (\<lambda>key.
        vendor_bind (ensure_session L self (ro_runtime_target route)) (\<lambda>_.
        vendor_bind (send_request L self ''POST'' ''/v1/runs'' (Some (run_body L (ro_runtime_target route) rendered)) True
          (Some key)) (\<lambda>response.
        if hs_status response \<noteq> 202 then vendor_err (status_error (hs_status response))
        else
          vendor_bind (vendor_lift (read_body response)) (\<lambda>body.
          vendor_bind (vendor_lift (parsed L body)) (\<lambda>v.
          case Option.bind (value_get ''run_id'' v) as_str of
            None \<Rightarrow> vendor_err RuntimeInvalidResponse
          | Some run_id \<Rightarrow>
              if is_bounded_visible_ascii run_id MAX_RUN_ID_BYTES then vendor_ok run_id
              else vendor_err RuntimeInvalidResponse)))))))"

section \<open>What Hermes was asked\<close>

lemma vendor_bind_Inr: "vendor_bind m f w = (Inr y, w') \<longleftrightarrow> (\<exists>x w1. m w = (Inr x, w1) \<and> f x w1 = (Inr y, w'))"
  by (auto simp: vendor_bind_def split: prod.splits sum.splits)

lemma vendor_lift_Inr: "vendor_lift r w = (Inr y, w') \<longleftrightarrow> r = Inr y \<and> w' = w"
  by (auto simp: vendor_lift_def)

lemma vendor_pure_Inr: "vendor_ok x w = (Inr y, w') \<longleftrightarrow> y = x \<and> w' = w" "vendor_err e w \<noteq> (Inr y, w')"
  by (auto simp: vendor_ok_def vendor_err_def)

lemma send_request_Inr:
  assumes "send_request L self method path body auth key (x, log) = (Inr r, x', log')"
  shows "\<exists>rq. log' = log @ [(rq, Some r)] \<and> hq_method rq = method \<and> hl_join L (hr_base self) path = Some (hq_url rq)
    \<and> hq_body rq = body \<and> hq_idempotency_key rq = key"
  using assms
  by (auto simp: send_request_def vendor_send_def Let_def vendor_pure_Inr split: option.splits if_splits prod.splits)

lemma read_body_ok:
  assumes "hs_body response = Some body" "length body \<le> MAX_VENDOR_BODY_BYTES" "pred_option (\<lambda>n. n \<le> MAX_VENDOR_BODY_BYTES) (hs_content_length response)"
  shows "read_body response = Inr body"
  using assms by (auto simp: read_body_def Let_def split: option.splits)

lemmas vendor_simps = vendor_bind_Inr vendor_lift_Inr vendor_pure_Inr

text \<open>C31. A handoff to Hermes that is accepted was admitted as a run. The last exchange with the
  service is the submission of the item's rendered text to the route's session, under the idempotency
  key made of the item's id alone; the service answered it with 202 and the run identifier that is
  the receipt, which is visible ASCII of at most 256 bytes.\<close>

theorem hermes_handoff_was_admitted:
  assumes "hermes_inject L self route e rendered (x, log) = (Inr run_id, x', log')"
  shows "ro_enabled route \<and> is_bounded_visible_ascii run_id MAX_RUN_ID_BYTES
    \<and> (\<exists>rq r body v. last log' = (rq, Some r) \<and> hq_method rq = ''POST'' \<and> hl_join L (hr_base self) ''/v1/runs'' = Some (hq_url rq)
        \<and> hq_body rq = Some (run_body L (ro_runtime_target route) rendered)
        \<and> hq_idempotency_key rq = Some (''agent-journal:'' @ en_inbox_item_id e)
        \<and> hs_status r = 202 \<and> read_body r = Inr body \<and> json_parse (hl_json L) body = Some v
        \<and> value_get ''run_id'' v = Some (JStr run_id))"
proof -
  have enabled: "ro_enabled route" using assms by (cases "ro_enabled route") (simp_all add: hermes_inject_def vendor_pure_Inr)
  obtain k x1 log1 r body v where st: "run_key (en_inbox_item_id e) = Inr k"
      "send_request L self ''POST'' ''/v1/runs'' (Some (run_body L (ro_runtime_target route) rendered)) True (Some k) (x1, log1)
        = (Inr r, x', log')"
      "hs_status r = 202" "read_body r = Inr body" "parsed L body = Inr v"
      "(case Option.bind (value_get ''run_id'' v) as_str of
            None \<Rightarrow> vendor_err RuntimeInvalidResponse
          | Some run_id \<Rightarrow>
              if is_bounded_visible_ascii run_id MAX_RUN_ID_BYTES then vendor_ok run_id
              else vendor_err RuntimeInvalidResponse) (x', log') = (Inr run_id, x', log')"
    using assms enabled
    by (auto simp: hermes_inject_def vendor_simps split: if_splits option.splits)
  have k: "k = ''agent-journal:'' @ en_inbox_item_id e" using st(1) by (auto simp: run_key_def Let_def split: if_splits)
  obtain j where j: "value_get ''run_id'' v = Some j" "as_str j = Some run_id" "is_bounded_visible_ascii run_id MAX_RUN_ID_BYTES"
    using st(6) by (auto simp: bind_eq_Some_conv vendor_pure_Inr split: option.splits if_splits)
  then have "j = JStr run_id" by (cases j) auto
  moreover have "json_parse (hl_json L) body = Some v" using st(5) by (auto simp: parsed_def split: option.splits)
  ultimately show ?thesis using enabled st(3,4) j send_request_Inr [OF st(2)] unfolding k by fastforce
qed

text \<open>Two items never share an idempotency key, and an item keeps its key however often it is retried.\<close>

lemma run_key_injective: "run_key i = Inr k \<Longrightarrow> run_key j = Inr k \<Longrightarrow> i = j"
  by (auto simp: run_key_def Let_def split: if_splits)

text \<open>A runtime exists only after the service said that it keeps idempotency keys durably for at least a day.\<close>

lemma hermes_needs_durable_runs:
  assumes "hermes_new L base_url api_key w = (Inr self, x', log')"
  shows "\<exists>r body v. read_body r = Inr body \<and> (\<exists>rq. last log' = (rq, Some r)) \<and> json_parse (hl_json L) body = Some v \<and> durable_runs v
    \<and> validate_base_url L base_url = Inr (hr_base self)"
  using assms
  by (cases w) (fastforce simp: hermes_new_def preflight_def vendor_simps Let_def parsed_def split: if_splits option.splits
      dest!: send_request_Inr)

end
