(* ===== verification/Sample_Worker.thy ===== *)
theory Sample_Worker
  imports Samples Worker_Cli Hermes
begin

text \<open>
  A worker at work: an inbox of two items, a runtime that accepts everything, and the worker's
  properties applied to a few ticks.
\<close>

definition literal_json :: json_text where
  "literal_json = \<lparr>json_print = (\<lambda>v. case v of JStr s \<Rightarrow> CHR 0x22 # hex (as_bytes s) @ [CHR 0x22] | _ \<Rightarrow> ''null''),
     json_parse = (\<lambda>_. None)\<rparr>"

lemma hex_one_line: "CHR 0x0A \<notin> set (hex bs)"
proof (induction bs)
  case (Cons b bs)
  have "\<not> is_lower_hex CHR 0x0A" by code_simp
  then have "hi b \<noteq> CHR 0x0A" "lo b \<noteq> CHR 0x0A"
    using nibbles [of b] by metis+
  with Cons show ?case by auto
qed simp

lemma literal_json_literals: "string_literals literal_json"
proof -
  have "hex (as_bytes s) = hex (as_bytes t) \<Longrightarrow> s = t" for s t
    by (metis unhex_hex option.inject of_bytes_as_bytes)
  then show ?thesis
    by (auto simp: string_literals_def quoted_def literal_json_def inj_def hex_one_line)
qed

definition work_record :: journal_record where
  "work_record = \<lparr>r_id = ''r'', r_space_id = ''s'', r_seq = 1, r_author = ''a'', r_kind = ''note'', r_content = ''hi'',
     r_run_id = None, r_created_at = ''t0'', r_attention = [''b''], r_routing_key = None, r_relations = [], r_title = None\<rparr>"

definition work_item :: "string \<Rightarrow> inbox_item" where
  "work_item i = \<lparr>ii_inbox_item_id = i, ii_recipient = ''b'', ii_seq = 1, ii_created_at = ''t0'',
     ii_acknowledged_at = None, ii_record = work_record\<rparr>"

definition work_inbox :: "unit inbox_trait" where
  "work_inbox = \<lparr>tr_fetch = (\<lambda>_ x. (Inr \<lparr>items = [work_item ''i1'', work_item ''i2''], next_cursor = None\<rparr>, x)),
     tr_acknowledge = (\<lambda>_ x. (Inr (), x))\<rparr>"

definition work_runtime :: "unit runtime" where
  "work_runtime = (\<lambda>_ _ _ x. (Inr ''accepted'', x))"

definition work_routes :: static_routes where
  "work_routes = [(''s/default'', \<lparr>ro_key = ''default'', ro_runtime_target = ''agent'', ro_enabled = True\<rparr>)]"

definition work_second :: worker where
  "work_second = worker_new\<lparr>wk_page := [work_item ''i2'']\<rparr>"

lemmas work_eval = tick_def tick_page_def retry_pending_def refill_def serve_item_def hand_off_def acknowledge_def
  set_aside_def opt_list_def bt_remove_def bt_get_def find_route_def envelope_key_def from_item_def Let_def
  worker_new_def work_routes_def work_item_def work_record_def retry_default_def
  PAGE_LIMIT_def PENDING_LIMIT_def work_inbox_def work_runtime_def

lemma work_tick:
  "tick literal_json work_inbox work_runtime work_routes 5 (worker_new, ())
     = (Inr [acknowledged_event (work_item ''i1'')], work_second, ())"
  by (simp add: work_eval acknowledged_event_def work_second_def)

theorem worker_stays_within_bounds_witness:
  "tick literal_json work_inbox work_runtime work_routes 5 (worker_new, ())
     = (Inr [acknowledged_event (work_item ''i1'')], work_second, ()) \<and> worker_ok work_second"
  using work_tick worker_stays_within_bounds [OF ticked [OF started work_tick]] by simp

lemma work_recorded_tick:
  "tick literal_json (recorded_inbox work_inbox) (recorded_runtime work_runtime) work_routes 5 (worker_new, (), [])
     = (Inr [acknowledged_event (work_item ''i1'')], work_second, (),
        [Handed ''i1'' (snd (hd work_routes)), Acked ''i1''])"
  by (simp add: work_eval acknowledged_event_def work_second_def recorded_inbox_def recorded_runtime_def)

theorem acknowledged_only_after_handoff_witness:
  "tick literal_json (recorded_inbox work_inbox) (recorded_runtime work_runtime) work_routes 5 (worker_new, (), [])
     = (Inr [acknowledged_event (work_item ''i1'')], work_second, (),
        [Handed ''i1'' (snd (hd work_routes)), Acked ''i1''])
    \<and> calls_ok work_routes [Handed ''i1'' (snd (hd work_routes)), Acked ''i1'']"
  using work_recorded_tick
    acknowledged_only_after_handoff [OF ticked [OF started work_recorded_tick]] by simp

definition unrouted :: worker where
  "unrouted = worker_new\<lparr>wk_page := [work_item ''i2''],
     wk_failures := [(''i1'', \<lparr>rt_failures = 1, rt_after = from_secs 1\<rparr>)]\<rparr>"

lemma unrouted_tick:
  "tick literal_json work_inbox work_runtime [] 0 (worker_new, ())
     = (Inr [\<lparr>ev_item_id = Some ''i1'', ev_kind = RouteUnavailable\<rparr>], unrouted, ())"
  by (simp add: work_eval unrouted_def record_failure_def FAILURE_LIMIT_def retry_fail_def saturating_add_def
      DURATION_MAX_def from_secs_def)


definition work_envelope :: envelope where
  "work_envelope = from_item (work_item ''i1'')"

theorem render_is_unambiguous_witness:
  "string_literals literal_json
    \<and> render literal_json work_envelope \<noteq> render literal_json (work_envelope\<lparr>en_from_principal := ''mallory''\<rparr>)"
  using literal_json_literals
    render_is_unambiguous [OF literal_json_literals, of work_envelope "work_envelope\<lparr>en_from_principal := ''mallory''\<rparr>"]
  by (auto simp: work_envelope_def work_eval)

definition work_args :: "string list" where
  "work_args = [''--central-endpoint'', ''http://localhost'', ''--credential-file'', ''c'', ''--routes-json'', ''r'',
     ''--poll-seconds'', ''7'', ''--once'']"

definition work_given :: "(string, string) btree_map" where
  "work_given = [(''--central-endpoint'', ''http://localhost''), (''--credential-file'', ''c''), (''--once'', []),
     (''--poll-seconds'', ''7''), (''--routes-file'', ''r'')]"

definition work_config :: config where
  "work_config = \<lparr>cf_endpoint = ''http://localhost'', cf_credential_file = ''c'', cf_routes_file = ''r'',
     cf_once = True, cf_poll = from_secs 7, cf_wait_seconds = 0\<rparr>"

lemma ascii_utf8: "list_all (\<lambda>c. (of_char c :: nat) < 128) s \<Longrightarrow> valid_utf8 s"
proof -
  assume a: "list_all (\<lambda>c. (of_char c :: nat) < 128) s"
  then have "utf8_encode (map of_char s) = s"
    by (induction s) (auto simp: utf8_encode_def utf8_encode_char_def)
  moreover have "list_all is_scalar (map of_char s)"
    using a by (induction s) (auto simp: is_scalar_def)
  ultimately show ?thesis using valid_utf8_encode by metis
qed

lemma work_utf8: "list_all valid_utf8 work_args"
  by (simp add: work_args_def ascii_utf8)

lemma work_options: "options work_args [] = Inr work_given"
  using work_utf8
  by (simp add: options_def work_args_def canonical_flag_def add_option_def bt_get_def value_flags_def work_given_def)

lemma work_from_options: "from_options work_given = Inr work_config"
  by (simp add: from_options_def seconds_option_def work_given_def bt_get_def required_def parse_unsigned_def
      is_digit_def digits_value_def ok_or_def work_config_def MAX_INBOX_WAIT_SECONDS_def)

section \<open>Handing over a file\<close>

text \<open>An empty directory, a process that is killed right after it linked the file, and one whose calls all
  work; the crash loses everything that was not durable.\<close>

definition empty_spool :: spool where
  "empty_spool = \<lparr>sp_names = (\<lambda>_. None), sp_durable = (\<lambda>_. None), sp_data = (\<lambda>_. []), sp_synced = (\<lambda>_. None),
     sp_next = 0, sp_calls = 0, sp_sequence = 0\<rparr>"

definition spool_run :: "(nat \<Rightarrow> fault) \<Rightarrow> spool_env" where
  "spool_run fault = \<lparr>pe_fault = fault, pe_others = (\<lambda>_ s. s), pe_written = (\<lambda>_. 3), pe_nanos = (\<lambda>k. k + 1000),
     pe_process_id = 7, pe_crypto = sample_crypto\<rparr>"

definition spool_route :: route where
  "spool_route = \<lparr>ro_key = ''default'', ro_runtime_target = ''totoro'', ro_enabled = True\<rparr>"

definition loses_volatile :: "spool \<Rightarrow> spool" where
  "loses_volatile s = s\<lparr>sp_names := sp_durable s\<rparr>"

lemma spool_run_polite: "polite (spool_run f)" "leaves (spool_run f) n" "undisturbed (spool_run (\<lambda>_. Works))"
  by (simp_all add: polite_def leaves_def undisturbed_def spool_run_def kept_refl)

lemma empty_spool_ok: "wf_spool empty_spool" "free_name empty_spool n"
  by (simp_all add: wf_spool_def free_name_def empty_spool_def)

lemma loses_volatile_crash: "crashed s (loses_volatile s)"
  by (simp add: crashed_def loses_volatile_def)

abbreviation work_rendered :: string where
  "work_rendered \<equiv> render sample_json work_envelope"

lemma spool_acceptable: "file_acceptable (spool_run f) spool_route work_envelope work_rendered"
proof -
  have "length (spool_bytes (spool_run (\<lambda>_. Works)) ''totoro'' work_envelope work_rendered) \<le> 2000" by code_simp
  moreover have "valid_label MAX_LABEL_BYTES ''totoro''" by code_simp
  ultimately have "file_acceptable (spool_run (\<lambda>_. Works)) spool_route work_envelope work_rendered"
    by (simp add: file_acceptable_def spool_route_def MAX_SPOOL_BYTES_def MAX_CONTENT_BYTES_def spool_run_def sample_crypto_def)
  then show ?thesis using same_crypto(1) [of "spool_run f" "spool_run (\<lambda>_. Works)"] by (simp add: spool_run_def)
qed

lemma can_stage_empty: "sp_names s = (\<lambda>_. None) \<Longrightarrow> can_stage V n s"
  by (auto simp: can_stage_def STAGING_CREATE_ATTEMPTS_def intro: exI [of _ 0])

theorem accepted_handoff_is_durable_witness:
  "\<exists>s'. file_inject (spool_run (\<lambda>_. Works)) spool_route work_envelope work_rendered empty_spool
      = (Inr (spool_file_name (spool_run (\<lambda>_. Works)) (en_inbox_item_id work_envelope)), s')
    \<and> holds (loses_volatile s') (spool_file_name (spool_run (\<lambda>_. Works)) (en_inbox_item_id work_envelope))
        (spool_bytes (spool_run (\<lambda>_. Works)) ''totoro'' work_envelope work_rendered)"
proof -
  obtain s' where run: "file_inject (spool_run (\<lambda>_. Works)) spool_route work_envelope work_rendered empty_spool
      = (Inr (spool_file_name (spool_run (\<lambda>_. Works)) (en_inbox_item_id work_envelope)), s')"
    using file_spool.undisturbed_handoff [OF spool_run_polite(3) spool_acceptable can_stage_empty, of empty_spool]
    by (auto simp: empty_spool_def whole_def)
  then have "holds (loses_volatile s') (spool_file_name (spool_run (\<lambda>_. Works)) (en_inbox_item_id work_envelope))
      (spool_bytes (spool_run (\<lambda>_. Works)) (ro_runtime_target spool_route) work_envelope work_rendered)"
    using accepted_handoff_is_durable [OF spool_run_polite(1) empty_spool_ok(1) loses_volatile_crash [of s'],
        of "\<lambda>_. Works" spool_route work_envelope work_rendered] by blast
  then show ?thesis using run by (auto simp: spool_route_def)
qed

definition killed_at_link :: spool_env where
  "killed_at_link = spool_run (\<lambda>k. if k = 4 then KilledAfter else Works)"

lemma killed_publication:
  assumes "\<not> hidden n"
  shows "\<exists>s'. publish_file (read_published killed_at_link mx n) y (write_published killed_at_link mx msg n b) n b empty_spool = (Inl Died, s')
    \<and> sp_durable s' = (\<lambda>_. None)"
proof -
  define st where "st = staging_name killed_at_link n 1001 0"
  have st: "st \<noteq> n" using staging_hidden assms st_def by metis
  have loop: "[0..<STAGING_CREATE_ATTEMPTS] = 0 # [1..<STAGING_CREATE_ATTEMPTS]"
    by (simp add: STAGING_CREATE_ATTEMPTS_def upt_conv_Cons)
  show ?thesis
    using st
    by (simp add: publish_file_def read_published_def write_published_def create_staging_file_def loop io_eval removing_def
        link_published_def write_all_def append_data_def hard_link_def create_new_def attempt_def syscall_def others_ran_def Let_def
        killed_at_link_def spool_run_def empty_spool_def st_def)
qed

theorem interrupted_handoff_is_retried_witness:
  "\<exists>s' s3. file_inject killed_at_link spool_route work_envelope work_rendered empty_spool = (Inl Died, s')
    \<and> file_inject (spool_run (\<lambda>_. Works)) spool_route work_envelope work_rendered (loses_volatile s')
      = (Inr (spool_file_name killed_at_link (en_inbox_item_id work_envelope)), s3)"
proof -
  have acceptable: "file_acceptable killed_at_link spool_route work_envelope work_rendered"
    unfolding killed_at_link_def by (rule spool_acceptable)
  obtain s' where run: "file_inject killed_at_link spool_route work_envelope work_rendered empty_spool = (Inl Died, s')"
    and lost: "sp_durable s' = (\<lambda>_. None)"
    using file_spool.accepts [OF acceptable] killed_publication [OF file_spool.visible] by metis
  have "can_stage (spool_run (\<lambda>_. Works)) (spool_file_name killed_at_link (en_inbox_item_id work_envelope)) (loses_volatile s')"
    by (rule can_stage_empty) (simp add: loses_volatile_def lost)
  then show ?thesis
    using interrupted_handoff_is_retried [of killed_at_link empty_spool work_envelope spool_route work_rendered "Inl Died" s'
        "loses_volatile s'" "spool_run (\<lambda>_. Works)"] run empty_spool_ok spool_run_polite loses_volatile_crash acceptable
    by (auto simp: killed_at_link_def spool_run_def)
qed

section \<open>Handing over to Hermes\<close>

text \<open>A service that admits every session and every run.\<close>

definition hermes_sample :: "unit hermes_lib" where
  "hermes_sample = \<lparr>hl_parse_url = (\<lambda>_. None), hl_join = (\<lambda>_ path. Some (''http://localhost'' @ path)), hl_header_ok = (\<lambda>_. True),
     hl_build = True,
     hl_send = (\<lambda>rq x. (Some (if hq_idempotency_key rq = None
        then \<lparr>hs_status = 201, hs_content_length = None, hs_body = Some []\<rparr>
        else \<lparr>hs_status = 202, hs_content_length = Some 20,
          hs_body = Some (print_json (JObj [(''run_id'', JStr ''run1'')]))\<rparr>), x)),
     hl_json = sample_json\<rparr>"

definition hermes_self :: hermes_runtime where
  "hermes_self = \<lparr>hr_base = \<lparr>ur_scheme = ''http'', ur_host = Some ''localhost'', ur_username = [], ur_password = None,
     ur_path = ''/'', ur_query = None, ur_fragment = None\<rparr>, hr_api_key = ''key''\<rparr>"

theorem hermes_handoff_was_admitted_witness:
  "\<exists>log. hermes_inject hermes_sample hermes_self spool_route work_envelope ''text'' ((), []) = (Inr ''run1'', (), log)
    \<and> (\<exists>rq r. last log = (rq, Some r) \<and> hs_status r = 202 \<and> hq_idempotency_key rq = Some ''agent-journal:i1'')"
proof -
  have item: "en_inbox_item_id work_envelope = ''i1''" by code_simp
  have short: "length (print_json (JObj [(''run_id'', JStr ''run1'')])) \<le> 100" by code_simp
  have parse: "json_parse sample_json (print_json (JObj [(''run_id'', JStr ''run1'')])) = Some (JObj [(''run_id'', JStr ''run1'')])"
    by code_simp
  have ok: "read_body \<lparr>hs_status = 201, hs_content_length = None, hs_body = Some []\<rparr> = Inr []"
    "read_body \<lparr>hs_status = 202, hs_content_length = Some 20, hs_body = Some (print_json (JObj [(''run_id'', JStr ''run1'')]))\<rparr>
      = Inr (print_json (JObj [(''run_id'', JStr ''run1'')]))"
    by (rule read_body_ok; use short in \<open>simp add: MAX_VENDOR_BODY_BYTES_def\<close>)+
  have "valid_label 255 ''totoro''" "run_key ''i1'' = Inr ''agent-journal:i1''" "is_bounded_visible_ascii ''run1'' MAX_RUN_ID_BYTES"
    by code_simp+
  then have "\<exists>log. hermes_inject hermes_sample hermes_self spool_route work_envelope ''text'' ((), []) = (Inr ''run1'', (), log)"
    using ok parse
    by (simp add: hermes_inject_def spool_route_def item vendor_bind_def vendor_lift_def vendor_ok_def ensure_session_def
        validate_session_id_def send_request_def vendor_send_def hermes_sample_def parsed_def)
  then obtain log where run: "hermes_inject hermes_sample hermes_self spool_route work_envelope ''text'' ((), []) = (Inr ''run1'', (), log)"
    by blast
  then show ?thesis
    using hermes_handoff_was_admitted [OF run] item by auto
qed

end
