(* ===== verification/Refinement.thy ===== *)
theory Refinement
  imports Service
begin

text \<open>
  What the service promises, without tables, credentials or transactions: a log of records and an
  inbox per principal. A record is added at the end of the log with the next number of its space and
  put into the inbox of each of its recipients; an inbox entry can be marked as acknowledged; nothing
  else ever happens. The service refines this machine: the database is mapped to the log and the
  inboxes it stores, and every request, whatever it does and however it fails, maps to steps of the
  machine.
\<close>

section \<open>The abstract journal\<close>

record journal =
  jn_log :: "journal_record list"
  jn_inbox :: "string \<Rightarrow> (string \<times> bool) list"

definition in_space_log :: "journal \<Rightarrow> string \<Rightarrow> journal_record list" where
  "in_space_log J space = filter (\<lambda>r. r_space_id r = space) (jn_log J)"

definition add_record :: "journal_record \<Rightarrow> journal \<Rightarrow> journal" where
  "add_record r J = J\<lparr>jn_log := jn_log J @ [r],
     jn_inbox := (\<lambda>p. jn_inbox J p @ (if p \<in> set (r_attention r) then [(r_id r, False)] else []))\<rparr>"

definition mark :: "string \<Rightarrow> string \<Rightarrow> journal \<Rightarrow> journal" where
  "mark p i J = J\<lparr>jn_inbox := (jn_inbox J)(p := map (\<lambda>(r, acked). (r, acked \<or> r = i)) (jn_inbox J p))\<rparr>"

text \<open>A record refers only to records already in the log of its space.\<close>

inductive journal_step :: "journal \<Rightarrow> journal \<Rightarrow> bool" where
  append: "\<lbrakk>r_id r \<notin> r_id ` set (jn_log J); r_seq r = int (length (in_space_log J (r_space_id r))) + 1;
    distinct (r_attention r); rl_record_id ` set (r_relations r) \<subseteq> r_id ` set (in_space_log J (r_space_id r))\<rbrakk>
    \<Longrightarrow> journal_step J (add_record r J)"
| acknowledge: "i \<in> fst ` set (jn_inbox J p) \<Longrightarrow> journal_step J (mark p i J)"

inductive_cases journal_step_cases: "journal_step J J'"

section \<open>The abstraction\<close>

definition record_at :: "db \<Rightarrow> record_row \<Rightarrow> journal_record" where
  "record_at d row = projr (record_of d (rc_id row))"

definition inbox_of :: "db \<Rightarrow> string \<Rightarrow> mailbox_row list" where
  "inbox_of d p = filter (\<lambda>m. mi_recipient m = p) (mailbox_items d)"

definition abstract :: "db \<Rightarrow> journal" where
  "abstract d = \<lparr>jn_log = map (record_at d) (records d),
     jn_inbox = (\<lambda>p. map (\<lambda>m. (mi_record_id m, mi_acknowledged_at m \<noteq> None)) (inbox_of d p))\<rparr>"

text \<open>The numbers of a space and of an inbox have no gaps.\<close>

definition counting :: "int list \<Rightarrow> bool" where
  "counting xs \<longleftrightarrow> xs = map (\<lambda>k. int k + 1) [0..<length xs]"

definition space_rows :: "db \<Rightarrow> string \<Rightarrow> record_row list" where
  "space_rows d space = filter (\<lambda>r. rc_space_id r = space) (records d)"

definition gapless :: "db \<Rightarrow> bool" where
  "gapless d \<longleftrightarrow> (\<forall>space. counting (map rc_space_seq (space_rows d space)))
     \<and> (\<forall>p. counting (map mi_seq (inbox_of d p)) \<and> inbox_head d p = int (length (inbox_of d p)))"

lemma counting_snoc: "counting (xs @ [x]) \<longleftrightarrow> counting xs \<and> x = int (length xs) + 1"
  by (auto simp: counting_def)

lemma counting_Nil [simp]: "counting []"
  by (simp add: counting_def)

lemma counting_max: "counting xs \<Longrightarrow> fold max xs 0 = int (length xs)"
proof (induction xs rule: rev_induct)
  case (snoc x xs)
  then show ?case by (simp add: counting_snoc)
qed simp

lemma gapless_space_head: "gapless d \<Longrightarrow> space_head d space = int (length (space_rows d space))"
  using counting_max [of "map rc_space_seq (space_rows d space)"] by (simp add: gapless_def space_head_def space_rows_def)

section \<open>Requests that leave the journal alone\<close>

definition same_book :: "db \<Rightarrow> db \<Rightarrow> bool" where
  "same_book d d' \<longleftrightarrow> same_journal d d' \<and> mailbox_items d' = mailbox_items d \<and> inbox_sequences d' = inbox_sequences d"

interpretation same: db_step_order same_book
  by unfold_locales (auto simp: same_book_def same_journal_def)

lemma same_execute:
  "keeps same_book (execute (insert_principal r0))"
  "keeps same_book (execute (insert_name r1))"
  "keeps same_book (execute (insert_credential r2))"
  "keeps same_book (execute (insert_receipt r3))"
  "keeps same_book (execute (insert_credential_audit r4))"
  "keeps same_book (execute (insert_audit_event r5))"
  "keeps same_book (execute (insert_profile_key r6))"
  "keeps same_book (execute (insert_space r7))"
  "keeps same_book (execute (upsert_membership r8))"
  "keeps same_book (execute (insert_cursor_secret r9))"
  by (intro same.keeps_execute,
      auto simp: same_book_def same_journal_def changed_def dest!: insert_principalD insert_nameD insert_credentialD insert_receiptD
        insert_credential_auditD insert_audit_eventD insert_profile_keyD insert_spaceD upsert_membershipD insert_cursor_secretD)+

lemma same_update:
  "keeps same_book (update (retire_name n p))"
  "keeps same_book (update (update_profile_row req p))"
  "keeps same_book (update (update_credentials hit f))"
  by (auto simp: keeps_def update_Inr same_book_def same_journal_def retire_name_def update_profile_row_def
      update_credentials_def Let_def result_simps)

lemmas same_rules = same.keeps_rules same.keeps_actor same_execute same_update

lemma same_transactions:
  "keeps same_book (create_principal_tx i t cr)" "keeps same_book (register_tx E h j cr)"
  "keeps same_book (update_own_profile_tx E actor k ph pu)" "keeps same_book (execute (insert_space row))"
  "keeps same_book (reads f)" "keeps same_book (set_membership_tx E prin mr)" "keeps same_book (rotate_tx E t cx)"
  "keeps same_book (revoke_tx E t i reason)" "keeps same_book (recover_principal_tx E prr)"
  "keeps same_book (bind (read_actor E identity) (\<lambda>_. cursor_codec E))"
  "keeps same_book (search_codec_tx E identity space)" "keeps same_book (bind (read_actor E identity) (\<lambda>_. ret ()))"
  unfolding create_principal_tx_def register_tx_def new_registration_def update_own_profile_tx_def
    new_profile_def set_membership_tx_def rotate_tx_def issue_principal_def revoke_tx_def recover_principal_tx_def
    search_codec_tx_def cursor_codec_def Let_def
  by (intro same_rules)+

lemma same_book_abstract:
  assumes "same_book d d'"
  shows "abstract d' = abstract d" "gapless d' = gapless d"
proof -
  have same: "records d' = records d" "record_relations d' = record_relations d" "attention d' = attention d"
    "mailbox_items d' = mailbox_items d" "inbox_sequences d' = inbox_sequences d"
    using assms by (auto simp: same_book_def same_journal_def)
  have "record_of d' = record_of d"
    by (rule ext) (simp add: record_of_def find_record_def relations_of_def same)
  then show "abstract d' = abstract d"
    by (simp add: abstract_def record_at_def inbox_of_def same)
  show "gapless d' = gapless d"
    by (simp add: gapless_def space_rows_def inbox_of_def inbox_head_def same)
qed

section \<open>Appending\<close>

lemma record_at_fields:
  assumes "schema_ok d" "row \<in> set (records d)"
  shows "r_id (record_at d row) = rc_id row" "r_space_id (record_at d row) = rc_space_id row"
    "record_of d (rc_id row) = Inr (record_at d row)"
proof -
  obtain r where r: "record_of d (rc_id row) = Inr r"
    using record_of_exists [OF assms(1), of "rc_id row"] assms(2) by blast
  then show "record_of d (rc_id row) = Inr (record_at d row)"
    by (simp add: record_at_def)
  have "find_record d (rc_id row) = Some row"
    using assms find_distinct [of rc_id "records d" row] by (simp add: find_record_def schema_ok_def records_ok_def)
  with r show "r_id (record_at d row) = rc_id row" "r_space_id (record_at d row) = rc_space_id row"
    by (auto simp: record_at_def record_of_def result_simps)
qed

lemma abstract_space_log:
  assumes "schema_ok d"
  shows "in_space_log (abstract d) space = map (record_at d) (space_rows d space)"
proof -
  have "filter (\<lambda>r. r_space_id r = space) (map (record_at d) rows) = map (record_at d) (filter (\<lambda>r. rc_space_id r = space) rows)"
    if "set rows \<subseteq> set (records d)" for rows
    using that record_at_fields(2) [OF assms] by (induction rows) auto
  then show ?thesis
    by (simp add: in_space_log_def abstract_def space_rows_def)
qed

lemma abstract_log_ids:
  assumes "schema_ok d"
  shows "r_id ` set (jn_log (abstract d)) = rc_id ` set (records d)"
    "r_id ` set (in_space_log (abstract d) space) = rc_id ` set (space_rows d space)"
  unfolding abstract_space_log [OF assms]
  using record_at_fields(1) [OF assms] by (auto simp: abstract_def space_rows_def image_iff)

lemma delivered_filter:
  assumes "list_all2 (\<lambda>p m. delivered i t p (h p + 1) m) ps ms" "distinct ps"
  shows "p \<notin> set ps \<Longrightarrow> filter (\<lambda>m. mi_recipient m = p) ms = []"
    "p \<in> set ps \<Longrightarrow> \<exists>m. filter (\<lambda>m. mi_recipient m = p) ms = [m] \<and> delivered i t p (h p + 1) m"
  using assms
proof (induction rule: list_all2_induct)
  case (Cons q ps m ms)
  { case 1
    with Cons show ?case by (auto simp: delivered_def)
  next
    case 2
    with Cons show ?case by (cases "p = q") (auto simp: delivered_def)
  }
qed auto

lemma appended_inbox:
  assumes "appended d space actor input t i key d1" "distinct (in_attention input)"
  shows "p \<notin> set (in_attention input) \<Longrightarrow> inbox_of d1 p = inbox_of d p \<and> inbox_head d1 p = inbox_head d p"
    "p \<in> set (in_attention input) \<Longrightarrow> \<exists>m. inbox_of d1 p = inbox_of d p @ [m] \<and> mi_record_id m = i \<and> mi_seq m = inbox_head d p + 1
       \<and> mi_acknowledged_at m = None \<and> inbox_head d1 p = inbox_head d p + 1"
proof -
  obtain ms where ms: "mailbox_items d1 = mailbox_items d @ ms"
      "list_all2 (\<lambda>p m. delivered i t p (inbox_head d p + 1) m) (sort (in_attention input)) ms"
      "\<forall>q. inbox_head d1 q = inbox_head d q + (if q \<in> set (in_attention input) then 1 else 0)"
    using assms(1) by (auto simp: appended_def)
  note filtered = delivered_filter [OF ms(2), of p]
  show "p \<notin> set (in_attention input) \<Longrightarrow> inbox_of d1 p = inbox_of d p \<and> inbox_head d1 p = inbox_head d p"
    using filtered(1) assms(2) ms by (simp add: inbox_of_def)
  show "p \<in> set (in_attention input) \<Longrightarrow> \<exists>m. inbox_of d1 p = inbox_of d p @ [m] \<and> mi_record_id m = i \<and> mi_seq m = inbox_head d p + 1
       \<and> mi_acknowledged_at m = None \<and> inbox_head d1 p = inbox_head d p + 1"
    using filtered(2) assms(2) ms by (auto simp: inbox_of_def delivered_def)
qed

lemma appended_gapless:
  assumes "appended d space actor input t i key d1" "distinct (in_attention input)" "gapless d"
  shows "gapless d1"
proof -
  have rows: "records d1 = records d @ [record_row_of i space (space_head d space + 1) actor input t]"
    using assms(1) by (auto simp: appended_def)
  have "counting (map rc_space_seq (space_rows d1 sp))" for sp
    using assms(3) gapless_space_head [OF assms(3), of space]
    by (auto simp: gapless_def space_rows_def rows record_row_of_def counting_snoc)
  moreover have "counting (map mi_seq (inbox_of d1 p)) \<and> inbox_head d1 p = int (length (inbox_of d1 p))" for p
  proof (cases "p \<in> set (in_attention input)")
    case True
    then obtain m where "inbox_of d1 p = inbox_of d p @ [m]" "mi_seq m = inbox_head d p + 1" "inbox_head d1 p = inbox_head d p + 1"
      using appended_inbox(2) [OF assms(1,2)] by blast
    then show ?thesis using assms(3) by (simp add: gapless_def counting_snoc)
  next
    case False
    then show ?thesis using appended_inbox(1) [OF assms(1,2)] assms(3) by (simp add: gapless_def)
  qed
  ultimately show ?thesis by (simp add: gapless_def)
qed

text \<open>The targets of a new record's relations are earlier records of its space.\<close>

lemma appended_relations:
  assumes "appended d space actor input t i key d1" "i \<notin> rc_id ` set (records d)" "schema_ok d1"
  shows "rl_record_id ` set (in_relations input) \<subseteq> rc_id ` set (space_rows d space)"
proof
  fix target assume "target \<in> rl_record_id ` set (in_relations input)"
  then obtain n where n: "n < length (in_relations input)" "rl_record_id (in_relations input ! n) = target"
    by (auto simp: in_set_conv_nth)
  define rel where "rel = in_relations input ! n"
  have rel: "rl_record_id rel = target" "(n, rel) \<in> set (enumerate 0 (in_relations input))"
    using n by (simp_all add: rel_def in_set_enumerate_eq)
  have d1: "records d1 = records d @ [record_row_of i space (space_head d space + 1) actor input t]"
      "record_relations d1 = record_relations d @ map (relation_row_of i t) (enumerate 0 (in_relations input))"
    using assms(1) by (auto simp: appended_def)
  have "older_same_space d1 (re_source (relation_row_of i t (n, rel))) (re_target (relation_row_of i t (n, rel)))"
    using rel(2) assms(3) d1(2) by (auto simp: schema_ok_def records_ok_def)
  then have older: "older_same_space d1 i target"
    using rel(1) by (simp add: relation_row_of_def)
  then obtain a b where ab: "find_record d1 i = Some a" "find_record d1 target = Some b"
      "rc_space_id a = rc_space_id b" "rc_space_seq b < rc_space_seq a"
    by (auto simp: older_same_space_def split: option.splits)
  have a: "a \<in> set (records d1)" "rc_id a = i" and b: "b \<in> set (records d1)" "rc_id b = target"
    using find_record_mem [OF ab(1)] find_record_mem [OF ab(2)] by auto
  then have "a = record_row_of i space (space_head d space + 1) actor input t"
    using assms(2) d1(1) by auto
  moreover from this have "b \<noteq> a" "rc_space_id b = space"
    using ab(3,4) by (fastforce, simp add: record_row_of_def)
  ultimately show "target \<in> rc_id ` set (space_rows d space)"
    using b d1(1) by (auto simp: space_rows_def)
qed

lemma appended_abstract:
  assumes "appended d space actor input t i key d1" "i \<notin> rc_id ` set (records d)" "schema_ok d" "schema_ok d1"
    "well_formed_input input"
  shows "abstract d1 = add_record (result_record d space actor input t i) (abstract d)"
proof -
  let ?r = "result_record d space actor input t i"
  have distinct: "distinct (in_attention input)" using assms(5) by (simp add: well_formed_input_def)
  have rows: "records d1 = records d @ [record_row_of i space (space_head d space + 1) actor input t]"
    using assms(1) by (auto simp: appended_def)
  have "record_at d1 row = record_at d row" if "row \<in> set (records d)" for row
    using record_of_grows [OF record_at_fields(3) [OF assms(3) that] appended_grows [OF assms(1,2)]]
    by (simp add: record_at_def)
  moreover have "record_at d1 (record_row_of i space (space_head d space + 1) actor input t) = ?r"
    using appended_record_of [OF assms(1-3)] by (simp add: record_at_def record_row_of_def)
  ultimately have log: "jn_log (abstract d1) = jn_log (abstract d) @ [?r]"
    by (simp add: abstract_def rows)
  have "jn_inbox (abstract d1) p = jn_inbox (abstract d) p @ (if p \<in> set (in_attention input) then [(i, False)] else [])" for p
  proof (cases "p \<in> set (in_attention input)")
    case True
    then show ?thesis using appended_inbox(2) [OF assms(1) distinct True] by (auto simp: abstract_def)
  next
    case False
    then show ?thesis using appended_inbox(1) [OF assms(1) distinct False] by (simp add: abstract_def)
  qed
  then show ?thesis
    using log by (auto simp: add_record_def result_record_def fun_eq_iff)
qed

lemma appended_step:
  assumes "appended d space actor input t i key d1" "i \<notin> rc_id ` set (records d)" "schema_ok d" "schema_ok d1"
    "well_formed_input input" "gapless d"
  shows "journal_step (abstract d) (abstract d1)"
  unfolding appended_abstract [OF assms(1-5)]
proof (rule journal_step.append)
  let ?r = "result_record d space actor input t i"
  show "r_id ?r \<notin> r_id ` set (jn_log (abstract d))"
    using assms(2) by (simp add: abstract_log_ids [OF assms(3)] result_record_def)
  show "r_seq ?r = int (length (in_space_log (abstract d) (r_space_id ?r))) + 1"
    by (simp add: abstract_space_log [OF assms(3)] result_record_def gapless_space_head [OF assms(6)])
  show "distinct (r_attention ?r)"
    using assms(5) by (simp add: result_record_def well_formed_input_def)
  show "rl_record_id ` set (r_relations ?r) \<subseteq> r_id ` set (in_space_log (abstract d) (r_space_id ?r))"
    using appended_relations [OF assms(1,2,4)] by (simp add: abstract_log_ids [OF assms(3)] result_record_def)
qed

section \<open>Acknowledging\<close>

lemma acknowledged_abstract:
  assumes "schema_ok d" "m \<in> set (mailbox_items d)"
    "mailbox_items d1 = map (\<lambda>x. if mi_id x = mi_id m then acknowledged_at t x else x) (mailbox_items d)"
    "records d1 = records d" "record_relations d1 = record_relations d" "attention d1 = attention d"
  shows "abstract d1 = mark (mi_recipient m) (mi_record_id m) (abstract d)"
proof -
  have inj: "inj_on mi_id (set (mailbox_items d))" "inj_on (\<lambda>m. (mi_recipient m, mi_record_id m)) (set (mailbox_items d))"
    using assms(1) by (simp_all add: schema_ok_def mailbox_ok_def distinct_map)
  have same: "mi_id x = mi_id m \<longleftrightarrow> mi_record_id x = mi_record_id m" if "x \<in> set (mailbox_items d)" "mi_recipient x = mi_recipient m" for x
    using inj_onD [OF inj(1) _ that(1) assms(2)] inj_onD [OF inj(2) _ that(1) assms(2)] that(2) by auto
  have other: "mi_id x \<noteq> mi_id m" if "x \<in> set (mailbox_items d)" "mi_recipient x \<noteq> mi_recipient m" for x
    using inj_onD [OF inj(1) _ that(1) assms(2)] that(2) by auto
  have "map (\<lambda>m. (mi_record_id m, mi_acknowledged_at m \<noteq> None)) (filter (\<lambda>m. mi_recipient m = p)
        (map (\<lambda>x. if mi_id x = mi_id m then acknowledged_at t x else x) xs))
      = (if p = mi_recipient m then map (\<lambda>(r, acked). (r, acked \<or> r = mi_record_id m)) else (\<lambda>ys. ys))
          (map (\<lambda>m. (mi_record_id m, mi_acknowledged_at m \<noteq> None)) (filter (\<lambda>m. mi_recipient m = p) xs))"
    if "set xs \<subseteq> set (mailbox_items d)" for p xs
    using that same other by (induction xs) (auto simp: acknowledged_at_def)
  from this [of "mailbox_items d"] have "jn_inbox (abstract d1) p = jn_inbox (mark (mi_recipient m) (mi_record_id m) (abstract d)) p" for p
    by (simp add: abstract_def inbox_of_def assms(3) mark_def)
  moreover have "record_of d1 = record_of d"
    by (rule ext) (simp add: record_of_def find_record_def relations_of_def assms(4-6))
  ultimately show ?thesis
    by (auto simp: abstract_def mark_def record_at_def assms(4) fun_eq_iff)
qed

lemma acknowledged_gapless:
  assumes "mailbox_items d1 = map (\<lambda>x. if mi_id x = item then acknowledged_at t x else x) (mailbox_items d)"
    "records d1 = records d" "inbox_sequences d1 = inbox_sequences d"
  shows "gapless d1 = gapless d"
proof -
  have "map mi_seq (filter (\<lambda>m. mi_recipient m = p) (map (\<lambda>x. if mi_id x = item then acknowledged_at t x else x) xs))
      = map mi_seq (filter (\<lambda>m. mi_recipient m = p) xs)" for p xs
    by (induction xs) (auto simp: acknowledged_at_def)
  then have seqs: "map mi_seq (inbox_of d1 p) = map mi_seq (inbox_of d p)" for p
    by (simp add: inbox_of_def assms(1))
  then have "length (inbox_of d1 p) = length (inbox_of d p)" for p
    by (metis length_map)
  with seqs show ?thesis
    by (simp add: gapless_def space_rows_def inbox_head_def assms(2,3))
qed

section \<open>The simulation\<close>

definition simulates :: "db \<Rightarrow> db \<Rightarrow> bool" where
  "simulates d d' \<longleftrightarrow> preserves_schema d d'
     \<and> (schema_ok d \<and> gapless d \<longrightarrow> gapless d' \<and> journal_step\<^sup>*\<^sup>* (abstract d) (abstract d'))"

interpretation sim: db_step_order simulates
proof
  fix a b c
  show "simulates a a" by (simp add: simulates_def preserves_schema_def)
  assume "simulates a b" "simulates b c"
  then show "simulates a c"
    unfolding simulates_def preserves_schema_def by (meson rtranclp_trans)
qed

lemma same_book_simulates:
  "preserves_schema d d' \<Longrightarrow> same_book d d' \<Longrightarrow> simulates d d'"
  using same_book_abstract [of d d'] by (simp add: simulates_def)

lemma keeps_simulates:
  assumes "keeps preserves_schema m" "keeps same_book m"
  shows "keeps simulates m"
  using assms same_book_simulates unfolding keeps_def by blast

lemma append_simulates: "keeps simulates (append_record_tx E token space key input)"
  unfolding keeps_def
proof (intro allI impI)
  fix d z res d1 z1 assume run: "append_record_tx E token space key input (d, z) = (Inr res, d1, z1)"
  have schema: "preserves_schema d d1" using keepsD [OF append_schema(2) run] .
  show "simulates d d1"
  proof (cases "ar_replayed res")
    case False
    then obtain a z0 where "new_append E token space (append_path space) key (payload_hash E input) input (d, z0) = (Inr res, d1, z1)"
      using append_tx_new [OF run] by metis
    then obtain actor inp t i k where app: "i \<notin> rc_id ` set (records d)" "appended d space actor inp t i k d1" "well_formed_input inp"
      by (rule new_appendD) blast
    then have "distinct (in_attention inp)" by (simp add: well_formed_input_def)
    then show ?thesis
      using app schema appended_gapless [OF app(2)] appended_step [OF app(2,1)]
      by (auto simp: simulates_def preserves_schema_def intro!: r_into_rtranclp)
  next
    case True
    then have "d1 = d" by (rule append_tx_replayed [OF run])
    then show ?thesis by (simp add: sim.refl)
  qed
qed

lemma set_acknowledged_simulates: "keeps simulates (update (set_acknowledged item t))"
  unfolding keeps_def
proof (intro allI impI)
  fix d z n d1 z1 assume run: "update (set_acknowledged item t) (d, z) = (Inr n, d1, z1)"
  have d1: "records d1 = records d" "record_relations d1 = record_relations d" "attention d1 = attention d"
    "inbox_sequences d1 = inbox_sequences d" "idempotency_keys d1 = idempotency_keys d"
    using run by (auto simp: update_Inr set_acknowledged_def Let_def)
  have schema: "preserves_schema d d1" using keepsD [OF set_acknowledged_schema run] .
  show "simulates d d1"
  proof (cases "item \<in> mi_id ` set (mailbox_items d)")
    case True
    then obtain m where m: "m \<in> set (mailbox_items d)" "mi_id m = item" by auto
    { assume ok: "schema_ok d" "gapless d"
      have items: "mailbox_items d1 = map (\<lambda>x. if mi_id x = mi_id m then acknowledged_at t x else x) (mailbox_items d)"
        using set_acknowledgedD [OF run ok(1) m] m(2) by simp
      have "abstract d1 = mark (mi_recipient m) (mi_record_id m) (abstract d)"
        by (rule acknowledged_abstract [OF ok(1) m(1) items d1(1-3)])
      moreover have "mi_record_id m \<in> fst ` set (jn_inbox (abstract d) (mi_recipient m))"
        using m(1) by (force simp: abstract_def inbox_of_def)
      ultimately have "journal_step (abstract d) (abstract d1)"
        by (simp add: journal_step.acknowledge)
      with acknowledged_gapless [OF items d1(1,4)] ok(2)
      have "gapless d1 \<and> journal_step\<^sup>*\<^sup>* (abstract d) (abstract d1)" by blast }
    then show ?thesis using schema by (simp add: simulates_def)
  next
    case False
    then have "map (\<lambda>m. if mi_id m = item \<and> mi_acknowledged_at m = None then m\<lparr>mi_acknowledged_at := Some t\<rparr> else m) (mailbox_items d)
        = mailbox_items d"
      by (intro map_idI) auto
    then have "mailbox_items d1 = mailbox_items d"
      using run by (auto simp: update_Inr set_acknowledged_def Let_def)
    then show ?thesis using schema d1 by (intro same_book_simulates) (auto simp: same_book_def same_journal_def)
  qed
qed

lemma acknowledge_simulates: "keeps simulates (acknowledge_tx E token item)"
  unfolding acknowledge_tx_def
  by (intro sim.keeps_rules sim.keeps_actor set_acknowledged_simulates)

lemma search_codec_schema: "keeps preserves_schema (search_codec_tx E identity space)"
  unfolding search_codec_tx_def by (intro schema_rules db_schema.keeps_actor append_schema)

lemma simulating_transactions: "transactions_keep E simulates"
  unfolding transactions_keep_def
  by (intro conjI allI append_simulates acknowledge_simulates keeps_simulates same_transactions bootstrap_schema
      recover_schema rotate_schema append_schema search_codec_schema schema_rules db_schema.keeps_actor)

lemma committed_simulates:
  assumes "committed_as d d'"
  shows "simulates d d'"
proof (rule same_book_simulates)
  show "preserves_schema d d'"
    using schema_inv.committed_inv [OF assms] by (simp add: preserves_schema_def)
  show "same_book d d'"
    using assms by (auto simp: committed_as_def same_book_def same_journal_def changed_def)
qed

interpretation simulation_service: service_order "\<lambda>s s'. simulates (central s) (central s')" simulates
proof
  fix fault d s n rf s'
  assume "finish_transaction fault d (s\<lparr>transactions := n\<rparr>) = (rf, s')" "simulates (central s) d"
  then show "simulates (central s) (central s')"
    using schema_inv.finish_committed [of fault d "s\<lparr>transactions := n\<rparr>" rf s'] sim.refl sim.trans
      committed_simulates [of d "central s'"] by auto
qed (auto intro: sim.refl sim.trans)

lemma reachable_gapless:
  assumes "reachable E w"
  shows "gapless (central (fst w))"
  using assms
proof induction
  case (fresh s z)
  then obtain j b where "central s = empty_db\<lparr>journal_id := j, audit_required := b\<rparr>" by (auto simp: initial_def)
  then show ?case by (simp add: gapless_def space_rows_def inbox_of_def inbox_head_def empty_db_def)
next
  case (next_request w w')
  then show ?case
    using reachable_ok [OF next_request(1)] simulation_service.step_related [OF simulating_transactions next_request(2)]
    by (simp add: simulates_def)
qed

text \<open>C6. The service refines the abstract journal. In every state the service can reach, serving any
  request moves the log and the inboxes stored in its database by steps of the abstract machine and
  by nothing else: records are only added at the end of the log, with the next number of their space
  and references to earlier records of it, each recipient receives each record exactly once, and
  inbox entries are only marked as acknowledged.\<close>

theorem service_refines_journal:
  assumes "reachable E (s, z)" "serve E req (s, z) = (r, s', z')"
  shows "journal_step\<^sup>*\<^sup>* (abstract (central s)) (abstract (central s'))"
  using simulation_service.step_related [OF simulating_transactions step.served [OF assms(2)]]
    reachable_ok [OF assms(1)] reachable_gapless [OF assms(1)]
  by (simp add: simulates_def)

text \<open>C14. Numbers have no gaps. In every state the service can reach, the records of a space are
  numbered 1, 2, 3 and so on in the order they were appended, and so are the items of an inbox in the
  order they were delivered, so that a reader who has seen number n knows it has seen n entries.\<close>

theorem numbers_have_no_gaps:
  assumes "reachable E (s, z)"
  shows "map rc_space_seq (filter (\<lambda>r. rc_space_id r = space) (records (central s)))
      = map (\<lambda>k. int k + 1) [0..<length (filter (\<lambda>r. rc_space_id r = space) (records (central s)))]
    \<and> map mi_seq (filter (\<lambda>m. mi_recipient m = p) (mailbox_items (central s)))
      = map (\<lambda>k. int k + 1) [0..<length (filter (\<lambda>m. mi_recipient m = p) (mailbox_items (central s)))]"
  using reachable_gapless [OF assms] by (simp add: gapless_def space_rows_def inbox_of_def counting_def)

end
