(* ===== verification/Verification.thy ===== *)
theory Verification
  imports Refinement
begin

text \<open>
  The recovery verification (journal-storage-sqlite/src/recovery.rs): probes of one database
  snapshot and a hash of every table. A recovery approval carries it, so that an operator's
  attestation is bound to exact contents. SQLite's own integrity check and the probes of its
  full-text index are the record \<open>engine_probes\<close> of parameters; no column of the schema holds a REAL.
\<close>

section \<open>Values and tables\<close>

datatype sql_value = VNull | VInteger int | VText string | VBlob "byte list"

text \<open>SQLite's order of values: NULL, integers, text, blobs.\<close>

instantiation sql_value :: linorder
begin

fun less_eq_sql_value :: "sql_value \<Rightarrow> sql_value \<Rightarrow> bool" where
  "less_eq_sql_value VNull y = True"
| "less_eq_sql_value (VInteger i) y = (case y of VNull \<Rightarrow> False | VInteger j \<Rightarrow> i \<le> j | _ \<Rightarrow> True)"
| "less_eq_sql_value (VText s) y = (case y of VText t \<Rightarrow> s \<le> t | VBlob _ \<Rightarrow> True | _ \<Rightarrow> False)"
| "less_eq_sql_value (VBlob b) y = (case y of VBlob c \<Rightarrow> b \<le> c | _ \<Rightarrow> False)"

definition less_sql_value :: "sql_value \<Rightarrow> sql_value \<Rightarrow> bool" where
  "less_sql_value x y \<longleftrightarrow> x \<le> y \<and> \<not> y \<le> x"

instance
proof
  fix x y z :: sql_value
  show "x < y \<longleftrightarrow> x \<le> y \<and> \<not> y \<le> x"
    by (simp add: less_sql_value_def)
  show "x \<le> x"
    by (cases x) auto
  show "x \<le> y \<Longrightarrow> y \<le> z \<Longrightarrow> x \<le> z"
    by (cases x; cases y; cases z) auto
  show "x \<le> y \<Longrightarrow> y \<le> x \<Longrightarrow> x = y"
    by (cases x; cases y) auto
  show "x \<le> y \<or> y \<le> x"
    by (cases x; cases y) auto
qed

end

fun cell_value :: "cell \<Rightarrow> sql_value" where
  "cell_value CNull = VNull"
| "cell_value (CInteger i) = VInteger i"
| "cell_value (CText s) = VText s"

definition record_cells :: "record_row \<Rightarrow> cell list" where
  "record_cells r = [CText (rc_id r), CText (rc_space_id r), CInteger (rc_space_seq r), CText (rc_author r),
     CText (rc_kind r), CText (rc_content r), cell_opt (rc_run_id r), cell_opt (rc_routing_key r),
     cell_opt (rc_title r), CText (rc_created_at r), CNull, CNull, CNull]"

definition relation_cells :: "relation_row \<Rightarrow> cell list" where
  "relation_cells r = [CText (re_source r), CText (re_type r), CText (re_target r), CText (re_created_at r),
     CInteger (re_position r)]"

definition attention_cells :: "attention_row \<Rightarrow> cell list" where
  "attention_cells r = [CText (at_record_id r), CText (at_recipient r), CText (at_created_at r)]"

definition idempotency_cells :: "idempotency_row \<Rightarrow> cell list" where
  "idempotency_cells r = [CText (ik_principal_id r), CText ''POST'', CText (ik_path r), CText (ik_key r),
     CText (ik_payload_hash r), CText (ik_record_id r), CText (ik_response_json r), CText (ik_created_at r)]"

definition mailbox_cells :: "mailbox_row \<Rightarrow> cell list" where
  "mailbox_cells r = [CText (mi_id r), CText (mi_record_id r), CText (mi_recipient r), CText (mi_created_at r),
     CInteger (mi_seq r), cell_opt (mi_acknowledged_at r)]"

definition sequence_cells :: "string \<times> int \<Rightarrow> cell list" where
  "sequence_cells s = [CText (fst s), CInteger (snd s)]"

definition table_values :: "('r \<Rightarrow> cell list) \<Rightarrow> 'r list \<Rightarrow> sql_value list list" where
  "table_values cells rows = map (\<lambda>r. map cell_value (cells r)) rows"

text \<open>The tables in the order of their names.\<close>

definition tables :: "db \<Rightarrow> (string \<times> sql_value list list) list" where
  "tables d = [
     (''attention'', table_values attention_cells (attention d)),
     (''audit_events'', table_values audit_event_cells (audit_events d)),
     (''credential_audit'', table_values credential_audit_cells (credential_audit d)),
     (''credentials'', table_values credential_cells (credentials d)),
     (''idempotency_keys'', table_values idempotency_cells (idempotency_keys d)),
     (''inbox_sequences'', table_values sequence_cells (inbox_sequences d)),
     (''journal_secrets'', case cursor_secret d of None \<Rightarrow> [] | Some s \<Rightarrow> [[VText ''cursor'', VBlob s]]),
     (''mailbox_items'', table_values mailbox_cells (mailbox_items d)),
     (''memberships'', table_values membership_cells (memberships d)),
     (''principal_names'', table_values name_cells (principal_names d)),
     (''principals'', table_values principal_cells (principals d)),
     (''profile_idempotency_keys'', table_values profile_key_cells (profile_idempotency_keys d)),
     (''record_relations'', table_values relation_cells (record_relations d)),
     (''records'', table_values record_cells (records d)),
     (''recovery_anchor'', [[VInteger 1, VText (journal_id d), VInteger (anchor_revision d),
        VInteger (if audit_required d then 1 else 0), VInteger (inbox_epoch d)]]),
     (''registration_receipts'', table_values receipt_cells (registration_receipts d)),
     (''schema_contract'', [[VInteger 1, VInteger 13, VText ''uuid-native-v1'']]),
     (''spaces'', table_values space_cells (spaces d))]"

section \<open>Hashing\<close>

text \<open>The bytes \<open>hash_table\<close> feeds to the hash: a marker per row, then each value with its tag; text and
  blobs after their length.\<close>

fun value_bytes :: "sql_value \<Rightarrow> byte list" where
  "value_bytes VNull = [0]"
| "value_bytes (VInteger i) = 1 # to_be_bytes (word_of_int i)"
| "value_bytes (VText s) = 3 # to_be_bytes (of_nat (length s)) @ as_bytes s"
| "value_bytes (VBlob b) = 4 # to_be_bytes (of_nat (length b)) @ b"

definition row_bytes :: "sql_value list \<Rightarrow> byte list" where
  "row_bytes row = 0xff # concat (map value_bytes row)"

definition table_bytes :: "sql_value list list \<Rightarrow> byte list" where
  "table_bytes rows = concat (map row_bytes (sort rows))"

definition hash_table :: "crypto \<Rightarrow> string \<times> sql_value list list \<Rightarrow> table_verification" where
  "hash_table C t = \<lparr>tv_name = fst t, tv_rows = length (snd t), tv_sha256 = hex (sha256 C (table_bytes (snd t)))\<rparr>"

section \<open>Probes\<close>

record engine_probes =
  pb_integrity :: "db \<Rightarrow> string"
  pb_fts_differs :: "db \<Rightarrow> bool"

text \<open>\<open>pragma_foreign_key_check\<close>: every reference of the schema resolves.\<close>

definition references_ok :: "db \<Rightarrow> bool" where
  "references_ok d \<longleftrightarrow>
     (let prins = pr_id ` set (principals d); creds = cr_id ` set (credentials d);
          recs = rc_id ` set (records d); sps = sp_id ` set (spaces d) in
      cr_principal_id ` set (credentials d) \<subseteq> prins
      \<and> (\<Union>c \<in> set (credentials d). set_option (cr_replacement c)) \<subseteq> creds
      \<and> rr_token_hash ` set (registration_receipts d) \<subseteq> cr_token_hash ` set (credentials d)
      \<and> rr_credential_id ` set (registration_receipts d) \<subseteq> creds
      \<and> rr_principal_id ` set (registration_receipts d) \<subseteq> prins
      \<and> mb_space_id ` set (memberships d) \<subseteq> sps \<and> mb_principal_id ` set (memberships d) \<subseteq> prins
      \<and> rc_space_id ` set (records d) \<subseteq> sps \<and> rc_author ` set (records d) \<subseteq> prins
      \<and> re_source ` set (record_relations d) \<subseteq> recs \<and> re_target ` set (record_relations d) \<subseteq> recs
      \<and> at_record_id ` set (attention d) \<subseteq> recs \<and> at_recipient ` set (attention d) \<subseteq> prins
      \<and> ik_principal_id ` set (idempotency_keys d) \<subseteq> prins \<and> ik_record_id ` set (idempotency_keys d) \<subseteq> recs
      \<and> fst ` set (inbox_sequences d) \<subseteq> prins
      \<and> mi_record_id ` set (mailbox_items d) \<subseteq> recs \<and> mi_recipient ` set (mailbox_items d) \<subseteq> prins
      \<and> (\<lambda>(_, a). ca_credential_id a) ` set (credential_audit d) \<subseteq> creds
      \<and> nm_principal_id ` set (principal_names d) \<subseteq> prins
      \<and> pk_principal_id ` set (profile_idempotency_keys d) \<subseteq> prins)"

text \<open>\<open>GROUP BY space_id HAVING min(space_seq)!=1 OR max(space_seq)!=count(*)\<close>.\<close>

definition sequence_probe :: "db \<Rightarrow> bool" where
  "sequence_probe d \<longleftrightarrow> list_ex (\<lambda>r.
     let seqs = map rc_space_seq (space_rows d (rc_space_id r)) in
     Min (set seqs) \<noteq> 1 \<or> Max (set seqs) \<noteq> int (length seqs)) (records d)"

definition mailbox_attention_probe :: "db \<Rightarrow> bool" where
  "mailbox_attention_probe d \<longleftrightarrow>
     (\<lambda>a. (at_record_id a, at_recipient a)) ` set (attention d)
     \<noteq> (\<lambda>m. (mi_record_id m, mi_recipient m)) ` set (mailbox_items d)"

definition inbox_allocation_probe :: "db \<Rightarrow> bool" where
  "inbox_allocation_probe d \<longleftrightarrow>
     list_ex (\<lambda>m. case map_of (inbox_sequences d) (mi_recipient m) of
         None \<Rightarrow> True
       | Some n \<Rightarrow> n < mi_seq m \<or> mi_seq m \<le> 0) (mailbox_items d)
     \<or> list_ex (\<lambda>(_, n). n \<le> 0) (inbox_sequences d)"

definition verify :: "crypto \<Rightarrow> engine_probes \<Rightarrow> db \<Rightarrow> storage_error + recovery_verification" where
  "verify C P d =
     and_then (ensure (pb_integrity P d = ''ok'') (RecoveryClosed ''SQLite integrity probe failed'')) (\<lambda>_.
     and_then (ensure (references_ok d) (RecoveryClosed ''foreign key probe failed'')) (\<lambda>_.
     and_then (ensure (\<not> pb_fts_differs P d) (RecoveryClosed ''FTS content probe failed'')) (\<lambda>_.
     and_then (ensure (\<not> sequence_probe d) (RecoveryClosed ''sequence probe failed'')) (\<lambda>_.
     and_then (ensure (\<not> mailbox_attention_probe d) (RecoveryClosed ''mailbox attention probe failed'')) (\<lambda>_.
     and_then (ensure (\<not> inbox_allocation_probe d) (RecoveryClosed ''inbox allocation probe failed'')) (\<lambda>_.
     Inr \<lparr>rv_tables = map (hash_table C) (tables d), rv_space_heads = sn_space_heads (take_snapshot d)\<rparr>))))))"

section \<open>The hashed bytes determine the rows\<close>

fun storable_value :: "sql_value \<Rightarrow> bool" where
  "storable_value VNull = True"
| "storable_value (VInteger i) \<longleftrightarrow> - (2 ^ 63) \<le> i \<and> i < 2 ^ 63"
| "storable_value (VText s) \<longleftrightarrow> length s < 2 ^ 64"
| "storable_value (VBlob b) \<longleftrightarrow> length b < 2 ^ 64"

lemma be_bytes_bit:
  assumes "k < 64"
  shows "bit (to_be_bytes n ! (7 - k div 8)) (k mod 8) = bit n k"
proof -
  have "7 - (7 - k div 8) = k div 8" using assms by simp
  then show ?thesis
    using assms by (simp add: to_be_bytes_def bit_ucast_iff bit_drop_bit_eq)
qed

lemma be_bytes_inj: "to_be_bytes a = to_be_bytes b \<longleftrightarrow> a = b"
proof
  assume eq: "to_be_bytes a = to_be_bytes b"
  show "a = b"
  proof (rule bit_word_eqI)
    fix k assume "k < LENGTH(64)"
    then show "bit a k = bit b k" using be_bytes_bit [of k a] be_bytes_bit [of k b] eq by simp
  qed
qed simp

lemma of_nat_u64: "m < 2 ^ 64 \<Longrightarrow> n < 2 ^ 64 \<Longrightarrow> (of_nat m :: u64) = of_nat n \<longleftrightarrow> m = n"
  by (simp add: word_of_nat_eq_iff take_bit_nat_eq_self)

lemma of_int_u64:
  assumes "- (2 ^ 63) \<le> i" "i < 2 ^ 63" "- (2 ^ 63) \<le> j" "j < 2 ^ 63"
  shows "(word_of_int i :: u64) = word_of_int j \<longleftrightarrow> i = j"
proof
  assume "(word_of_int i :: u64) = word_of_int j"
  then have "i mod 2 ^ 64 = j mod 2 ^ 64" by (simp add: word_of_int_eq_iff take_bit_eq_mod)
  then have "2 ^ 64 dvd i - j" by (simp add: mod_eq_dvd_iff)
  then have "2 ^ 64 dvd \<bar>i - j\<bar>" by simp
  moreover have "(2 :: int) ^ 64 = 2 * 2 ^ 63" by simp
  then have "\<bar>i - j\<bar> < 2 ^ 64" using assms by linarith
  ultimately have "\<bar>i - j\<bar> = 0" using zdvd_imp_le [of "2 ^ 64" "\<bar>i - j\<bar>"] by linarith
  then show "i = j" by simp
qed simp

lemma as_bytes_eq: "as_bytes s = as_bytes t \<longleftrightarrow> s = t"
  by (metis of_bytes_as_bytes)

lemma value_bytes_prefix:
  assumes "storable_value v" "storable_value w" "value_bytes v @ r = value_bytes w @ q"
  shows "v = w \<and> r = q"
proof (cases v; cases w)
  fix s t assume v: "v = VText s" and w: "w = VText t"
  then have "to_be_bytes (of_nat (length s)) = to_be_bytes (of_nat (length t))" "as_bytes s @ r = as_bytes t @ q"
    using assms(3) by (simp_all add: append_eq_append_conv)
  then have "length s = length t" using assms(1,2) v w by (simp add: be_bytes_inj of_nat_u64)
  then show ?thesis
    using \<open>as_bytes s @ r = as_bytes t @ q\<close> v w append_eq_append_conv [of "as_bytes s" "as_bytes t" r q]
    by (simp add: as_bytes_eq) (simp add: as_bytes_def)
next
  fix b c assume v: "v = VBlob b" and w: "w = VBlob c"
  then have "to_be_bytes (of_nat (length b)) = to_be_bytes (of_nat (length c))" "b @ r = c @ q"
    using assms(3) by (simp_all add: append_eq_append_conv)
  then show ?thesis using assms(1,2) v w by (simp add: be_bytes_inj of_nat_u64)
next
  fix i j assume v: "v = VInteger i" and w: "w = VInteger j"
  then show ?thesis using assms by (simp add: append_eq_append_conv be_bytes_inj of_int_u64)
qed (use assms(3) in auto)

lemma values_bytes_prefix:
  assumes "length vs = length ws" "list_all storable_value vs" "list_all storable_value ws"
    "concat (map value_bytes vs) @ r = concat (map value_bytes ws) @ q"
  shows "vs = ws \<and> r = q"
  using assms
proof (induction vs ws rule: list_induct2)
  case (Cons v vs w ws)
  then show ?case using value_bytes_prefix [of v w "concat (map value_bytes vs) @ r" "concat (map value_bytes ws) @ q"] by auto
qed simp

definition storable_rows :: "nat \<Rightarrow> sql_value list list \<Rightarrow> bool" where
  "storable_rows n rows \<longleftrightarrow> list_all (\<lambda>row. length row = n \<and> list_all storable_value row) rows"

lemma rows_bytes_inj:
  assumes "storable_rows n xs" "storable_rows n ys" "concat (map row_bytes xs) = concat (map row_bytes ys)"
  shows "xs = ys"
  using assms
proof (induction xs arbitrary: ys)
  case Nil
  then show ?case by (cases ys) (auto simp: row_bytes_def)
next
  case (Cons x xs)
  then obtain y ys' where ys: "ys = y # ys'" by (cases ys) (auto simp: row_bytes_def)
  have "concat (map value_bytes x) @ concat (map row_bytes xs) = concat (map value_bytes y) @ concat (map row_bytes ys')"
    using Cons.prems(3) by (simp add: ys row_bytes_def [of x] row_bytes_def [of y])
  then have "x = y \<and> concat (map row_bytes xs) = concat (map row_bytes ys')"
    using Cons.prems(1,2) values_bytes_prefix [of x y] by (simp add: ys storable_rows_def)
  then show ?case using Cons.IH [of ys'] Cons.prems by (simp add: ys storable_rows_def)
qed

lemma table_bytes_inj:
  assumes "storable_rows n xs" "storable_rows n ys" "table_bytes xs = table_bytes ys"
  shows "mset xs = mset ys"
proof -
  have "storable_rows n (sort xs)" "storable_rows n (sort ys)"
    using assms(1,2) by (simp_all add: storable_rows_def list_all_iff)
  then have "sort xs = sort ys"
    using rows_bytes_inj assms(3) by (simp add: table_bytes_def)
  then show ?thesis by (metis mset_sort)
qed

section \<open>What an equal verification means\<close>

text \<open>The integers of a database are \<open>i64\<close> and its texts shorter than \<open>u64\<close> can count.\<close>

definition storable :: "db \<Rightarrow> bool" where
  "storable d \<longleftrightarrow> list_all (\<lambda>(_, rows). list_all (list_all storable_value) rows) (tables d)"

definition same_contents :: "db \<Rightarrow> db \<Rightarrow> bool" where
  "same_contents d d' \<longleftrightarrow> mset (principals d) = mset (principals d') \<and> mset (principal_names d) = mset (principal_names d')
     \<and> mset (credentials d) = mset (credentials d') \<and> mset (registration_receipts d) = mset (registration_receipts d')
     \<and> mset (credential_audit d) = mset (credential_audit d') \<and> mset (audit_events d) = mset (audit_events d')
     \<and> mset (profile_idempotency_keys d) = mset (profile_idempotency_keys d') \<and> mset (spaces d) = mset (spaces d')
     \<and> mset (memberships d) = mset (memberships d') \<and> mset (records d) = mset (records d')
     \<and> mset (record_relations d) = mset (record_relations d') \<and> mset (attention d) = mset (attention d')
     \<and> mset (idempotency_keys d) = mset (idempotency_keys d') \<and> mset (inbox_sequences d) = mset (inbox_sequences d')
     \<and> mset (mailbox_items d) = mset (mailbox_items d') \<and> cursor_secret d = cursor_secret d'
     \<and> journal_id d = journal_id d' \<and> anchor_revision d = anchor_revision d' \<and> audit_required d = audit_required d'
     \<and> inbox_epoch d = inbox_epoch d'"

lemma cell_value_inj: "cell_value a = cell_value b \<longleftrightarrow> a = b"
  by (cases a; cases b) auto

lemma cell_opt_inj: "cell_opt a = cell_opt b \<longleftrightarrow> a = b"
  by (cases a; cases b) auto

lemma cell_bool_inj: "cell_bool a = cell_bool b \<longleftrightarrow> a = b"
  by (simp add: cell_bool_def)

lemma cells_inj:
  "inj principal_cells" "inj name_cells" "inj space_cells" "inj membership_cells" "inj profile_key_cells"
  "inj credential_cells" "inj receipt_cells" "inj credential_audit_cells" "inj audit_event_cells"
  "inj record_cells" "inj relation_cells" "inj attention_cells" "inj idempotency_cells" "inj mailbox_cells" "inj sequence_cells"
  by (rule injI; clarsimp simp: principal_cells_def name_cells_def space_cells_def membership_cells_def profile_key_cells_def
      credential_cells_def receipt_cells_def credential_audit_cells_def audit_event_cells_def record_cells_def relation_cells_def
      attention_cells_def idempotency_cells_def mailbox_cells_def sequence_cells_def cell_opt_inj cell_bool_inj
      prod_eq_iff split: prod.splits)+

lemma table_values_rows:
  assumes "\<And>r. length (cells r) = n" "list_all (list_all storable_value) (table_values cells rows)"
  shows "storable_rows n (table_values cells rows)"
  using assms by (auto simp: storable_rows_def table_values_def list_all_iff)

lemma table_values_inj:
  assumes "inj cells" "\<And>r. length (cells r) = n" "list_all (list_all storable_value) (table_values cells xs)"
    "list_all (list_all storable_value) (table_values cells ys)" "table_bytes (table_values cells xs) = table_bytes (table_values cells ys)"
  shows "mset xs = mset ys"
proof -
  have "inj (\<lambda>r. map cell_value (cells r))"
    using assms(1) cell_value_inj by (auto simp: inj_def intro: list.inj_map_strong)
  moreover have "image_mset (\<lambda>r. map cell_value (cells r)) (mset xs) = image_mset (\<lambda>r. map cell_value (cells r)) (mset ys)"
    using table_bytes_inj [OF table_values_rows [OF assms(2,3)] table_values_rows [OF assms(2,4)] assms(5)]
    by (simp add: table_values_def)
  ultimately show ?thesis by (metis multiset.inj_map injD)
qed

lemma hex_inj: "hex xs = hex ys \<longleftrightarrow> xs = ys"
proof
  have digits: "distinct DIGITS" "length DIGITS = 16" by code_simp+
  have byte: "a = b" if "hi a = hi b" "lo a = lo b" for a b :: byte
  proof -
    have "unat a < 256" "unat b < 256" using unsigned_less [where 'a = nat, of a] unsigned_less [where 'a = nat, of b] by simp_all
    then have "unat a div 16 < 16" "unat b div 16 < 16" by auto
    then have "unat a div 16 = unat b div 16" "unat a mod 16 = unat b mod 16"
      using that digits by (auto simp: hi_def lo_def nth_eq_iff_index_eq)
    then have "unat a = unat b" by (metis div_mult_mod_eq)
    then show ?thesis by (rule unsigned_word_eqI)
  qed
  show "hex xs = hex ys \<Longrightarrow> xs = ys"
    by (induction xs ys rule: list_induct2') (auto intro: byte)
qed simp

lemma hashes_determine_bytes:
  assumes "map (hash_table C) ts = map (hash_table C) us" "inj_on (sha256 C) (table_bytes ` snd ` (set ts \<union> set us))"
  shows "map (\<lambda>t. table_bytes (snd t)) ts = map (\<lambda>t. table_bytes (snd t)) us"
proof (rule nth_equalityI)
  show len: "length (map (\<lambda>t. table_bytes (snd t)) ts) = length (map (\<lambda>t. table_bytes (snd t)) us)"
    using map_eq_imp_length_eq [OF assms(1)] by simp
  fix k assume "k < length (map (\<lambda>t. table_bytes (snd t)) ts)"
  then have k: "k < length ts" "k < length us" using len by simp_all
  then have "hash_table C (ts ! k) = hash_table C (us ! k)"
    using assms(1) by (metis nth_map)
  then have "sha256 C (table_bytes (snd (ts ! k))) = sha256 C (table_bytes (snd (us ! k)))"
    by (simp add: hash_table_def hex_inj)
  then show "map (\<lambda>t. table_bytes (snd t)) ts ! k = map (\<lambda>t. table_bytes (snd t)) us ! k"
    using assms(2) k by (auto dest: inj_onD)
qed

lemma secret_rows_inj:
  assumes "pred_option (\<lambda>s. length s < 2 ^ 64) a" "pred_option (\<lambda>s. length s < 2 ^ 64) b"
    "table_bytes (case a of None \<Rightarrow> [] | Some s \<Rightarrow> [[VText ''cursor'', VBlob s]])
      = table_bytes (case b of None \<Rightarrow> [] | Some s \<Rightarrow> [[VText ''cursor'', VBlob s]])"
  shows "a = b"
  using table_bytes_inj [OF _ _ assms(3), of 2] assms(1,2)
  by (cases a; cases b) (auto simp: storable_rows_def)

lemma anchor_row_inj:
  assumes "storable_rows 5 [row]" "storable_rows 5 [row']" "table_bytes [row] = table_bytes [row']"
  shows "row = row'"
  using table_bytes_inj [OF assms] by simp

lemma cells_length:
  "length (principal_cells r0) = 6" "length (name_cells r1) = 4" "length (space_cells r2) = 5" "length (membership_cells r3) = 6"
  "length (profile_key_cells r4) = 5" "length (credential_cells r5) = 9" "length (receipt_cells r6) = 6"
  "length (credential_audit_cells r7) = 5" "length (audit_event_cells r8) = 7" "length (record_cells r9) = 13"
  "length (relation_cells r10) = 5" "length (attention_cells r11) = 3" "length (idempotency_cells r12) = 8"
  "length (mailbox_cells r13) = 6" "length (sequence_cells r14) = 2"
  by (simp_all add: principal_cells_def name_cells_def space_cells_def membership_cells_def profile_key_cells_def
      credential_cells_def receipt_cells_def credential_audit_cells_def audit_event_cells_def record_cells_def relation_cells_def
      attention_cells_def idempotency_cells_def mailbox_cells_def sequence_cells_def split: prod.splits)

lemmas rows_determined =
  table_values_inj [OF cells_inj(1) cells_length(1)] table_values_inj [OF cells_inj(2) cells_length(2)]
  table_values_inj [OF cells_inj(3) cells_length(3)] table_values_inj [OF cells_inj(4) cells_length(4)]
  table_values_inj [OF cells_inj(5) cells_length(5)] table_values_inj [OF cells_inj(6) cells_length(6)]
  table_values_inj [OF cells_inj(7) cells_length(7)] table_values_inj [OF cells_inj(8) cells_length(8)]
  table_values_inj [OF cells_inj(9) cells_length(9)] table_values_inj [OF cells_inj(10) cells_length(10)]
  table_values_inj [OF cells_inj(11) cells_length(11)] table_values_inj [OF cells_inj(12) cells_length(12)]
  table_values_inj [OF cells_inj(13) cells_length(13)] table_values_inj [OF cells_inj(14) cells_length(14)]
  table_values_inj [OF cells_inj(15) cells_length(15)]

text \<open>C8. An approval is bound to exact contents. If two databases have the same recovery verification,
  then, unless the hash collides on the bytes of two of their tables, they hold the same rows in
  every table, and the same cursor key and recovery anchor.\<close>

theorem verification_binds_contents:
  assumes "verify C P d = Inr v" "verify C P' d' = Inr v" "storable d" "storable d'"
    "inj_on (sha256 C) (table_bytes ` snd ` (set (tables d) \<union> set (tables d')))"
  shows "same_contents d d'"
proof -
  have "map (hash_table C) (tables d) = map (hash_table C) (tables d')"
    using assms(1,2) by (auto simp: verify_def result_simps)
  note bytes = hashes_determine_bytes [OF this assms(5), unfolded tables_def, simplified list.map list.inject snd_conv]
  note ok = assms(3,4) [unfolded storable_def tables_def, simplified list.pred_inject prod.case]
  have secret: "cursor_secret d = cursor_secret d'"
    using bytes ok by (intro secret_rows_inj) (auto split: option.splits)
  have "[VInteger 1, VText (journal_id d), VInteger (anchor_revision d), VInteger (if audit_required d then 1 else 0), VInteger (inbox_epoch d)]
      = [VInteger 1, VText (journal_id d'), VInteger (anchor_revision d'), VInteger (if audit_required d' then 1 else 0), VInteger (inbox_epoch d')]"
    using bytes ok by (intro anchor_row_inj) (auto simp: storable_rows_def)
  then have "journal_id d = journal_id d'" "anchor_revision d = anchor_revision d'" "audit_required d = audit_required d'"
    "inbox_epoch d = inbox_epoch d'"
    by (auto split: if_splits)
  then show ?thesis
    unfolding same_contents_def using secret bytes ok
    by (intro conjI rows_determined) simp_all
qed

section \<open>Invariants of the service\<close>

text \<open>An invariant of the database that a fresh one satisfies and every transaction keeps holds in every
  reachable state.\<close>

locale service_invariant = db_invariant inv for inv :: "db \<Rightarrow> bool" +
  assumes kept: "transactions_keep E (\<lambda>d d'. inv d \<longrightarrow> inv d')"
    and start: "inv (empty_db\<lparr>journal_id := j, audit_required := b\<rparr>)"
begin

lemma reachable_inv:
  assumes "reachable E w"
  shows "inv (central (fst w))"
proof -
  have order: "service_order (\<lambda>s s'. inv (central s) \<longrightarrow> inv (central s')) (\<lambda>d d'. inv d \<longrightarrow> inv d')"
  proof unfold_locales
    fix fault d s n rf s'
    assume "finish_transaction fault d (s\<lparr>transactions := n\<rparr>) = (rf, s')" "inv (central s) \<longrightarrow> inv d"
    then show "inv (central s) \<longrightarrow> inv (central s')"
      using finish_committed [of fault d "s\<lparr>transactions := n\<rparr>" rf s'] committed_inv [of d "central s'"] by auto
  qed auto
  from assms show ?thesis
  proof induction
    case (fresh s z)
    then show ?case using start by (auto simp: initial_def)
  next
    case (next_request w w')
    then show ?case using service_order.step_related [OF order kept] by blast
  qed
qed

end

section \<open>References resolve\<close>

definition wired :: "db \<Rightarrow> bool" where
  "wired d \<longleftrightarrow> references_ok d \<and> list_all (\<lambda>(_, n). n > 0) (inbox_sequences d)"

definition rewires :: "db \<Rightarrow> db \<Rightarrow> bool" where
  "rewires d d' \<longleftrightarrow> (schema_ok d \<and> wired d \<longrightarrow> schema_ok d' \<and> wired d')"

interpretation wiring: db_step_order rewires
  by unfold_locales (auto simp: rewires_def)

lemmas wired_defs = wired_def references_ok_def Let_def changed_def

lemma rewiresI: "preserves_schema d d' \<Longrightarrow> (schema_ok d \<Longrightarrow> wired d \<Longrightarrow> wired d') \<Longrightarrow> rewires d d'"
  by (simp add: rewires_def preserves_schema_def)

lemma pred_option_subset: "pred_option (\<lambda>i. i = a \<or> i \<in> B) x \<longleftrightarrow> set_option x \<subseteq> insert a B"
  by (cases x) auto

lemma insert_principal_wires: "insert_principal r d = Inr d' \<Longrightarrow> rewires d d'"
  by (rule rewiresI [OF insert_principal_schema], assumption, drule insert_principalD)
    (simp add: wired_defs subset_insertI2)

lemma insert_name_wires: "insert_name r d = Inr d' \<Longrightarrow> rewires d d'"
  by (rule rewiresI [OF insert_name_schema], assumption, drule insert_nameD)
    (simp add: wired_defs subset_insertI2)

lemma insert_credential_wires: "insert_credential r d = Inr d' \<Longrightarrow> rewires d d'"
  by (rule rewiresI [OF insert_credential_schema], assumption, drule insert_credentialD)
    (simp add: wired_defs subset_insertI2 pred_option_subset)

lemma insert_receipt_wires: "insert_receipt r d = Inr d' \<Longrightarrow> rewires d d'"
  by (rule rewiresI [OF insert_receipt_schema], assumption, drule insert_receiptD)
    (simp add: wired_defs subset_insertI2)

lemma insert_credential_audit_wires: "insert_credential_audit r d = Inr d' \<Longrightarrow> rewires d d'"
  by (rule rewiresI [OF insert_credential_audit_schema], assumption, drule insert_credential_auditD)
    (simp add: wired_defs subset_insertI2)

lemma insert_audit_event_wires: "insert_audit_event r d = Inr d' \<Longrightarrow> rewires d d'"
  by (rule rewiresI [OF insert_audit_event_schema], assumption, drule insert_audit_eventD)
    (simp add: wired_defs subset_insertI2)

lemma insert_profile_key_wires: "insert_profile_key r d = Inr d' \<Longrightarrow> rewires d d'"
  by (rule rewiresI [OF insert_profile_key_schema], assumption, drule insert_profile_keyD)
    (simp add: wired_defs subset_insertI2)

lemma insert_space_wires: "insert_space r d = Inr d' \<Longrightarrow> rewires d d'"
  by (rule rewiresI [OF insert_space_schema], assumption, drule insert_spaceD)
    (simp add: wired_defs subset_insertI2)

lemma insert_record_wires: "insert_record r d = Inr d' \<Longrightarrow> rewires d d'"
  by (rule rewiresI [OF insert_record_schema], assumption, drule insert_recordD)
    (simp add: wired_defs subset_insertI2)

lemma insert_attention_wires: "insert_attention r d = Inr d' \<Longrightarrow> rewires d d'"
  by (rule rewiresI [OF insert_attention_schema], assumption, drule insert_attentionD)
    (simp add: wired_defs subset_insertI2)

lemma insert_mailbox_item_wires: "insert_mailbox_item r d = Inr d' \<Longrightarrow> rewires d d'"
  by (rule rewiresI [OF insert_mailbox_item_schema], assumption, drule insert_mailbox_itemD)
    (simp add: wired_defs subset_insertI2)

lemma insert_idempotency_key_wires: "insert_idempotency_key r d = Inr d' \<Longrightarrow> rewires d d'"
  by (rule rewiresI [OF insert_idempotency_key_schema], assumption, drule insert_idempotency_keyD)
    (simp add: wired_defs subset_insertI2)

lemma insert_cursor_secret_wires: "insert_cursor_secret r d = Inr d' \<Longrightarrow> rewires d d'"
  by (rule rewiresI [OF insert_cursor_secret_schema], assumption, drule insert_cursor_secretD)
    (simp add: wired_defs subset_insertI2)

lemma insert_relation_wires: "insert_relation r d = Inr d' \<Longrightarrow> rewires d d'"
proof (rule rewiresI [OF insert_relation_schema], assumption)
  assume run: "insert_relation r d = Inr d'" and ok: "wired d"
  have older: "older_same_space d (re_source r) (re_target r)" and d': "d' = changed (d\<lparr>record_relations := record_relations d @ [r]\<rparr>)"
    using insert_relationD [OF run] by simp_all
  show "wired d'" using ok older_same_space_ids [OF older] by (simp add: wired_defs d')
qed

lemma upsert_membership_wires: "upsert_membership r d = Inr d' \<Longrightarrow> rewires d d'"
proof (rule rewiresI [OF upsert_membership_schema], assumption)
  assume run: "upsert_membership r d = Inr d'" and ok: "wired d"
  obtain ms where ms: "d' = changed (d\<lparr>memberships := ms\<rparr>)"
      "mb_space_id ` set ms \<subseteq> mb_space_id ` set (memberships d) \<union> sp_id ` set (spaces d)"
      "mb_principal_id ` set ms \<subseteq> mb_principal_id ` set (memberships d) \<union> pr_id ` set (principals d)"
    using upsert_membershipD [OF run] by blast
  have "mb_space_id ` set (memberships d) \<union> sp_id ` set (spaces d) = sp_id ` set (spaces d)"
    "mb_principal_id ` set (memberships d) \<union> pr_id ` set (principals d) = pr_id ` set (principals d)"
    using ok by (simp_all add: wired_defs Un_absorb1)
  with ms(2,3) have "mb_space_id ` set ms \<subseteq> sp_id ` set (spaces d)" "mb_principal_id ` set ms \<subseteq> pr_id ` set (principals d)"
    by simp_all
  then show "wired d'" using ok by (simp add: wired_defs ms(1))
qed

lemma bump_inbox_sequence_wires: "bump_inbox_sequence p d = Inr d' \<Longrightarrow> rewires d d'"
proof (rule rewiresI [OF bump_inbox_sequence_schema], assumption)
  assume run: "bump_inbox_sequence p d = Inr d'" and ok: "wired d"
  have ids: "fst ` set (map (\<lambda>(q, k). if q = p then (q, k + 1) else (q, k)) xs) = fst ` set xs" for xs :: "(string \<times> int) list"
    by (induction xs) auto
  have pos: "list_all (\<lambda>(_, n). n > 0) xs \<Longrightarrow> list_all (\<lambda>(_, n). n > 0) (map (\<lambda>(q, k). if q = p then (q, k + 1) else (q, k)) xs)"
    for xs :: "(string \<times> int) list"
    by (induction xs) (auto split: if_splits)
  show "wired d'"
    using bump_inbox_sequenceD [OF run] ok ids pos by (elim disjE exE conjE) (simp_all add: wired_defs)
qed

lemmas insert_wires = insert_principal_wires insert_name_wires insert_credential_wires insert_receipt_wires
  insert_credential_audit_wires insert_audit_event_wires insert_profile_key_wires insert_space_wires insert_record_wires
  insert_attention_wires insert_mailbox_item_wires insert_idempotency_key_wires insert_cursor_secret_wires
  insert_relation_wires upsert_membership_wires bump_inbox_sequence_wires

lemma wired_execute:
  "keeps rewires (execute (insert_principal r0))"
  "keeps rewires (execute (insert_name r1))"
  "keeps rewires (execute (insert_credential r2))"
  "keeps rewires (execute (insert_receipt r3))"
  "keeps rewires (execute (insert_credential_audit r4))"
  "keeps rewires (execute (insert_audit_event r5))"
  "keeps rewires (execute (insert_profile_key r6))"
  "keeps rewires (execute (insert_space r7))"
  "keeps rewires (execute (upsert_membership r8))"
  "keeps rewires (execute (insert_record r9))"
  "keeps rewires (execute (insert_relation r10))"
  "keeps rewires (execute (insert_attention r11))"
  "keeps rewires (execute (bump_inbox_sequence r12))"
  "keeps rewires (execute (insert_mailbox_item r13))"
  "keeps rewires (execute (insert_idempotency_key r14))"
  "keeps rewires (execute (insert_cursor_secret r15))"
  by (rule wiring.keeps_execute, erule insert_wires)+

lemma wired_total_changes [simp]: "wired (d\<lparr>total_changes := n\<rparr>) = wired d"
  by (simp add: wired_defs)

lemma wired_update:
  assumes "keeps preserves_schema (update f)" "\<And>d d' n. f d = Inr (d', n) \<Longrightarrow> wired d \<Longrightarrow> wired d'"
  shows "keeps rewires (update f)"
  unfolding keeps_def
proof (intro allI impI rewiresI)
  fix d z n d' z' assume run: "update f (d, z) = (Inr n, d', z')"
  show "preserves_schema d d'" using keepsD [OF assms(1) run] .
  assume "wired d"
  then show "wired d'" using run assms(2) by (auto simp: update_Inr)
qed

lemma retire_name_wires: "keeps rewires (update (retire_name n p))"
proof (rule wired_update [OF retire_name_schema])
  fix d d' k assume run: "retire_name n p d = Inr (d', k)" and ok: "wired d"
  obtain g where "d' = d\<lparr>principal_names := map g (principal_names d)\<rparr>" "\<And>x. nm_principal_id (g x) = nm_principal_id x"
    using run by (auto simp: retire_name_def Let_def intro!: that)
  then show "wired d'" using ok by (simp add: wired_defs image_image)
qed

lemma update_profile_row_wires: "keeps rewires (update (update_profile_row req p))"
proof (rule wired_update [OF update_profile_row_schema])
  fix d d' k assume run: "update_profile_row req p d = Inr (d', k)" and ok: "wired d"
  obtain g where "d' = d\<lparr>principals := map g (principals d)\<rparr>" "\<And>x. pr_id (g x) = pr_id x"
    using run by (auto simp: update_profile_row_def Let_def result_simps intro!: that)
  then show "wired d'" using ok by (simp add: wired_defs image_image)
qed

lemma update_credentials_wires:
  assumes "\<And>c. cr_id (f c) = cr_id c \<and> cr_token_hash (f c) = cr_token_hash c
    \<and> cr_principal_id (f c) = cr_principal_id c \<and> cr_class (f c) = cr_class c"
  shows "keeps rewires (update (update_credentials hit f))"
proof (rule wired_update [OF update_credentials_schema [OF assms]])
  fix d d' n assume run: "update_credentials hit f d = Inr (d', n)" and ok: "wired d"
  define g where "g c = (if hit c then f c else c)" for c
  have d': "d' = d\<lparr>credentials := map g (credentials d)\<rparr>"
    using run by (auto simp: update_credentials_def result_simps g_def)
  have keys: "cr_id (g c) = cr_id c" "cr_token_hash (g c) = cr_token_hash c" "cr_principal_id (g c) = cr_principal_id c" for c
    using assms [of c] by (simp_all add: g_def)
  have "set_option (cr_replacement (g c)) \<subseteq> cr_id ` set (credentials d)" if "c \<in> set (credentials d)" for c
  proof (cases "hit c")
    case True
    then show ?thesis
      using run that by (auto simp: update_credentials_def result_simps list_all_iff g_def pred_option_def)
  next
    case False
    have "(\<Union>c \<in> set (credentials d). set_option (cr_replacement c)) \<subseteq> cr_id ` set (credentials d)"
      using ok by (simp add: wired_defs)
    then show ?thesis using that False by (auto simp: g_def)
  qed
  then have "(\<Union>c \<in> set (credentials d). set_option (cr_replacement (g c))) \<subseteq> cr_id ` set (credentials d)"
    by blast
  then show "wired d'" using ok by (simp add: d' keys wired_defs image_image)
qed

lemma set_acknowledged_identities:
  assumes "set_acknowledged item t d = Inr (d', n)"
  obtains g where "d' = d\<lparr>mailbox_items := map g (mailbox_items d)\<rparr>"
      "\<And>x. mi_record_id (g x) = mi_record_id x" "\<And>x. mi_recipient (g x) = mi_recipient x"
  using assms by (auto simp: set_acknowledged_def Let_def intro!: that)

lemma set_acknowledged_wires: "keeps rewires (update (set_acknowledged item t))"
proof (rule wired_update [OF set_acknowledged_schema])
  fix d d' n assume run: "set_acknowledged item t d = Inr (d', n)" and ok: "wired d"
  from run obtain g where "d' = d\<lparr>mailbox_items := map g (mailbox_items d)\<rparr>"
      "\<And>x. mi_record_id (g x) = mi_record_id x" "\<And>x. mi_recipient (g x) = mi_recipient x"
    by (rule set_acknowledged_identities) blast
  then show "wired d'" using ok by (simp add: wired_defs image_image)
qed

lemmas wired_rules = wiring.keeps_rules wiring.keeps_actor wired_execute retire_name_wires update_profile_row_wires
  update_credentials_wires set_acknowledged_wires

lemma wired_transactions: "transactions_keep E rewires"
  unfolding transactions_keep_def create_principal_tx_def register_tx_def new_registration_def update_own_profile_tx_def
    new_profile_def set_membership_tx_def rotate_tx_def issue_principal_def revoke_tx_def recover_principal_tx_def
    append_record_tx_def new_append_def append_checked_def write_record_def deliver_def
    acknowledge_tx_def search_codec_tx_def cursor_codec_def Let_def
  by (intro conjI allI wired_rules; simp)

lemma wired_wrapper: "wired (d\<lparr>anchor_revision := n, total_changes := k\<rparr>) = wired d"
  by (simp add: wired_defs)

interpretation wired_service: service_invariant "\<lambda>d. schema_ok d \<and> wired d"
proof unfold_locales
  have "(\<lambda>d d'. schema_ok d \<and> wired d \<longrightarrow> schema_ok d' \<and> wired d') = rewires"
    by (intro ext) (simp add: rewires_def)
  then show "transactions_keep E (\<lambda>d d'. schema_ok d \<and> wired d \<longrightarrow> schema_ok d' \<and> wired d')" for E
    using wired_transactions by simp
  show "schema_ok (empty_db\<lparr>journal_id := j, audit_required := b\<rparr>) \<and> wired (empty_db\<lparr>journal_id := j, audit_required := b\<rparr>)" for j b
    by (simp add: ok_frame wired_defs empty_db_def)
next
  show "schema_ok (d\<lparr>anchor_revision := n, total_changes := k\<rparr>) \<and> wired (d\<lparr>anchor_revision := n, total_changes := k\<rparr>)"
    if "schema_ok d \<and> wired d" for d n k
    using schema_inv.wrapper_columns wired_wrapper that by blast
qed

section \<open>Every recipient has an inbox item\<close>

definition paired :: "db \<Rightarrow> bool" where
  "paired d \<longleftrightarrow> \<not> mailbox_attention_probe d"

lemma same_book_paired: "same_book d d' \<Longrightarrow> paired d' = paired d"
  by (simp add: paired_def mailbox_attention_probe_def same_book_def same_journal_def)

lemma appended_paired:
  assumes "appended d space actor input t i key d1" "paired d"
  shows "paired d1"
proof -
  obtain ms where d1: "attention d1 = attention d @ map (attention_of i t) (sort (in_attention input))"
      "mailbox_items d1 = mailbox_items d @ ms"
      "list_all2 (\<lambda>p m. delivered i t p (inbox_head d p + 1) m) (sort (in_attention input)) ms"
    using assms(1) by (auto simp: appended_def)
  have "map (\<lambda>m. (mi_record_id m, mi_recipient m)) ms = map (\<lambda>p. (i, p)) (sort (in_attention input))"
    using d1(3) by (induction rule: list_all2_induct) (auto simp: delivered_def)
  from arg_cong [where f = set, OF this]
  have "(\<lambda>m. (mi_record_id m, mi_recipient m)) ` set ms = (\<lambda>p. (i, p)) ` set (in_attention input)"
    by simp
  then show ?thesis
    using assms(2) by (simp add: paired_def mailbox_attention_probe_def d1(1,2) image_Un image_image attention_of_def)
qed

lemma append_pairs: "keeps (\<lambda>d d'. paired d \<longrightarrow> paired d') (append_record_tx E token space key input)"
  unfolding keeps_def
proof (intro allI impI)
  fix d z res d1 z1 assume run: "append_record_tx E token space key input (d, z) = (Inr res, d1, z1)" and ok: "paired d"
  show "paired d1"
  proof (cases "ar_replayed res")
    case False
    then obtain a z0 where "new_append E token space (append_path space) key (payload_hash E input) input (d, z0) = (Inr res, d1, z1)"
      using append_tx_new [OF run] by metis
    then obtain actor inp t i k where "appended d space actor inp t i k d1"
      by (rule new_appendD) blast
    then show ?thesis using ok by (rule appended_paired)
  next
    case True
    then show ?thesis using append_tx_replayed [OF run] ok by simp
  qed
qed

interpretation pairs: db_step_order "\<lambda>d d'. paired d \<longrightarrow> paired d'"
  by unfold_locales auto

lemma set_acknowledged_pairs: "keeps (\<lambda>d d'. paired d \<longrightarrow> paired d') (update (set_acknowledged item t))"
  unfolding keeps_def
proof (intro allI impI)
  fix d z n d1 z1 assume run: "update (set_acknowledged item t) (d, z) = (Inr n, d1, z1)" and ok: "paired d"
  then obtain d' where step: "set_acknowledged item t d = Inr (d', n)"
      and d1: "d1 = (if n = 0 then d else d'\<lparr>total_changes := total_changes d + n\<rparr>)"
    by (auto simp: update_Inr)
  from step obtain g where "d' = d\<lparr>mailbox_items := map g (mailbox_items d)\<rparr>"
      "\<And>x. mi_record_id (g x) = mi_record_id x" "\<And>x. mi_recipient (g x) = mi_recipient x"
    by (rule set_acknowledged_identities) blast
  then show "paired d1" using ok by (simp add: paired_def mailbox_attention_probe_def image_image d1)
qed

lemma keeps_pairs: "keeps same_book m \<Longrightarrow> keeps (\<lambda>d d'. paired d \<longrightarrow> paired d') m"
  using same_book_paired unfolding keeps_def by blast

lemma paired_transactions: "transactions_keep E (\<lambda>d d'. paired d \<longrightarrow> paired d')"
proof -
  have ack: "keeps (\<lambda>d d'. paired d \<longrightarrow> paired d') (acknowledge_tx E token item)" for token item
    unfolding acknowledge_tx_def by (intro pairs.keeps_rules pairs.keeps_actor set_acknowledged_pairs)
  then show ?thesis
    unfolding transactions_keep_def
    by (intro conjI allI append_pairs ack keeps_pairs same_transactions)
qed

interpretation paired_service: service_invariant paired
proof unfold_locales
  show "paired (empty_db\<lparr>journal_id := j, audit_required := b\<rparr>)" for j b
    by (simp add: paired_def mailbox_attention_probe_def empty_db_def)
qed (simp_all add: paired_transactions, simp add: paired_def mailbox_attention_probe_def)

section \<open>The probes pass\<close>

lemma gapless_sequences:
  assumes "gapless d"
  shows "\<not> sequence_probe d"
proof -
  have "Min (set seqs) = 1 \<and> Max (set seqs) = int (length seqs)" if "counting seqs" "seqs \<noteq> []" for seqs
  proof -
    have seqs: "set seqs = (\<lambda>k. int k + 1) ` {0..<length seqs}"
      using that(1) by (metis counting_def list.set_map set_upt)
    have "0 < length seqs" using that(2) by simp
    then have "int 0 + 1 \<in> set seqs" "int (length seqs - 1) + 1 \<in> set seqs"
      unfolding seqs by (intro imageI, simp)+
    then have "1 \<in> set seqs" "int (length seqs) \<in> set seqs"
      using \<open>0 < length seqs\<close> by (simp_all add: of_nat_diff)
    then show ?thesis
      by (intro conjI Min_eqI Max_eqI) (auto simp: seqs)
  qed
  moreover have "r \<in> set (records d) \<Longrightarrow> map rc_space_seq (space_rows d (rc_space_id r)) \<noteq> []" for r
    by (auto simp: space_rows_def filter_empty_conv)
  moreover have "counting (map rc_space_seq (space_rows d space))" for space
    using assms by (simp add: gapless_def)
  ultimately have "Min (set (map rc_space_seq (space_rows d (rc_space_id r)))) = 1
      \<and> Max (set (map rc_space_seq (space_rows d (rc_space_id r)))) = int (length (map rc_space_seq (space_rows d (rc_space_id r))))"
    if "r \<in> set (records d)" for r
    using that by blast
  then show ?thesis
    by (auto simp: sequence_probe_def Let_def list_ex_iff)
qed

lemma gapless_allocation:
  assumes "gapless d" "wired d"
  shows "\<not> inbox_allocation_probe d"
proof -
  have "\<exists>n. map_of (inbox_sequences d) (mi_recipient m) = Some n \<and> mi_seq m \<le> n \<and> 0 < mi_seq m" if "m \<in> set (mailbox_items d)" for m
  proof -
    let ?p = "mi_recipient m"
    have counts: "counting (map mi_seq (inbox_of d ?p))" "inbox_head d ?p = int (length (inbox_of d ?p))"
      using assms(1) by (simp_all add: gapless_def)
    have "mi_seq m \<in> set (map mi_seq (inbox_of d ?p))" using that by (simp add: inbox_of_def)
    also have "\<dots> = (\<lambda>k. int k + 1) ` {0..<length (inbox_of d ?p)}"
      using counts(1) by (metis counting_def length_map list.set_map set_upt)
    finally have "0 < mi_seq m" "mi_seq m \<le> inbox_head d ?p"
      by (auto simp: counts(2))
    then show ?thesis by (auto simp: inbox_head_def split: option.splits)
  qed
  then show ?thesis
    using assms(2) by (fastforce simp: inbox_allocation_probe_def wired_def list_ex_iff list_all_iff)
qed


end
