(* ===== verification/Restore.thy ===== *)
theory Restore
  imports Verification
begin

text \<open>
  Restoring the security tables of a database from the snapshot the recovery audit retained
  (journal-storage-sqlite/src/recovery\_audit.rs: \<open>restore_security\<close> and the functions it calls).
  A row of the snapshot is bound as cells; the functions \<open>..._of_cells\<close> give it the column affinities of
  its table: an integer bound to a TEXT column is stored as its decimal text, and NULL fails NOT NULL. The snapshot
  is taken from the same tables, so the model refuses two kinds of cells that SQLite would store: NULL in
  a TEXT primary key, and text in an INTEGER column.
\<close>

section \<open>Cells\<close>

definition NotNull :: sqlite_error where
  "NotNull = SqliteFailure 1299 None"

fun text_cell :: "cell \<Rightarrow> sqlite_error + string" where
  "text_cell (CText s) = Inr s"
| "text_cell (CInteger i) = Inr (if i < 0 then CHR ''-'' # show_nat (nat (- i)) else show_nat (nat i))"
| "text_cell CNull = Inl NotNull"

fun optional_cell :: "cell \<Rightarrow> sqlite_error + string option" where
  "optional_cell CNull = Inr None"
| "optional_cell c = and_then (text_cell c) (\<lambda>s. Inr (Some s))"

fun integer_cell :: "cell \<Rightarrow> sqlite_error + int" where
  "integer_cell (CInteger i) = Inr i"
| "integer_cell (CText s) = Inl InvalidColumnType"
| "integer_cell CNull = Inl NotNull"

definition flag_cell :: "cell \<Rightarrow> sqlite_error + bool" where
  "flag_cell c = and_then (integer_cell c) (\<lambda>i. and_then (ensure (i \<in> {0, 1}) ConstraintCheck) (\<lambda>_. Inr (i = 1)))"

definition principal_of_cells :: "cell list \<Rightarrow> sqlite_error + principal_row" where
  "principal_of_cells cs =
     and_then (text_cell (cs ! 0)) (\<lambda>i. and_then (text_cell (cs ! 1)) (\<lambda>name.
     and_then (text_cell (cs ! 2)) (\<lambda>created. and_then (optional_cell (cs ! 3)) (\<lambda>disabled.
     and_then (optional_cell (cs ! 4)) (\<lambda>description. and_then (integer_cell (cs ! 5)) (\<lambda>revision.
     Inr \<lparr>pr_id = i, pr_display_name = name, pr_created_at = created, pr_disabled_at = disabled,
          pr_description = description, pr_profile_revision = revision\<rparr>))))))"

definition space_of_cells :: "cell list \<Rightarrow> sqlite_error + space_row" where
  "space_of_cells cs =
     and_then (text_cell (cs ! 0)) (\<lambda>i. and_then (text_cell (cs ! 1)) (\<lambda>name.
     and_then (text_cell (cs ! 2)) (\<lambda>acc. and_then (text_cell (cs ! 3)) (\<lambda>created.
     and_then (optional_cell (cs ! 4)) (\<lambda>archived.
     Inr \<lparr>sp_id = i, sp_name = name, sp_access = acc, sp_created_at = created, sp_archived_at = archived\<rparr>)))))"

definition membership_of_cells :: "cell list \<Rightarrow> sqlite_error + membership_row" where
  "membership_of_cells cs =
     and_then (text_cell (cs ! 0)) (\<lambda>space. and_then (text_cell (cs ! 1)) (\<lambda>prin.
     and_then (flag_cell (cs ! 2)) (\<lambda>can_read. and_then (flag_cell (cs ! 3)) (\<lambda>can_append.
     and_then (flag_cell (cs ! 4)) (\<lambda>can_admin. and_then (text_cell (cs ! 5)) (\<lambda>created.
     Inr \<lparr>mb_space_id = space, mb_principal_id = prin, mb_can_read = can_read, mb_can_append = can_append,
          mb_can_admin = can_admin, mb_created_at = created\<rparr>))))))"

definition profile_key_of_cells :: "cell list \<Rightarrow> sqlite_error + profile_key_row" where
  "profile_key_of_cells cs =
     and_then (text_cell (cs ! 0)) (\<lambda>prin. and_then (text_cell (cs ! 1)) (\<lambda>key.
     and_then (text_cell (cs ! 2)) (\<lambda>hash. and_then (text_cell (cs ! 3)) (\<lambda>response.
     and_then (text_cell (cs ! 4)) (\<lambda>created.
     Inr \<lparr>pk_principal_id = prin, pk_key = key, pk_payload_hash = hash, pk_response_json = response,
          pk_created_at = created\<rparr>)))))"

text \<open>\<open>coalesce(?7,strftime(...,'now'))\<close> and \<open>CASE WHEN ?7 IS NULL THEN 'central restore' ELSE ?9 END\<close>.\<close>

definition credential_of_cells :: "string \<Rightarrow> cell list \<Rightarrow> sqlite_error + credential_row" where
  "credential_of_cells at_time cs =
     and_then (text_cell (cs ! 0)) (\<lambda>i. and_then (text_cell (cs ! 1)) (\<lambda>prin.
     and_then (text_cell (cs ! 2)) (\<lambda>cls. and_then (text_cell (cs ! 3)) (\<lambda>hash.
     and_then (text_cell (cs ! 4)) (\<lambda>created. and_then (optional_cell (cs ! 5)) (\<lambda>expires.
     and_then (optional_cell (cs ! 6)) (\<lambda>revoked. and_then (optional_cell (cs ! 7)) (\<lambda>replacement.
     and_then (optional_cell (cs ! 8)) (\<lambda>reason.
     Inr \<lparr>cr_id = i, cr_principal_id = prin, cr_class = cls, cr_token_hash = hash, cr_created_at = created,
          cr_expires_at = expires,
          cr_revoked_at = Some (case revoked of None \<Rightarrow> at_time | Some t \<Rightarrow> t),
          cr_replacement = replacement,
          cr_reason = (if revoked = None then Some ''central restore'' else reason)\<rparr>)))))))))"

definition receipt_of_cells :: "cell list \<Rightarrow> sqlite_error + receipt_row" where
  "receipt_of_cells cs =
     and_then (text_cell (cs ! 0)) (\<lambda>hash. and_then (text_cell (cs ! 1)) (\<lambda>credential.
     and_then (text_cell (cs ! 2)) (\<lambda>prin. and_then (text_cell (cs ! 3)) (\<lambda>request.
     and_then (text_cell (cs ! 4)) (\<lambda>response. and_then (text_cell (cs ! 5)) (\<lambda>created.
     Inr \<lparr>rr_token_hash = hash, rr_credential_id = credential, rr_principal_id = prin, rr_request_json = request,
          rr_response_json = response, rr_created_at = created\<rparr>))))))"

definition credential_audit_of_cells :: "cell list \<Rightarrow> sqlite_error + int \<times> credential_audit_row" where
  "credential_audit_of_cells cs =
     and_then (integer_cell (cs ! 0)) (\<lambda>i. and_then (text_cell (cs ! 1)) (\<lambda>credential.
     and_then (text_cell (cs ! 2)) (\<lambda>operation. and_then (text_cell (cs ! 3)) (\<lambda>occurred.
     and_then (optional_cell (cs ! 4)) (\<lambda>reason.
     Inr (i, \<lparr>ca_credential_id = credential, ca_operation = operation, ca_occurred_at = occurred,
              ca_reason = reason\<rparr>))))))"

definition audit_event_of_cells :: "cell list \<Rightarrow> sqlite_error + audit_event_row" where
  "audit_event_of_cells cs =
     and_then (text_cell (cs ! 0)) (\<lambda>i. and_then (text_cell (cs ! 1)) (\<lambda>event.
     and_then (optional_cell (cs ! 2)) (\<lambda>actor. and_then (text_cell (cs ! 3)) (\<lambda>subject_type.
     and_then (text_cell (cs ! 4)) (\<lambda>subject. and_then (text_cell (cs ! 5)) (\<lambda>detail.
     and_then (text_cell (cs ! 6)) (\<lambda>created.
     Inr \<lparr>ae_id = i, ae_event_type = event, ae_actor = actor, ae_subject_type = subject_type,
          ae_subject_id = subject, ae_detail_json = detail, ae_created_at = created\<rparr>)))))))"

section \<open>Statements\<close>

text \<open>\<open>INSERT ... ON CONFLICT(keys) DO UPDATE SET\<close> every other column.\<close>

definition upsert :: "('r \<Rightarrow> 'k) \<Rightarrow> 'r \<Rightarrow> 'r list \<Rightarrow> 'r list" where
  "upsert key r rows = (if key r \<in> key ` set rows then map (\<lambda>x. if key x = key r then r else x) rows else rows @ [r])"

definition upsert_principal :: "principal_row \<Rightarrow> db \<Rightarrow> sqlite_error + db" where
  "upsert_principal r d =
     and_then (ensure (pr_id r \<notin> nm_name ` set (principal_names d))
       (ConstraintTrigger ''principal id shadows a reserved name'')) (\<lambda>_.
     and_then (ensure (sql_length (pr_id r) = 36 \<and> length (pr_id r) > 19 \<and> pr_id r ! 14 = CHR ''7''
         \<and> pr_id r ! 19 \<in> set ''89ab''
         \<and> between (sql_length (pr_display_name r)) 1 128
         \<and> pred_option (\<lambda>t. sql_length t \<le> 512) (pr_description r)
         \<and> pr_profile_revision r \<ge> 1) ConstraintCheck) (\<lambda>_.
     Inr (changed (d\<lparr>principals := upsert pr_id r (principals d)\<rparr>))))"

definition upsert_space :: "space_row \<Rightarrow> db \<Rightarrow> sqlite_error + db" where
  "upsert_space r d =
     and_then (ensure (between (sql_length (sp_name r)) 1 128 \<and> sp_access r = ''public'')
       ConstraintCheck) (\<lambda>_.
     and_then (ensure (\<not> list_ex (\<lambda>x. sp_name x = sp_name r \<and> sp_id x \<noteq> sp_id r) (spaces d)) ConstraintUnique) (\<lambda>_.
     Inr (changed (d\<lparr>spaces := upsert sp_id r (spaces d)\<rparr>))))"

definition restore_membership :: "membership_row \<Rightarrow> db \<Rightarrow> sqlite_error + db" where
  "restore_membership r d =
     and_then (ensure (mb_space_id r \<in> sp_id ` set (spaces d)
         \<and> mb_principal_id r \<in> pr_id ` set (principals d)) ConstraintForeignKey) (\<lambda>_.
     Inr (changed (d\<lparr>memberships := upsert (\<lambda>m. (mb_space_id m, mb_principal_id m)) r (memberships d)\<rparr>)))"

definition upsert_profile_key :: "profile_key_row \<Rightarrow> db \<Rightarrow> sqlite_error + db" where
  "upsert_profile_key r d =
     and_then (ensure (between (sql_length (pk_key r)) 1 255) ConstraintCheck) (\<lambda>_.
     and_then (ensure (pk_principal_id r \<in> pr_id ` set (principals d)) ConstraintForeignKey) (\<lambda>_.
     Inr (changed (d\<lparr>profile_idempotency_keys :=
       upsert (\<lambda>k. (pk_principal_id k, pk_key k)) r (profile_idempotency_keys d)\<rparr>))))"

text \<open>From here on foreign keys are deferred (\<open>PRAGMA defer_foreign_keys\<close>) to the check of all
  references that follows.\<close>

definition upsert_credential :: "credential_row \<Rightarrow> db \<Rightarrow> sqlite_error + db" where
  "upsert_credential r d =
     and_then (ensure (cr_class r = ''principal-client'') ConstraintCheck) (\<lambda>_.
     and_then (ensure (\<not> list_ex (\<lambda>c. cr_token_hash c = cr_token_hash r \<and> cr_id c \<noteq> cr_id r) (credentials d))
       ConstraintUnique) (\<lambda>_.
     Inr (changed (d\<lparr>credentials :=
       (if cr_id r \<in> cr_id ` set (credentials d)
        then map (\<lambda>c. if cr_id c = cr_id r
               then c\<lparr>cr_revoked_at := cr_revoked_at r, cr_replacement := cr_replacement r, cr_reason := cr_reason r\<rparr>
               else c) (credentials d)
        else credentials d @ [r])\<rparr>))))"

definition restore_receipt :: "receipt_row \<Rightarrow> db \<Rightarrow> sqlite_error + db" where
  "restore_receipt r d =
     (if rr_token_hash r \<in> rr_token_hash ` set (registration_receipts d) then Inr d
      else
        and_then (ensure (rr_credential_id r \<notin> rr_credential_id ` set (registration_receipts d)
            \<and> rr_principal_id r \<notin> rr_principal_id ` set (registration_receipts d)) ConstraintUnique) (\<lambda>_.
        Inr (changed (d\<lparr>registration_receipts := registration_receipts d @ [r]\<rparr>))))"

definition restore_credential_audit :: "int \<times> credential_audit_row \<Rightarrow> db \<Rightarrow> sqlite_error + db" where
  "restore_credential_audit r d =
     (if fst r \<in> fst ` set (credential_audit d) then Inr d
      else
        and_then (ensure (ca_operation (snd r) \<in> {''issued'', ''rotated'', ''revoked'', ''recovered''})
          ConstraintCheck) (\<lambda>_.
        Inr (changed (d\<lparr>credential_audit := credential_audit d @ [r]\<rparr>))))"

definition restore_audit_event :: "audit_event_row \<Rightarrow> db \<Rightarrow> sqlite_error + db" where
  "restore_audit_event r d =
     (if ae_id r \<in> ae_id ` set (audit_events d) then Inr d
      else Inr (changed (d\<lparr>audit_events := audit_events d @ [r]\<rparr>)))"

text \<open>\<open>ON CONFLICT DO UPDATE SET last_seq=max(last_seq,excluded.last_seq)\<close>.\<close>

definition raise_inbox_head :: "string \<times> int \<Rightarrow> db \<Rightarrow> storage_error + db" where
  "raise_inbox_head h d =
     and_then (ensure (snd h > 0) (RecoveryClosed ''invalid inbox allocation head'')) (\<lambda>_.
     Inr (changed (d\<lparr>inbox_sequences :=
       (if fst h \<in> fst ` set (inbox_sequences d)
        then map (\<lambda>(p, n). if p = fst h then (p, max n (snd h)) else (p, n)) (inbox_sequences d)
        else inbox_sequences d @ [h])\<rparr>)))"

section \<open>Names\<close>

definition retire_other_names :: "string \<Rightarrow> string \<Rightarrow> db \<Rightarrow> db" where
  "retire_other_names prin name d = d\<lparr>principal_names :=
     map (\<lambda>n. if nm_principal_id n = prin \<and> nm_kind n = ''current'' \<and> nm_name n \<noteq> name
              then n\<lparr>nm_kind := ''alias''\<rparr> else n) (principal_names d)\<rparr>"

definition restore_name :: "name_row \<Rightarrow> db \<Rightarrow> storage_error + db" where
  "restore_name r d0 =
     and_then (ensure (nm_kind r \<in> {''current'', ''alias''}) (RecoveryClosed ''principal-name snapshot kind differs'')) (\<lambda>_.
     let d = (if nm_kind r = ''current'' then retire_other_names (nm_principal_id r) (nm_name r) d0 else d0) in
     (case find (\<lambda>n. nm_name n = nm_name r) (principal_names d) of
        Some stored \<Rightarrow>
          if stored = r then Inr d
          else if nm_principal_id stored = nm_principal_id r \<and> nm_kind stored = ''current'' \<and> nm_kind r = ''alias''
              \<and> nm_created_at stored = nm_created_at r
          then Inr (d\<lparr>principal_names := map (\<lambda>n. if nm_name n = nm_name r then n\<lparr>nm_kind := ''alias''\<rparr> else n)
                 (principal_names d)\<rparr>)
          else Inl (RecoveryClosed ''principal-name lineage conflicts'')
      | None \<Rightarrow> map_err StorageSqlite (insert_name r d)))"

fun try_fold :: "('x \<Rightarrow> 's \<Rightarrow> 'e + 's) \<Rightarrow> 'x list \<Rightarrow> 's \<Rightarrow> 'e + 's" where
  "try_fold f [] s = Inr s"
| "try_fold f (x # xs) s = and_then (f x s) (try_fold f xs)"

definition restore_name_row :: "cell list \<Rightarrow> db \<Rightarrow> storage_error + db" where
  "restore_name_row row d = (case row of
     [CText name, CText prin, CText kind, CText created] \<Rightarrow>
       restore_name \<lparr>nm_name = name, nm_principal_id = prin, nm_kind = kind, nm_created_at = created\<rparr> d
   | _ \<Rightarrow> Inl (RecoveryClosed ''principal-name snapshot row differs''))"

definition restore_principal_names :: "cell list list \<Rightarrow> db \<Rightarrow> storage_error + db" where
  "restore_principal_names = try_fold restore_name_row"

section \<open>The snapshot against the database\<close>

definition SECURITY_TABLES :: "string list" where
  "SECURITY_TABLES = [''principals'', ''principal_names'', ''spaces'', ''memberships'', ''profile_idempotency_keys'',
     ''credentials'', ''registration_receipts'', ''credential_audit'', ''audit_events'']"

definition security_rows :: "snapshot \<Rightarrow> string \<Rightarrow> storage_error + cell list list" where
  "security_rows latest table =
     and_then (ensure (sn_schema_version latest = 13 \<and> length (sn_tables latest) = length SECURITY_TABLES)
       (RecoveryClosed ''security snapshot shape differs'')) (\<lambda>_.
     ok_or (RecoveryClosed ''security snapshot table is missing'')
       (map_of (zip SECURITY_TABLES (sn_tables latest)) table))"

fun starts_with_text :: "cell list \<Rightarrow> bool" where
  "starts_with_text (CText _ # _) = True"
| "starts_with_text _ = False"

fun starts_with_integer :: "cell list \<Rightarrow> bool" where
  "starts_with_integer (CInteger _ # _) = True"
| "starts_with_integer _ = False"

text \<open>One table of \<open>validate_credential_history\<close>: the shape of the audited rows, a matching audited row
  for every row of the database, and no two audited rows that bind the same thing.\<close>

definition validate_bindings :: "nat \<Rightarrow> nat \<Rightarrow> (cell list \<Rightarrow> cell list \<Rightarrow> bool) \<Rightarrow> cell list list \<Rightarrow> cell list list
    \<Rightarrow> storage_error + unit" where
  "validate_bindings columns immutable clash audited existing =
     and_then (ensure (list_all (\<lambda>row. length row = columns \<and> starts_with_text row) audited)
       (RecoveryClosed ''credential snapshot shape differs'')) (\<lambda>_.
     and_then (ensure (list_all (\<lambda>row. case find (\<lambda>candidate. candidate ! 0 = row ! 0) audited of
           Some candidate \<Rightarrow> take immutable candidate = take immutable row | None \<Rightarrow> False) existing)
       (RecoveryClosed ''credential or registration binding conflicts'')) (\<lambda>_.
     ensure (sorted_wrt (\<lambda>prior row. \<not> (prior ! 0 = row ! 0 \<or> clash prior row)) audited)
       (RecoveryClosed ''credential snapshot contains conflicting bindings'')))"

definition validate_credential_history :: "db \<Rightarrow> snapshot \<Rightarrow> storage_error + unit" where
  "validate_credential_history d latest =
     and_then (security_rows latest ''credentials'') (\<lambda>audited.
     and_then (validate_bindings 9 6 (\<lambda>prior row. prior ! 3 = row ! 3) audited (map credential_cells (credentials d))) (\<lambda>_.
     and_then (security_rows latest ''registration_receipts'') (\<lambda>audited.
     validate_bindings 6 6 (\<lambda>prior row. prior ! 1 = row ! 1 \<or> prior ! 2 = row ! 2) audited
       (map receipt_cells (registration_receipts d)))))"

text \<open>The loop that fills \<open>identities\<close>.\<close>

fun collect_identities :: "nat \<Rightarrow> (cell list \<Rightarrow> bool) \<Rightarrow> cell list list \<Rightarrow> cell list list \<Rightarrow> storage_error + unit" where
  "collect_identities columns valid_id [] seen = Inr ()"
| "collect_identities columns valid_id (row # rows) seen =
     and_then (ensure (length row = columns \<and> valid_id row) (RecoveryClosed ''security history snapshot shape differs'')) (\<lambda>_.
     and_then (ensure (row ! 0 \<notin> (\<lambda>r. r ! 0) ` set seen)
       (RecoveryClosed ''security history snapshot contains conflicting identities'')) (\<lambda>_.
     collect_identities columns valid_id rows (row # seen)))"

definition validate_history :: "nat \<Rightarrow> (cell list \<Rightarrow> bool) \<Rightarrow> cell list list \<Rightarrow> cell list list \<Rightarrow> storage_error + unit" where
  "validate_history columns valid_id audited existing =
     and_then (collect_identities columns valid_id audited []) (\<lambda>_.
     ensure (list_all (\<lambda>row. find (\<lambda>candidate. candidate ! 0 = row ! 0) audited = Some row) existing)
       (RecoveryClosed ''security history binding conflicts''))"

definition validate_security_history :: "db \<Rightarrow> snapshot \<Rightarrow> storage_error + unit" where
  "validate_security_history d latest =
     and_then (security_rows latest ''credential_audit'') (\<lambda>audited.
     and_then (validate_history 5 starts_with_integer audited (map credential_audit_cells (credential_audit d))) (\<lambda>_.
     and_then (security_rows latest ''audit_events'') (\<lambda>audited.
     validate_history 7 starts_with_text audited (map audit_event_cells (audit_events d)))))"

section \<open>Restoring\<close>

text \<open>\<open>clock n\<close> is what \<open>strftime('now')\<close> gives in the n-th of the statements that read it.\<close>

definition revoke_everything :: "string \<Rightarrow> db \<Rightarrow> db" where
  "revoke_everything at_time d = d\<lparr>
     credentials := map (\<lambda>c. c\<lparr>cr_revoked_at := Some (case cr_revoked_at c of None \<Rightarrow> at_time | Some t \<Rightarrow> t),
       cr_reason := Some ''central restore''\<rparr>) (credentials d),
     memberships := []\<rparr>"

text \<open>One row of one of the tables restored by the generic upsert.\<close>

definition restore_row :: "nat \<Rightarrow> (cell list \<Rightarrow> sqlite_error + 'r) \<Rightarrow> ('r \<Rightarrow> db \<Rightarrow> sqlite_error + db)
    \<Rightarrow> cell list \<Rightarrow> db \<Rightarrow> storage_error + db" where
  "restore_row columns row_of statement row d =
     and_then (ensure (length row = columns) (RecoveryClosed ''security snapshot row differs'')) (\<lambda>_.
     map_err StorageSqlite (and_then (row_of row) (\<lambda>r. statement r d)))"

definition restore_credential_row :: "(nat \<Rightarrow> string) \<Rightarrow> nat \<times> cell list \<Rightarrow> db \<Rightarrow> storage_error + db" where
  "restore_credential_row clock row d =
     map_err StorageSqlite (and_then (credential_of_cells (clock (fst row)) (snd row)) (\<lambda>r. upsert_credential r d))"

definition restore_credential_history :: "(nat \<Rightarrow> string) \<Rightarrow> snapshot \<Rightarrow> db \<Rightarrow> storage_error + db" where
  "restore_credential_history clock latest d =
     and_then (security_rows latest ''credentials'') (\<lambda>rows.
     and_then (try_fold (restore_credential_row clock) (enumerate 1 rows) d) (\<lambda>d.
     and_then (security_rows latest ''registration_receipts'') (\<lambda>rows.
     try_fold (\<lambda>row d. map_err StorageSqlite (and_then (receipt_of_cells row) (\<lambda>r. restore_receipt r d))) rows d)))"

definition restore_security_history :: "snapshot \<Rightarrow> db \<Rightarrow> storage_error + db" where
  "restore_security_history latest d =
     and_then (security_rows latest ''credential_audit'') (\<lambda>rows.
     and_then (try_fold (\<lambda>row d. map_err StorageSqlite
       (and_then (credential_audit_of_cells row) (\<lambda>r. restore_credential_audit r d))) rows d) (\<lambda>d.
     and_then (security_rows latest ''audit_events'') (\<lambda>rows.
     try_fold (\<lambda>row d. map_err StorageSqlite
       (and_then (audit_event_of_cells row) (\<lambda>r. restore_audit_event r d))) rows d)))"

definition restore_security :: "(nat \<Rightarrow> string) \<Rightarrow> snapshot \<Rightarrow> db \<Rightarrow> storage_error + db" where
  "restore_security clock latest d =
     and_then (ensure (sn_schema_version latest = 13 \<and> length (sn_tables latest) = length SECURITY_TABLES)
       (RecoveryClosed ''security snapshot shape differs'')) (\<lambda>_.
     and_then (validate_credential_history d latest) (\<lambda>_.
     and_then (validate_security_history d latest) (\<lambda>_.
     let d = revoke_everything (clock 0) d in
     and_then (security_rows latest ''principals'') (\<lambda>rows.
     and_then (try_fold (restore_row 6 principal_of_cells upsert_principal) rows d) (\<lambda>d.
     and_then (security_rows latest ''principal_names'') (\<lambda>rows.
     and_then (restore_principal_names rows d) (\<lambda>d.
     and_then (security_rows latest ''spaces'') (\<lambda>rows.
     and_then (try_fold (restore_row 5 space_of_cells upsert_space) rows d) (\<lambda>d.
     and_then (security_rows latest ''memberships'') (\<lambda>rows.
     and_then (try_fold (restore_row 6 membership_of_cells restore_membership) rows d) (\<lambda>d.
     and_then (security_rows latest ''profile_idempotency_keys'') (\<lambda>rows.
     and_then (try_fold (restore_row 5 profile_key_of_cells upsert_profile_key) rows d) (\<lambda>d.
     and_then (restore_credential_history clock latest d) (\<lambda>d.
     and_then (restore_security_history latest d) (\<lambda>d.
     try_fold raise_inbox_head (sn_inbox_heads latest) d)))))))))))))))"

section \<open>What restoring keeps\<close>

text \<open>The statements of the restoration as one relation: every property they all have is proved once, by
  cases. A membership, a credential and an inbox head come from a row of the snapshot.\<close>

definition audited :: "snapshot \<Rightarrow> string \<Rightarrow> cell list \<Rightarrow> bool" where
  "audited latest table row \<longleftrightarrow> (\<exists>rows. security_rows latest table = Inr rows \<and> row \<in> set rows)"

definition audited_memberships :: "snapshot \<Rightarrow> membership_row set" where
  "audited_memberships latest = {r. \<exists>row. audited latest ''memberships'' row \<and> membership_of_cells row = Inr r}"

definition audited_credentials :: "snapshot \<Rightarrow> credential_row set" where
  "audited_credentials latest = {r. \<exists>t row. audited latest ''credentials'' row \<and> credential_of_cells t row = Inr r}"

inductive statement :: "snapshot \<Rightarrow> db \<Rightarrow> db \<Rightarrow> bool" for latest where
  principal: "upsert_principal r d = Inr d' \<Longrightarrow> statement latest d d'"
| name: "restore_name r d = Inr d' \<Longrightarrow> statement latest d d'"
| space: "upsert_space r d = Inr d' \<Longrightarrow> statement latest d d'"
| membership: "restore_membership r d = Inr d' \<Longrightarrow> r \<in> audited_memberships latest \<Longrightarrow> statement latest d d'"
| profile_key: "upsert_profile_key r d = Inr d' \<Longrightarrow> statement latest d d'"
| credential: "upsert_credential r d = Inr d' \<Longrightarrow> r \<in> audited_credentials latest \<Longrightarrow> statement latest d d'"
| receipt: "restore_receipt r d = Inr d' \<Longrightarrow> statement latest d d'"
| credential_audit: "restore_credential_audit ir d = Inr d' \<Longrightarrow> statement latest d d'"
| audit_event: "restore_audit_event r d = Inr d' \<Longrightarrow> statement latest d d'"
| inbox_head: "raise_inbox_head h d = Inr d' \<Longrightarrow> statement latest d d'"

lemma try_fold_steps:
  assumes "try_fold f xs s = Inr s'" "\<And>x s s'. x \<in> set xs \<Longrightarrow> f x s = Inr s' \<Longrightarrow> R s s'"
  shows "R\<^sup>*\<^sup>* s s'"
  using assms
proof (induction xs arbitrary: s)
  case (Cons x xs)
  from Cons.prems(1) obtain t where t: "f x s = Inr t" "try_fold f xs t = Inr s'" by (auto simp: result_simps)
  have "R\<^sup>*\<^sup>* t s'" using t(2) by (rule Cons.IH) (rule Cons.prems(2), simp_all)
  then show ?case using t(1) Cons.prems(2) [of x] by (meson converse_rtranclp_into_rtranclp list.set_intros(1))
qed simp

lemma restore_row_Inr:
  "restore_row n row_of stmt row d = Inr d' \<Longrightarrow> \<exists>r. row_of row = Inr r \<and> stmt r d = Inr d'"
  by (auto simp: restore_row_def result_simps)

lemma plain_rows:
  "try_fold (restore_row 6 principal_of_cells upsert_principal) xs d = Inr d' \<Longrightarrow> (statement latest)\<^sup>*\<^sup>* d d'"
  "try_fold restore_name_row xs d = Inr d' \<Longrightarrow> (statement latest)\<^sup>*\<^sup>* d d'"
  "try_fold (restore_row 5 space_of_cells upsert_space) xs d = Inr d' \<Longrightarrow> (statement latest)\<^sup>*\<^sup>* d d'"
  "try_fold (restore_row 5 profile_key_of_cells upsert_profile_key) xs d = Inr d' \<Longrightarrow> (statement latest)\<^sup>*\<^sup>* d d'"
  "try_fold (\<lambda>row d. map_err StorageSqlite (and_then (receipt_of_cells row) (\<lambda>r. restore_receipt r d))) xs d = Inr d'
    \<Longrightarrow> (statement latest)\<^sup>*\<^sup>* d d'"
  "try_fold (\<lambda>row d. map_err StorageSqlite (and_then (credential_audit_of_cells row) (\<lambda>r. restore_credential_audit r d))) xs d
    = Inr d' \<Longrightarrow> (statement latest)\<^sup>*\<^sup>* d d'"
  "try_fold (\<lambda>row d. map_err StorageSqlite (and_then (audit_event_of_cells row) (\<lambda>r. restore_audit_event r d))) xs d = Inr d'
    \<Longrightarrow> (statement latest)\<^sup>*\<^sup>* d d'"
  "try_fold raise_inbox_head hs d = Inr d' \<Longrightarrow> (statement latest)\<^sup>*\<^sup>* d d'"
  by (erule try_fold_steps,
      auto simp: restore_name_row_def result_simps intro: statement.intros dest!: restore_row_Inr split: list.splits cell.splits)+

lemma membership_rows:
  assumes "security_rows latest ''memberships'' = Inr xs"
    "try_fold (restore_row 6 membership_of_cells restore_membership) xs d = Inr d'"
  shows "(statement latest)\<^sup>*\<^sup>* d d'"
  using assms(2)
proof (rule try_fold_steps)
  fix row d d' assume "row \<in> set xs" "restore_row 6 membership_of_cells restore_membership row d = Inr d'"
  then obtain r where "membership_of_cells row = Inr r" "restore_membership r d = Inr d'" "audited latest ''memberships'' row"
    using assms(1) by (auto simp: audited_def dest!: restore_row_Inr)
  then show "statement latest d d'" by (intro membership [of r]) (auto simp: audited_memberships_def)
qed

lemma credential_rows:
  assumes "security_rows latest ''credentials'' = Inr xs"
    "try_fold (restore_credential_row clock) (enumerate 1 xs) d = Inr d'"
  shows "(statement latest)\<^sup>*\<^sup>* d d'"
  using assms(2)
proof (rule try_fold_steps)
  fix row d d' assume row: "row \<in> set (enumerate 1 xs)" "restore_credential_row clock row d = Inr d'"
  from row(1) have "snd row \<in> set (map snd (enumerate 1 xs))" unfolding set_map by (rule imageI)
  then have "snd row \<in> set xs" by (simp only: map_snd_enumerate)
  then obtain r where "credential_of_cells (clock (fst row)) (snd row) = Inr r" "upsert_credential r d = Inr d'"
      "audited latest ''credentials'' (snd row)"
    using assms(1) row(2) by (auto simp: audited_def restore_credential_row_def result_simps)
  then show "statement latest d d'" by (intro credential [of r]) (auto simp: audited_credentials_def)
qed

lemma restore_security_run:
  assumes "restore_security clock latest d = Inr d'"
  shows "(statement latest)\<^sup>*\<^sup>* (revoke_everything (clock 0) d) d' \<and> validate_credential_history d latest = Inr ()"
proof -
  let ?R = "(statement latest)\<^sup>*\<^sup>*"
  have "?R (revoke_everything (clock 0) d) d'"
    using assms unfolding restore_security_def restore_credential_history_def restore_security_history_def
      restore_principal_names_def Let_def result_simps
    apply (elim exE conjE)
    apply (drule plain_rows [where latest = latest])+
    apply (frule (1) membership_rows)
    apply (frule (1) credential_rows)
    apply (meson rtranclp_trans)
    done
  then show ?thesis using assms by (auto simp: restore_security_def result_simps)
qed

text \<open>The journal proper, its keys and its recovery anchor are not restored.\<close>

definition untouched :: "db \<Rightarrow> db \<Rightarrow> bool" where
  "untouched d d' \<longleftrightarrow> same_journal d d' \<and> mailbox_items d' = mailbox_items d \<and> cursor_secret d' = cursor_secret d
     \<and> journal_id d' = journal_id d \<and> anchor_revision d' = anchor_revision d
     \<and> audit_required d' = audit_required d \<and> inbox_epoch d' = inbox_epoch d"

lemmas statement_defs = upsert_principal_def restore_name_def upsert_space_def restore_membership_def upsert_profile_key_def
  upsert_credential_def restore_receipt_def restore_credential_audit_def restore_audit_event_def raise_inbox_head_def
  insert_name_def retire_other_names_def changed_def Let_def result_simps

lemma statement_untouched: "statement latest d d' \<Longrightarrow> untouched d d'"
  by (cases rule: statement.cases, assumption)
    (auto simp: untouched_def same_journal_def statement_defs split: if_splits option.splits)

lemma statements_untouched: "(statement latest)\<^sup>*\<^sup>* d d' \<Longrightarrow> untouched d d'"
  by (induction rule: rtranclp_induct)
    (use statement_untouched in \<open>auto simp: untouched_def same_journal_def\<close>)

section \<open>Authority\<close>

text \<open>Two rows that bind the same token to the same principal.\<close>

definition same_binding :: "credential_row \<Rightarrow> credential_row \<Rightarrow> bool" where
  "same_binding c r \<longleftrightarrow> cr_id c = cr_id r \<and> cr_principal_id c = cr_principal_id r \<and> cr_class c = cr_class r
     \<and> cr_token_hash c = cr_token_hash r \<and> cr_created_at c = cr_created_at r \<and> cr_expires_at c = cr_expires_at r"

definition powerless :: "snapshot \<Rightarrow> db \<Rightarrow> bool" where
  "powerless latest d \<longleftrightarrow> set (memberships d) \<subseteq> audited_memberships latest
     \<and> (\<forall>c \<in> set (credentials d). cr_revoked_at c \<noteq> None \<and> (\<exists>r \<in> audited_credentials latest. same_binding c r))"

lemma set_upsert: "set (upsert key r rows) \<subseteq> insert r (set rows)"
  by (auto simp: upsert_def)

lemma audited_credentials_revoked: "r \<in> audited_credentials latest \<Longrightarrow> cr_revoked_at r \<noteq> None"
  by (auto simp: audited_credentials_def credential_of_cells_def result_simps)

lemma upsert_credential_rows:
  assumes "upsert_credential r d = Inr d'" "c \<in> set (credentials d')"
  shows "c \<in> set (credentials d) \<or> c = r \<or> (\<exists>c0 \<in> set (credentials d). same_binding c c0 \<and> cr_revoked_at c = cr_revoked_at r)"
proof -
  define g where "g c = (if cr_id c = cr_id r
    then c\<lparr>cr_revoked_at := cr_revoked_at r, cr_replacement := cr_replacement r, cr_reason := cr_reason r\<rparr> else c)" for c :: credential_row
  have g: "same_binding (g c0) c0" "g c0 \<noteq> c0 \<Longrightarrow> cr_revoked_at (g c0) = cr_revoked_at r" for c0
    by (simp_all add: g_def same_binding_def split: if_splits)
  have "credentials d' = map g (credentials d) \<or> credentials d' = credentials d @ [r]"
    using assms(1) by (auto simp: upsert_credential_def result_simps changed_def g_def split: if_splits)
  then consider "c \<in> set (credentials d)" | "c = r" | c0 where "c0 \<in> set (credentials d)" "c = g c0"
    using assms(2) by auto
  then show ?thesis by cases (use g in metis)+
qed

lemma statement_powerless:
  assumes "statement latest d d'" "powerless latest d"
  shows "powerless latest d'"
  using assms(1)
proof cases
  case (membership r)
  then show ?thesis
    using assms(2) set_upsert [of "\<lambda>m. (mb_space_id m, mb_principal_id m)" r "memberships d"]
    by (auto simp: powerless_def restore_membership_def result_simps changed_def)
next
  case (credential r)
  have same: "memberships d' = memberships d" using credential(1) by (auto simp: upsert_credential_def result_simps changed_def)
  have "cr_revoked_at c \<noteq> None \<and> (\<exists>r \<in> audited_credentials latest. same_binding c r)" if "c \<in> set (credentials d')" for c
    using upsert_credential_rows [OF credential(1) that]
  proof (elim disjE bexE)
    fix c0 assume "c0 \<in> set (credentials d)" "same_binding c c0 \<and> cr_revoked_at c = cr_revoked_at r"
    then show ?thesis
      using assms(2) audited_credentials_revoked [OF credential(2)] unfolding powerless_def same_binding_def by metis
  qed (use assms(2) credential(2) audited_credentials_revoked [OF credential(2)] in \<open>auto simp: powerless_def same_binding_def\<close>)
  then show ?thesis using assms(2) same by (auto simp: powerless_def)
qed (use assms(2) in \<open>auto simp: powerless_def statement_defs split: if_splits option.splits\<close>)

lemma optional_cell_total: "\<exists>x. optional_cell c = Inr x"
  by (cases c) auto

lemma text_cell_opt: "optional_cell (cell_opt x) = Inr x"
  by (cases x) auto

text \<open>A row of the database that the snapshot recognises.\<close>

lemma validated_match:
  assumes "validate_bindings columns immutable clash rows existing = Inr ()" "x \<in> set existing"
  shows "\<exists>row \<in> set rows. take immutable row = take immutable x"
proof -
  have "case find (\<lambda>candidate. candidate ! 0 = x ! 0) rows of
      Some candidate \<Rightarrow> take immutable candidate = take immutable x | None \<Rightarrow> False"
    using assms by (simp add: validate_bindings_def result_simps list_all_iff)
  then show ?thesis by (auto split: option.splits dest: find_SomeD)
qed

lemma validated_binding:
  assumes "validate_credential_history d latest = Inr ()" "c \<in> set (credentials d)"
  shows "\<exists>r \<in> audited_credentials latest. same_binding c r"
proof -
  obtain rows where rows: "security_rows latest ''credentials'' = Inr rows"
      "validate_bindings 9 6 (\<lambda>prior row. prior ! 3 = row ! 3) rows (map credential_cells (credentials d)) = Inr ()"
    using assms(1) by (auto simp: validate_credential_history_def result_simps)
  then obtain row where row: "row \<in> set rows" "take 6 row = take 6 (credential_cells c)"
    using validated_match [of 9 6 _ rows "map credential_cells (credentials d)" "credential_cells c"] assms(2) by auto
  have "row ! k = credential_cells c ! k" if "k < 6" for k
    using arg_cong [OF row(2), of "\<lambda>xs. xs ! k"] that by simp
  from this [of 0] this [of 1] this [of 2] this [of 3] this [of 4] this [of 5]
  have cells: "row ! 0 = CText (cr_id c)" "row ! 1 = CText (cr_principal_id c)" "row ! 2 = CText (cr_class c)"
    "row ! 3 = CText (cr_token_hash c)" "row ! 4 = CText (cr_created_at c)" "row ! 5 = cell_opt (cr_expires_at c)"
    by (simp_all add: credential_cells_def)
  obtain revoked replacement reason where "optional_cell (row ! 6) = Inr revoked" "optional_cell (row ! 7) = Inr replacement"
      "optional_cell (row ! 8) = Inr reason"
    using optional_cell_total by metis
  then have "\<exists>r. credential_of_cells [] row = Inr r \<and> same_binding c r"
    by (simp add: credential_of_cells_def cells [unfolded One_nat_def] text_cell_opt same_binding_def)
  then show ?thesis using rows(1) row(1) by (auto simp: audited_credentials_def audited_def)
qed

lemma revoked_powerless:
  assumes "validate_credential_history d latest = Inr ()"
  shows "powerless latest (revoke_everything t d)"
proof -
  have "\<exists>r \<in> audited_credentials latest. same_binding (c\<lparr>cr_revoked_at := x, cr_reason := y\<rparr>) r" if "c \<in> set (credentials d)" for c x y
    using validated_binding [OF assms that] by (simp add: same_binding_def)
  then show ?thesis by (auto simp: powerless_def revoke_everything_def)
qed

lemma restore_security_powerless:
  assumes "restore_security clock latest d = Inr d'"
  shows "powerless latest d'"
  using restore_security_run [OF assms] revoked_powerless [of d latest] statement_powerless
  by (metis (no_types, lifting) rtranclp_induct)

lemma restore_security_untouched:
  assumes "restore_security clock latest d = Inr d'"
  shows "untouched d d'"
  using statements_untouched [OF conjunct1 [OF restore_security_run [OF assms]]]
  by (simp add: untouched_def same_journal_def revoke_everything_def)

section \<open>Integrity\<close>

text \<open>The keys of the restored tables; with the references checked at the end they give the integrity of
  the whole database.\<close>

definition keyed :: "db \<Rightarrow> bool" where
  "keyed d \<longleftrightarrow> distinct (map pr_id (principals d)) \<and> distinct (map nm_name (principal_names d))
     \<and> nm_name ` set (principal_names d) \<inter> pr_id ` set (principals d) = {}
     \<and> distinct (map nm_principal_id (filter (\<lambda>n. nm_kind n = ''current'') (principal_names d)))
     \<and> distinct (map cr_id (credentials d)) \<and> distinct (map cr_token_hash (credentials d))
     \<and> cr_class ` set (credentials d) \<subseteq> {''principal-client''}
     \<and> distinct (map rr_token_hash (registration_receipts d))
     \<and> distinct (map sp_id (spaces d)) \<and> distinct (map sp_name (spaces d)) \<and> sp_access ` set (spaces d) \<subseteq> {''public''}
     \<and> distinct (map (\<lambda>k. (pk_principal_id k, pk_key k)) (profile_idempotency_keys d))
     \<and> distinct (map fst (inbox_sequences d))"

lemma keys_upsert: "key ` set (upsert key r rows) = insert (key r) (key ` set rows)"
  by (auto simp: upsert_def image_iff split: if_splits)

lemma distinct_upsert: "distinct (map key rows) \<Longrightarrow> distinct (map key (upsert key r rows))"
  by (auto simp: upsert_def comp_def if_distrib [of key] cong: if_cong)

text \<open>A second unique column: the other rows do not have the new row's value.\<close>

lemma distinct_upsert_other:
  assumes "distinct (map key rows)" "distinct (map other rows)" "\<And>x. x \<in> set rows \<Longrightarrow> other x = other r \<Longrightarrow> key x = key r"
  shows "distinct (map other (upsert key r rows))"
proof (cases "key r \<in> key ` set rows")
  case True
  have "distinct (map other (map (\<lambda>x. if key x = key r then r else x) rows))"
    using assms
  proof (induction rows)
    case (Cons x rows)
    have fresh: "key y \<noteq> key x" "other y \<noteq> other x" if "y \<in> set rows" for y
      using imageI [OF that, of key] imageI [OF that, of other] Cons.prems(1,2) by auto
    have IH: "distinct (map other (map (\<lambda>x. if key x = key r then r else x) rows))" using Cons by simp
    show ?case
    proof (cases "key x = key r")
      case True
      then have "map (\<lambda>x. if key x = key r then r else x) rows = rows"
        using fresh by (intro map_idI) auto
      moreover have "other r \<notin> other ` set rows"
      proof
        assume "other r \<in> other ` set rows"
        then obtain y where "y \<in> set rows" "other y = other r" by auto
        then show False using Cons.prems(3) [of y] fresh(1) [of y] True by simp
      qed
      ultimately show ?thesis using True IH by auto
    next
      case False
      then show ?thesis using IH Cons.prems(1,2) Cons.prems(3) [of x] by (auto split: if_splits)
    qed
  qed simp
  then show ?thesis using True by (simp add: upsert_def)
next
  case False
  have "other r \<notin> other ` set rows"
  proof
    assume "other r \<in> other ` set rows"
    then obtain y where "y \<in> set rows" "other y = other r" by auto
    then show False using assms(3) [of y] imageI [of y "set rows" key] False by simp
  qed
  then show ?thesis using assms(2) False by (simp add: upsert_def)
qed

lemma retire_names_keyed:
  assumes "keyed d" "\<And>n. nm_name (g n) = nm_name n" "\<And>n. nm_principal_id (g n) = nm_principal_id n"
    "\<And>n. nm_kind (g n) = ''current'' \<Longrightarrow> nm_kind n = ''current''"
  shows "keyed (d\<lparr>principal_names := map g (principal_names d)\<rparr>)"
proof -
  have "distinct (map nm_principal_id (filter (\<lambda>n. nm_kind n = ''current'') (map g xs)))"
    if "distinct (map nm_principal_id (filter (\<lambda>n. nm_kind n = ''current'') xs))" for xs
    using that by (induction xs) (auto simp: assms(2,3) dest!: assms(4) split: if_splits)
  then show ?thesis using assms(1) by (simp add: keyed_def comp_def image_image assms(2,3))
qed

lemma restore_name_keyed:
  assumes "restore_name r d = Inr d'" "keyed d"
  shows "keyed d'"
proof -
  define d1 where "d1 = (if nm_kind r = ''current'' then retire_other_names (nm_principal_id r) (nm_name r) d else d)"
  have d1: "keyed d1"
    using assms(2) unfolding d1_def retire_other_names_def by (auto intro!: retire_names_keyed split: if_splits)
  consider "d' = d1" | "d' = d1\<lparr>principal_names := map (\<lambda>n. if nm_name n = nm_name r then n\<lparr>nm_kind := ''alias''\<rparr> else n) (principal_names d1)\<rparr>"
    | "insert_name r d1 = Inr d'"
    using assms(1) by (auto simp: restore_name_def Let_def d1_def [symmetric] result_simps split: option.splits if_splits)
  then show ?thesis
  proof cases
    case 2
    show ?thesis unfolding 2 by (rule retire_names_keyed [OF d1]) (auto split: if_splits)
  next
    case 3
    then show ?thesis using d1 insert_nameD [OF 3] by (auto simp: keyed_def changed_def)
  qed (use d1 in simp)
qed

lemma statement_keyed:
  assumes "statement latest d d'" "keyed d"
  shows "keyed d'"
  using assms(1)
proof cases
  case (principal r)
  then have "d' = changed (d\<lparr>principals := upsert pr_id r (principals d)\<rparr>)" "pr_id r \<notin> nm_name ` set (principal_names d)"
    by (simp_all add: upsert_principal_def result_simps)
  then show ?thesis using assms(2) by (simp add: keyed_def changed_def distinct_upsert keys_upsert)
next
  case (name r)
  then show ?thesis using assms(2) restore_name_keyed by blast
next
  case (space r)
  have "distinct (map sp_name (upsert sp_id r (spaces d)))"
    using assms(2) space by (intro distinct_upsert_other) (auto simp: keyed_def upsert_space_def result_simps list_ex_iff)
  moreover have "sp_access x = ''public''" if "x \<in> set (upsert sp_id r (spaces d))" for x
    using subsetD [OF set_upsert that] assms(2) space by (auto simp: keyed_def upsert_space_def result_simps image_subset_iff)
  moreover have "d' = changed (d\<lparr>spaces := upsert sp_id r (spaces d)\<rparr>)"
    using space by (simp add: upsert_space_def result_simps)
  ultimately show ?thesis
    using assms(2) by (simp add: keyed_def changed_def distinct_upsert image_subset_iff)
next
  case (profile_key r)
  then have "d' = changed (d\<lparr>profile_idempotency_keys :=
      upsert (\<lambda>k. (pk_principal_id k, pk_key k)) r (profile_idempotency_keys d)\<rparr>)"
    by (simp add: upsert_profile_key_def result_simps)
  then show ?thesis
    using assms(2) distinct_upsert [of "\<lambda>k. (pk_principal_id k, pk_key k)" "profile_idempotency_keys d" r]
    by (simp add: keyed_def changed_def)
next
  case (credential r)
  define g where "g c = (if cr_id c = cr_id r
    then c\<lparr>cr_revoked_at := cr_revoked_at r, cr_replacement := cr_replacement r, cr_reason := cr_reason r\<rparr> else c)"
    for c :: credential_row
  have g: "cr_id (g c) = cr_id c" "cr_token_hash (g c) = cr_token_hash c" "cr_class (g c) = cr_class c" for c
    by (simp_all add: g_def)
  have others: "cr_class r = ''principal-client''" "\<forall>c \<in> set (credentials d). cr_token_hash c = cr_token_hash r \<longrightarrow> cr_id c = cr_id r"
    using credential by (auto simp: upsert_credential_def result_simps list_ex_iff)
  have fresh: "cr_token_hash r \<notin> cr_token_hash ` set (credentials d)" if "cr_id r \<notin> cr_id ` set (credentials d)"
  proof
    assume "cr_token_hash r \<in> cr_token_hash ` set (credentials d)"
    then obtain c where "c \<in> set (credentials d)" "cr_token_hash c = cr_token_hash r" by auto
    then show False using others(2) that imageI [of c "set (credentials d)" cr_id] by simp
  qed
  have "d' = changed (d\<lparr>credentials := if cr_id r \<in> cr_id ` set (credentials d) then map g (credentials d)
      else credentials d @ [r]\<rparr>)"
    using credential by (auto simp: upsert_credential_def result_simps g_def [abs_def])
  then show ?thesis
    using assms(2) others(1) fresh by (cases "cr_id r \<in> cr_id ` set (credentials d)")
      (simp_all add: keyed_def changed_def comp_def image_image g)
next
  case (inbox_head h)
  define g :: "string \<times> int \<Rightarrow> string \<times> int" where "g = (\<lambda>(p, n). if p = fst h then (p, max n (snd h)) else (p, n))"
  have g: "fst (g e) = fst e" for e by (simp add: g_def case_prod_beta)
  have "changed (d\<lparr>inbox_sequences := if fst h \<in> fst ` set (inbox_sequences d)
      then map g (inbox_sequences d) else inbox_sequences d @ [h]\<rparr>) = d'"
    using inbox_head unfolding raise_inbox_head_def result_simps g_def by blast
  note d' = this [symmetric]
  show ?thesis
    using assms(2) unfolding d' by (cases "fst h \<in> fst ` set (inbox_sequences d)") (simp_all add: keyed_def changed_def comp_def g)
next
  case (receipt r)
  then have "d' = d \<or> rr_token_hash r \<notin> rr_token_hash ` set (registration_receipts d)
      \<and> d' = changed (d\<lparr>registration_receipts := registration_receipts d @ [r]\<rparr>)"
    by (auto simp: restore_receipt_def result_simps split: if_splits)
  then show ?thesis using assms(2) by (elim disjE) (simp_all add: keyed_def changed_def)
next
  case (membership r)
  then obtain ms where "d' = changed (d\<lparr>memberships := ms\<rparr>)" by (auto simp: restore_membership_def result_simps)
  then show ?thesis using assms(2) by (simp add: keyed_def changed_def)
next
  case (credential_audit r)
  then obtain xs where "d' = d \<or> d' = changed (d\<lparr>credential_audit := xs\<rparr>)"
    by (auto simp: restore_credential_audit_def result_simps split: if_splits)
  then show ?thesis using assms(2) by (elim disjE) (simp_all add: keyed_def changed_def)
next
  case (audit_event r)
  then obtain xs where "d' = d \<or> d' = changed (d\<lparr>audit_events := xs\<rparr>)"
    by (auto simp: restore_audit_event_def result_simps split: if_splits)
  then show ?thesis using assms(2) by (elim disjE) (simp_all add: keyed_def changed_def)
qed

lemma restored_schema:
  assumes "restore_security clock latest d = Inr d'" "schema_ok d" "references_ok d'"
  shows "schema_ok d'"
proof -
  have "keyed (revoke_everything (clock 0) d)"
    using assms(2) by (simp add: keyed_def revoke_everything_def schema_ok_def ok_defs comp_def image_image)
  moreover have "keyed y" if "(statement latest)\<^sup>*\<^sup>* x y" "keyed x" for x y
    using that by (induction rule: rtranclp_induct) (blast intro: statement_keyed)+
  ultimately have "keyed d'"
    using restore_security_run [OF assms(1)] by blast
  then show ?thesis
    using restore_security_untouched [OF assms(1)] assms(2,3) older_same_space_cong [of d' d]
    by (simp add: schema_ok_def ok_defs keyed_def references_ok_def Let_def untouched_def same_journal_def)
qed

section \<open>Inbox heads\<close>

lemma map_of_mapped: "map_of (map (\<lambda>(p, n). (p, f p n)) xs) q = map_option (f q) (map_of xs q)"
  by (induction xs) auto

lemma raise_inbox_head_raises:
  assumes "raise_inbox_head h d = Inr d'"
  shows "inbox_head d' q = (if q = fst h then max (inbox_head d q) (snd h) else inbox_head d q)"
proof (cases "fst h \<in> fst ` set (inbox_sequences d)")
  case True
  have "map (\<lambda>(p, n). if p = fst h then (p, max n (snd h)) else (p, n)) xs
      = map (\<lambda>(p, n). (p, (if p = fst h then max n (snd h) else n))) xs" for xs :: "(string \<times> int) list"
    by (induction xs) auto
  then have rows: "inbox_sequences d' = map (\<lambda>(p, n). (p, (if p = fst h then max n (snd h) else n))) (inbox_sequences d)"
    using assms True by (auto simp: raise_inbox_head_def result_simps changed_def)
  obtain n where "map_of (inbox_sequences d) (fst h) = Some n"
    using True by (metis map_of_eq_None_iff not_None_eq)
  then show ?thesis by (simp add: inbox_head_def rows map_of_mapped split: option.splits)
next
  case False
  then have "inbox_sequences d' = inbox_sequences d @ [h]" "snd h > 0" "map_of (inbox_sequences d) (fst h) = None"
    using assms by (auto simp: raise_inbox_head_def result_simps changed_def map_of_eq_None_iff)
  then show ?thesis by (cases h) (simp add: inbox_head_def map_add_def split: option.splits)
qed

lemma raised_inbox_heads:
  assumes "try_fold raise_inbox_head hs d = Inr d'"
  shows "(\<forall>q. inbox_head d q \<le> inbox_head d' q) \<and> (\<forall>h \<in> set hs. snd h \<le> inbox_head d' (fst h))"
  using assms
proof (induction hs arbitrary: d)
  case (Cons h hs)
  then obtain t where t: "raise_inbox_head h d = Inr t" "try_fold raise_inbox_head hs t = Inr d'" by (auto simp: result_simps)
  have head: "inbox_head d q \<le> inbox_head t q" "snd h \<le> inbox_head t (fst h)" for q
    using raise_inbox_head_raises [OF t(1)] by simp_all
  then show ?case
    using Cons.IH [OF t(2)] order_trans by (metis set_ConsD)
qed simp

lemma restored_inbox_heads:
  assumes "restore_security clock latest d = Inr d'"
  shows "inbox_head d q \<le> inbox_head d' q" "h \<in> set (sn_inbox_heads latest) \<Longrightarrow> snd h \<le> inbox_head d' (fst h)"
proof -
  have step: "inbox_head x q \<le> inbox_head y q" if "statement latest x y" for x y
    using that
  proof cases
    case (inbox_head h)
    then show ?thesis by (simp add: raise_inbox_head_raises)
  qed (auto simp: inbox_head_def statement_defs split: if_splits option.splits)
  have "inbox_head x q \<le> inbox_head y q" if "(statement latest)\<^sup>*\<^sup>* x y" for x y
    using that by (induction rule: rtranclp_induct) (auto dest: step)
  then show "inbox_head d q \<le> inbox_head d' q"
    using restore_security_run [OF assms] by (fastforce simp: revoke_everything_def inbox_head_def)
  show "h \<in> set (sn_inbox_heads latest) \<Longrightarrow> snd h \<le> inbox_head d' (fst h)"
    using assms raised_inbox_heads by (auto simp: restore_security_def Let_def result_simps)
qed

end
