(* ===== verification/Recovery.thy ===== *)
theory Recovery
  imports Restore
begin

text \<open>
  The life of the recovery audit (journal-storage-sqlite/src/recovery\_audit.rs): admission and
  creation of the audit at startup, closing it, backing up, reconciling a restored database with it,
  and reopening it with an operator's approval. Every call that can fail in the file system or in
  SQLite is a step that the environment's \<open>fault\<close> may make fail; whatever was durable before the failure
  stays. The locks, the permissions of the files and the staging file of a new audit are part of those
  steps: the audit appears under its final path by one rename.
\<close>

section \<open>Steps\<close>

datatype recovery_step =
    InspectAudit | ReadLineage | ReadCentral | VerifyLineage
  | BeginAdoption | CommitAdoption | NormalizeCentral
  | LockFile | StageAudit | PublishAudit | SyncDirectory
  | ReadInputHead | CloseAudit | ReadReconcileHead
  | BeginRestore | RestoreStatements | PrepareRestored | MoveAnchor | CommitRestored
  | ProbeDatabase | ListClients | RecordEvent | CheckpointCentral
  | CopyDatabase | VerifyCopy
  | ReadReopenHead | ReadReconciled | CountLive | CommitReopen
  | Wrapped storage_step

type_synonym recovery_faults = "recovery_step \<Rightarrow> storage_error option"
type_synonym 'a recovery = "store \<Rightarrow> (storage_error + 'a) \<times> store"

definition followed :: "'a recovery \<Rightarrow> ('a \<Rightarrow> 'b recovery) \<Rightarrow> 'b recovery" where
  "followed m f s = (case m s of (Inl e, s') \<Rightarrow> (Inl e, s') | (Inr x, s') \<Rightarrow> f x s')"

definition given :: "(store \<Rightarrow> storage_error + 'a) \<Rightarrow> 'a recovery" where
  "given f s = (f s, s)"

definition durable :: "recovery_faults \<Rightarrow> recovery_step \<Rightarrow> (store \<Rightarrow> store) \<Rightarrow> unit recovery" where
  "durable fault st f s = (case fault st of None \<Rightarrow> (Inr (), f s) | Some e \<Rightarrow> (Inl e, s))"

definition audit_file :: "recovery_faults \<Rightarrow> recovery_step \<Rightarrow> store \<Rightarrow> storage_error + recovery_audit" where
  "audit_file fault st s =
     and_then (attempt (fault st)) (\<lambda>_. ok_or (StorageIo ''inspect recovery file'' ''NotFound'') (audit s))"

definition head_snapshot :: "recovery_audit \<Rightarrow> storage_error + snapshot" where
  "head_snapshot a = (case head_event a of
     None \<Rightarrow> Inl (StorageSqlite QueryReturnedNoRows)
   | Some e \<Rightarrow> ok_or (RecoveryClosed ''recovery audit head snapshot is missing'') (ev_snapshot e))"

definition AUDIT_FORMAT :: int where
  "AUDIT_FORMAT = 1"

definition require_format :: "recovery_audit \<Rightarrow> storage_error + unit" where
  "require_format a = ensure (au_format a = AUDIT_FORMAT)
     (RecoveryClosed ''unsupported recovery audit format; archive/reset required'')"

section \<open>Admission\<close>

record audit_lineage =
  ln_journal_id :: string
  ln_revision :: int
  ln_snapshot :: snapshot

text \<open>The loop over the events in the order of their revisions.\<close>

fun check_lineage :: "int \<Rightarrow> int \<Rightarrow> audit_event list \<Rightarrow> storage_error + unit" where
  "check_lineage last_revision expected [] = Inr ()"
| "check_lineage last_revision expected (e # es) =
     and_then (ensure (ev_revision e = expected \<and> ev_outcome e \<noteq> Prepared)
       (RecoveryClosed ''recovery audit lineage is incomplete or unresolved'')) (\<lambda>_.
     and_then (ensure ((ev_snapshot e \<noteq> None) = (ev_revision e = last_revision))
       (RecoveryClosed ''recovery audit snapshot retention is inconsistent'')) (\<lambda>_.
     check_lineage last_revision (expected + 1) es))"

definition read_open_lineage :: "recovery_faults \<Rightarrow> store \<Rightarrow> storage_error + audit_lineage" where
  "read_open_lineage fault s =
     and_then (audit_file fault InspectAudit s) (\<lambda>a.
     and_then (require_format a) (\<lambda>_.
     and_then (attempt (fault ReadLineage)) (\<lambda>_.
     and_then (ensure (au_open a \<and> au_events a \<noteq> [])
       (RecoveryClosed ''audit intent, restore, or reconciliation is unresolved'')) (\<lambda>_.
     let last_revision = int (length (au_events a)) - 1 in
     and_then (check_lineage last_revision 0 (sort_key ev_revision (au_events a))) (\<lambda>_.
     and_then (head_snapshot a) (\<lambda>body.
     Inr \<lparr>ln_journal_id = au_journal_id a, ln_revision = last_revision, ln_snapshot = body\<rparr>))))))"

definition verify_lineage_matches :: "recovery_faults \<Rightarrow> audit_lineage \<Rightarrow> db \<Rightarrow> storage_error + unit" where
  "verify_lineage_matches fault lineage d =
     and_then (attempt (fault VerifyLineage)) (\<lambda>_.
     ensure (ln_journal_id lineage = journal_id d \<and> ln_revision lineage = anchor_revision d
         \<and> ln_snapshot lineage = take_snapshot d)
       (RecoveryClosed ''recovery audit does not match the central UUID-native lineage''))"

definition preflight_existing :: "recovery_faults \<Rightarrow> store \<Rightarrow> storage_error + int" where
  "preflight_existing fault s =
     and_then (read_open_lineage fault s) (\<lambda>lineage.
     and_then (attempt (fault ReadCentral)) (\<lambda>_.
     and_then (verify_lineage_matches fault lineage (central s)) (\<lambda>_.
     Inr (ln_revision lineage))))"

definition preflight_resolved :: "recovery_faults \<Rightarrow> store \<Rightarrow> storage_error + unit" where
  "preflight_resolved fault s = and_then (read_open_lineage fault s) (\<lambda>_. Inr ())"

definition preflight_admission :: "recovery_faults \<Rightarrow> store \<Rightarrow> storage_error + bool" where
  "preflight_admission fault s =
     (case audit s of
        Some _ \<Rightarrow> and_then (preflight_existing fault s) (\<lambda>_. Inr True)
      | None \<Rightarrow>
          and_then (attempt (fault ReadCentral)) (\<lambda>_.
          and_then (ensure (\<not> (audit_required (central s) \<or> anchor_revision (central s) \<noteq> 0))
            (RecoveryClosed ''required external audit is missing'')) (\<lambda>_.
          Inr False)))"

text \<open>\<open>UPDATE recovery_anchor SET audit_required=1 WHERE singleton=1 AND revision=0 AND audit_required=0\<close>.\<close>

definition adopt_published_baseline :: "recovery_faults \<Rightarrow> bool recovery" where
  "adopt_published_baseline fault =
     followed (given (\<lambda>s. and_then (attempt (fault ReadCentral)) (\<lambda>_. Inr (central s)))) (\<lambda>d.
     if audit_required d then given (\<lambda>_. Inr False)
     else
       followed (given (\<lambda>_. ensure (anchor_revision d = 0) (RecoveryClosed ''required external audit is missing''))) (\<lambda>_.
       followed (given (read_open_lineage fault)) (\<lambda>lineage.
       followed (given (\<lambda>s. and_then (attempt (fault BeginAdoption)) (\<lambda>_.
         and_then (verify_lineage_matches fault lineage (central s)) (\<lambda>_.
         ensure (anchor_revision (central s) = 0 \<and> \<not> audit_required (central s))
           (RecoveryClosed ''recovery baseline adoption did not match intent''))))) (\<lambda>_.
       followed (durable fault CommitAdoption (\<lambda>s. s\<lparr>central := (central s)\<lparr>audit_required := True\<rparr>\<rparr>)) (\<lambda>_.
       followed (durable fault NormalizeCentral (\<lambda>s. s)) (\<lambda>_.
       given (\<lambda>_. Inr True)))))))"

definition preflight_recovery_operation :: "recovery_faults \<Rightarrow> store \<Rightarrow> storage_error + unit" where
  "preflight_recovery_operation fault s =
     and_then (audit_file fault InspectAudit s) (\<lambda>a.
     and_then (require_format a) (\<lambda>_.
     and_then (attempt (fault ReadLineage)) (\<lambda>_.
     and_then (head a) (\<lambda>_. Inr ()))))"

text \<open>The audit of a fresh journal: published first, then required by the central database.\<close>

definition initialize_audit :: "recovery_faults \<Rightarrow> unit recovery" where
  "initialize_audit fault =
     followed (given (\<lambda>s. and_then (attempt (fault ReadCentral)) (\<lambda>_.
       ensure (\<not> (audit_required (central s) \<or> anchor_revision (central s) \<noteq> 0))
         (RecoveryClosed ''required external audit is missing'')))) (\<lambda>_.
     followed (given (\<lambda>_. attempt (fault BeginAdoption))) (\<lambda>_.
     followed (given (\<lambda>_. attempt (fault StageAudit))) (\<lambda>_.
     followed (durable fault PublishAudit (\<lambda>s. s\<lparr>audit := Some \<lparr>au_format = AUDIT_FORMAT,
       au_journal_id = journal_id (central s), au_open = True, au_events = [baseline_event (central s)],
       au_recovery_events = []\<rparr>\<rparr>)) (\<lambda>_.
     followed (durable fault SyncDirectory (\<lambda>s. s)) (\<lambda>_.
     followed (durable fault CommitAdoption (\<lambda>s. s\<lparr>central := (central s)\<lparr>audit_required := True\<rparr>\<rparr>)) (\<lambda>_.
     durable fault NormalizeCentral (\<lambda>s. s)))))))"

definition open_with_lock :: "recovery_faults \<Rightarrow> bool \<Rightarrow> unit recovery" where
  "open_with_lock fault protected_startup s =
     (case audit s of
        Some _ \<Rightarrow>
          if protected_startup then
            followed (given (preflight_existing fault)) (\<lambda>_.
            followed (adopt_published_baseline fault) (\<lambda>_. given (\<lambda>_. Inr ()))) s
          else given (preflight_recovery_operation fault) s
      | None \<Rightarrow> initialize_audit fault s)"

definition open_audit :: "recovery_faults \<Rightarrow> unit recovery" where
  "open_audit fault =
     followed (given (\<lambda>_. attempt (fault LockFile))) (\<lambda>_. open_with_lock fault False)"

section \<open>Closing and reconciling\<close>

definition with_audit :: "(recovery_audit \<Rightarrow> recovery_audit) \<Rightarrow> store \<Rightarrow> store" where
  "with_audit f s = s\<lparr>audit := map_option f (audit s)\<rparr>"

definition record_event :: "recovery_event \<Rightarrow> recovery_audit \<Rightarrow> recovery_audit" where
  "record_event e a = a\<lparr>au_recovery_events := au_recovery_events a @ [e]\<rparr>"

text \<open>\<open>INSERT ... WHERE NOT EXISTS\<close> an event with the same detail.\<close>

definition record_crash_recovery :: "recovery_faults \<Rightarrow> string \<Rightarrow> unit recovery" where
  "record_crash_recovery fault detail =
     followed (given (audit_file fault InspectAudit)) (\<lambda>_.
     durable fault RecordEvent (with_audit (\<lambda>a.
       if CrashRecovered detail \<in> set (au_recovery_events a) then a else record_event (CrashRecovered detail) a)))"

definition close :: "recovery_faults \<Rightarrow> unit recovery" where
  "close fault =
     followed (given (audit_file fault InspectAudit)) (\<lambda>_.
     durable fault CloseAudit (with_audit (\<lambda>a. record_event ClosedOffline (a\<lparr>au_open := False\<rparr>))))"

definition require_resolved_recovery_input :: "recovery_faults \<Rightarrow> store \<Rightarrow> storage_error + unit" where
  "require_resolved_recovery_input fault s =
     and_then (audit_file fault ReadInputHead s) (\<lambda>a.
     and_then (head a) (\<lambda>(_, oc).
     ensure (oc \<noteq> Prepared) (RecoveryClosed (''archive/reset required: uncertain audit intent cannot be reconciled; ''
       @ ''preserve the database and external audit; a completed reconciliation may only reopen with its matching approval''))))"

text \<open>The central transaction of \<open>reconcile\<close> up to the check of the references.\<close>

definition restored_database :: "recovery_faults \<Rightarrow> (nat \<Rightarrow> string) \<Rightarrow> int \<Rightarrow> snapshot \<Rightarrow> recovery_audit \<Rightarrow> db
    \<Rightarrow> storage_error + db" where
  "restored_database fault clock revision latest a d0 =
     and_then (attempt (fault BeginRestore)) (\<lambda>_.
     and_then (ensure (au_journal_id a = journal_id d0) (RecoveryClosed ''restore belongs to another journal'')) (\<lambda>_.
     and_then (ensure (\<not> anchor_revision d0 > revision) (RecoveryClosed ''external audit is older than central state'')) (\<lambda>_.
     and_then (attempt (fault RestoreStatements)) (\<lambda>_.
     and_then (restore_security clock latest d0) (\<lambda>d.
     and_then (ensure (references_ok d) (RecoveryClosed ''restored identity bindings violate foreign keys'')) (\<lambda>_.
     and_then (ensure (revision < i64_max) (RecoveryClosed ''audit revision exhausted'')) (\<lambda>_.
     Inr d)))))))"

definition prepared_restore :: "int \<Rightarrow> db \<Rightarrow> audit_event" where
  "prepared_restore revision d = \<lparr>ev_revision = revision, ev_snapshot = Some (take_snapshot d), ev_outcome = Prepared\<rparr>"

definition recovery_verification_unguarded :: "recovery_faults \<Rightarrow> crypto \<Rightarrow> engine_probes \<Rightarrow> store
    \<Rightarrow> storage_error + recovery_verification" where
  "recovery_verification_unguarded fault C P s =
     and_then (attempt (fault ProbeDatabase)) (\<lambda>_. verify C P (central s))"

text \<open>\<open>SELECT id FROM principals ORDER BY id\<close>.\<close>

definition client_inventory :: "recovery_faults \<Rightarrow> store \<Rightarrow> storage_error + string list" where
  "client_inventory fault s =
     and_then (attempt (fault ListClients)) (\<lambda>_. Inr (sort (map pr_id (principals (central s)))))"

definition reconcile :: "recovery_faults \<Rightarrow> (nat \<Rightarrow> string) \<Rightarrow> crypto \<Rightarrow> engine_probes \<Rightarrow> bool \<Rightarrow> recovery_approval recovery" where
  "reconcile fault clock C P clients_quiesced =
     followed (given (require_resolved_recovery_input fault)) (\<lambda>_.
     followed (close fault) (\<lambda>_.
     followed (given (\<lambda>_. ensure clients_quiesced (RecoveryClosed ''client quiescence was not attested''))) (\<lambda>_.
     followed (given (audit_file fault ReadReconcileHead)) (\<lambda>a.
     followed (given (\<lambda>_. head a)) (\<lambda>(revision, _).
     followed (given (\<lambda>_. head_snapshot a)) (\<lambda>latest.
     followed (given (\<lambda>s. restored_database fault clock revision latest a (central s))) (\<lambda>d.
     followed (durable fault PrepareRestored
       (with_audit (\<lambda>a. a\<lparr>au_events := au_events a @ [prepared_restore (revision + 1) d]\<rparr>))) (\<lambda>_.
     followed (given (\<lambda>_. attempt (fault MoveAnchor))) (\<lambda>_.
     followed (durable fault CommitRestored (\<lambda>s. s\<lparr>central := changed (d\<lparr>anchor_revision := revision + 1,
       audit_required := True, inbox_epoch := revision + 1\<rparr>)\<rparr>)) (\<lambda>_.
     followed (given (recovery_verification_unguarded fault C P)) (\<lambda>verification.
     followed (given (client_inventory fault)) (\<lambda>clients.
     let approval = \<lparr>ap_verification = verification, ap_audit_revision = revision + 1,
           ap_previous_space_heads = sn_space_heads latest, ap_reconciled_clients = clients,
           ap_inventory_complete = False, ap_accepted_record_loss = False\<rparr> in
     followed (durable fault RecordEvent (with_audit (record_event (ReconciledAs approval)))) (\<lambda>_.
     followed (durable fault CheckpointCentral (\<lambda>s. s)) (\<lambda>_.
     given (\<lambda>_. Inr approval)))))))))))))))"

section \<open>Backup and restore\<close>

text \<open>\<open>copied\<close> is the database the copy wrote at the destination.\<close>

definition backup :: "recovery_faults \<Rightarrow> crypto \<Rightarrow> engine_probes \<Rightarrow> db \<Rightarrow> recovery_verification recovery" where
  "backup fault C P copied =
     followed (given (\<lambda>_. attempt (fault (Wrapped LockAudit)))) (\<lambda>_.
     followed (given (\<lambda>s. and_then (audit_file fault InspectAudit s) (\<lambda>a.
       ensure_open (\<lambda>st. fault (Wrapped st)) (central s) a))) (\<lambda>_.
     followed (given (\<lambda>_. attempt (fault CopyDatabase))) (\<lambda>_.
     followed (given (\<lambda>_. and_then (attempt (fault VerifyCopy)) (\<lambda>_. verify C P copied))) (\<lambda>verification.
     followed (durable fault RecordEvent (with_audit (record_event (BackedUp verification)))) (\<lambda>_.
     given (\<lambda>_. Inr verification))))))"

text \<open>\<open>restore\<close> puts a verified copy of the backup in the place of the central database and reconciles it.\<close>

definition restore :: "recovery_faults \<Rightarrow> (nat \<Rightarrow> string) \<Rightarrow> crypto \<Rightarrow> engine_probes \<Rightarrow> db \<Rightarrow> db \<Rightarrow> bool
    \<Rightarrow> recovery_approval recovery" where
  "restore fault clock C P backup_db copied clients_quiesced =
     followed (given (\<lambda>_. attempt (fault (Wrapped LockAudit)))) (\<lambda>_.
     followed (given (require_resolved_recovery_input fault)) (\<lambda>_.
     followed (close fault) (\<lambda>_.
     followed (given (\<lambda>_. ensure clients_quiesced (RecoveryClosed ''client quiescence was not attested''))) (\<lambda>_.
     followed (given (\<lambda>_. and_then (attempt (fault VerifyCopy)) (\<lambda>_. verify C P backup_db))) (\<lambda>expected.
     followed (given (audit_file fault ReadInputHead)) (\<lambda>a.
     followed (given (\<lambda>_. head_snapshot a)) (\<lambda>latest.
     followed (given (\<lambda>_. validate_credential_history backup_db latest)) (\<lambda>_.
     followed (given (\<lambda>_. validate_security_history backup_db latest)) (\<lambda>_.
     followed (durable fault CopyDatabase (\<lambda>s. s\<lparr>central := copied\<rparr>)) (\<lambda>_.
     followed (given (\<lambda>_. and_then (attempt (fault VerifyCopy)) (\<lambda>_. verify C P copied))) (\<lambda>restored.
     followed (given (\<lambda>_. ensure (restored = expected) (RecoveryClosed ''restored hashes differ from backup''))) (\<lambda>_.
     reconcile fault clock C P clients_quiesced))))))))))))"

section \<open>Reopening\<close>

text \<open>\<open>WHERE kind='reconciled' ORDER BY id DESC LIMIT 1\<close>.\<close>

fun last_reconciled :: "recovery_event list \<Rightarrow> recovery_approval option" where
  "last_reconciled [] = None"
| "last_reconciled (e # es) = (case last_reconciled es of
     Some a \<Rightarrow> Some a | None \<Rightarrow> (case e of ReconciledAs a \<Rightarrow> Some a | _ \<Rightarrow> None))"

definition approval_matches :: "int \<Rightarrow> recovery_approval \<Rightarrow> recovery_verification \<Rightarrow> string list \<Rightarrow> recovery_approval \<Rightarrow> db \<Rightarrow> bool" where
  "approval_matches revision recorded verification clients approval d \<longleftrightarrow>
     ap_accepted_record_loss approval \<and> ap_inventory_complete approval
     \<and> revision = ap_audit_revision approval \<and> revision = anchor_revision d
     \<and> ap_verification approval = verification
     \<and> recorded\<lparr>ap_accepted_record_loss := True, ap_inventory_complete := True\<rparr> = approval
     \<and> ap_reconciled_clients approval = clients"

definition resolved_audit :: "int \<Rightarrow> recovery_approval \<Rightarrow> recovery_audit \<Rightarrow> recovery_audit" where
  "resolved_audit revision approval a = record_event (VerifiedRestore approval) (a\<lparr>
     au_events := release_superseded_snapshots revision
       (map (\<lambda>e. if ev_revision e = revision then e\<lparr>ev_outcome := Reconciled\<rparr> else e) (au_events a)),
     au_open := True\<rparr>)"

definition reopen :: "recovery_faults \<Rightarrow> crypto \<Rightarrow> engine_probes \<Rightarrow> recovery_approval \<Rightarrow> unit recovery" where
  "reopen fault C P approval =
     followed (given (\<lambda>_. attempt (fault (Wrapped LockAudit)))) (\<lambda>_.
     followed (given (audit_file fault ReadReopenHead)) (\<lambda>a.
     followed (given (\<lambda>_. head a)) (\<lambda>(revision, _).
     followed (given (client_inventory fault)) (\<lambda>clients.
     followed (given (\<lambda>s. and_then (attempt (fault ReadCentral)) (\<lambda>_. Inr (central s)))) (\<lambda>d.
     followed (given (\<lambda>_. attempt (fault ReadReconciled))) (\<lambda>_.
     followed (given (recovery_verification_unguarded fault C P)) (\<lambda>verification.
     followed (given (\<lambda>_. ok_or (RecoveryClosed ''reconciliation is missing'') (last_reconciled (au_recovery_events a)))) (\<lambda>recorded.
     followed (given (\<lambda>_. ensure (approval_matches revision recorded verification clients approval d)
       (RecoveryClosed ''recovery approval does not match probed state and inventory''))) (\<lambda>_.
     followed (given (\<lambda>_. attempt (fault CountLive))) (\<lambda>_.
     followed (given (\<lambda>s. ensure (length (filter (\<lambda>c. cr_revoked_at c = None) (credentials (central s))) = 0)
       (RecoveryClosed ''restored credentials are not revoked''))) (\<lambda>_.
     durable fault CommitReopen (with_audit (resolved_audit revision approval)))))))))))))"

section \<open>Runs\<close>

named_theorems recovery_simps \<open>how a sequence of recovery steps succeeds\<close>

lemma followed_Inr [recovery_simps]:
  "followed m f s = (Inr y, s') \<longleftrightarrow> (\<exists>x t. m s = (Inr x, t) \<and> f x t = (Inr y, s'))"
  by (auto simp: followed_def split: sum.splits prod.splits)

lemma given_Inr [recovery_simps]: "given f s = (Inr x, s') \<longleftrightarrow> f s = Inr x \<and> s' = s"
  by (auto simp: given_def)

lemma durable_Inr [recovery_simps]: "durable fault st f s = (Inr u, s') \<longleftrightarrow> fault st = None \<and> s' = f s"
  by (auto simp: durable_def split: option.splits)

lemma audit_file_Inr [recovery_simps]: "audit_file fault st s = Inr a \<longleftrightarrow> fault st = None \<and> audit s = Some a"
  by (auto simp: audit_file_def result_simps)

lemma followed_given: "followed (given g) f s = (case g s of Inl e \<Rightarrow> (Inl e, s) | Inr x \<Rightarrow> f x s)"
  by (simp add: followed_def given_def split: sum.splits)

lemma followed_durable: "followed (durable fault st h) f s = (case fault st of Some e \<Rightarrow> (Inl e, s) | None \<Rightarrow> f () (h s))"
  by (simp add: followed_def durable_def split: option.splits)

lemma followed_assoc: "followed (followed m f) g s = followed m (\<lambda>x. followed (f x) g) s"
  by (auto simp: followed_def split: sum.splits prod.splits)

declare with_audit_def [simp]

lemma closed_head [simp]:
  "head (a\<lparr>au_open := b, au_recovery_events := es\<rparr>) = head a"
  "head_snapshot (a\<lparr>au_open := b, au_recovery_events := es\<rparr>) = head_snapshot a"
  by (simp_all add: head_def head_snapshot_def head_event_def)

lemma reconcileD:
  assumes "reconcile fault clock C P quiesced s = (Inr approval, s')"
  obtains a revision oc latest d v where
    "audit s = Some a" "head a = Inr (revision, oc)" "oc \<noteq> Prepared" "head_snapshot a = Inr latest"
    "revision < i64_max" "restore_security clock latest (central s) = Inr d" "references_ok d"
    "central s' = changed (d\<lparr>anchor_revision := revision + 1, audit_required := True, inbox_epoch := revision + 1\<rparr>)"
    "audit s' = Some (a\<lparr>au_open := False, au_events := au_events a @ [prepared_restore (revision + 1) d],
       au_recovery_events := au_recovery_events a @ [ClosedOffline, ReconciledAs approval]\<rparr>)"
    "verify C P (central s') = Inr v"
    "approval = \<lparr>ap_verification = v, ap_audit_revision = revision + 1, ap_previous_space_heads = sn_space_heads latest,
       ap_reconciled_clients = sort (map pr_id (principals (central s'))), ap_inventory_complete = False,
       ap_accepted_record_loss = False\<rparr>"
proof -
  obtain a0 where a0: "audit s = Some a0"
    using assms by (auto simp: reconcile_def recovery_simps require_resolved_recovery_input_def result_simps)
  show ?thesis
    using assms a0
    by (auto simp: reconcile_def close_def restored_database_def recovery_verification_unguarded_def client_inventory_def
        record_event_def require_resolved_recovery_input_def recovery_simps result_simps Let_def
        intro!: that)
qed

text \<open>While the audit is closed every audited transaction is refused.\<close>

lemma closed_refuses:
  assumes "audit s = Some a" "\<not> au_open a"
  shows "\<exists>e. with_transaction_for faults wrap op (s, z) = (Inl (wrap e), s\<lparr>transactions := transactions s + 1\<rparr>, z)"
proof -
  have "open_transaction fault (s\<lparr>transactions := n\<rparr>) \<noteq> Inr u" for fault n u
    using assms by (auto simp: open_transaction_def ensure_open_def result_simps)
  then obtain e where "open_transaction (faults (transactions s)) (s\<lparr>transactions := transactions s + 1\<rparr>) = Inl e"
    by (metis (full_types) sum.exhaust)
  then show ?thesis by (auto simp: with_transaction_for_def Let_def)
qed


lemma last_reconciled_append: "last_reconciled (es @ fs) = (case last_reconciled fs of Some a \<Rightarrow> Some a | None \<Rightarrow> last_reconciled es)"
  by (induction es) (auto split: option.splits)

lemma reopen_succeeds:
  assumes "audit s = Some a" "head a = Inr (revision, oc)" "verify C P (central s) = Inr v"
    "last_reconciled (au_recovery_events a) = Some recorded" "list_all (\<lambda>c. cr_revoked_at c \<noteq> None) (credentials (central s))"
    "approval_matches revision recorded v (sort (map pr_id (principals (central s)))) approval (central s)"
  shows "reopen (\<lambda>_. None) C P approval s = (Inr (), s\<lparr>audit := Some (resolved_audit revision approval a)\<rparr>)"
proof -
  have "filter (\<lambda>c. cr_revoked_at c = None) (credentials (central s)) = []"
    using assms(5) by (simp add: filter_empty_conv list_all_iff)
  then show ?thesis
    using assms by (simp add: reopen_def recovery_simps client_inventory_def recovery_verification_unguarded_def)
qed

text \<open>The events of an audit whose newest intent is resolved.\<close>

lemma resolved_events:
  assumes "audit_events_ok (es @ [e])" "ev_revision e = n"
  shows "release_superseded_snapshots n (map (\<lambda>x. if ev_revision x = n then x\<lparr>ev_outcome := Reconciled\<rparr> else x) (es @ [e]))
    = map (\<lambda>x. x\<lparr>ev_snapshot := None\<rparr>) es @ [e\<lparr>ev_outcome := Reconciled\<rparr>]"
proof -
  have "ev_revision x < n \<and> ev_revision x \<noteq> n" if "x \<in> set es" for x
    using assms that by (auto simp: audit_events_ok_def sorted_wrt_append)
  then show ?thesis using assms(2) by (simp add: release_superseded_snapshots_def)
qed

text \<open>C10. A recovery comes to an end. Once a database has been reconciled, the approval that
  \<open>reconcile\<close> returned, with the operator's two attestations added, reopens the journal: the approval still
  matches everything it is compared with, and afterwards the database satisfies the constraints of the
  schema, the audit describes it and the service accepts writes again.\<close>

theorem recovery_completes:
  assumes "reconcile fault clock C P quiesced s = (Inr approval, s')" "audit s = Some a" "audit_events_ok (au_events a)"
    "schema_ok (central s)"
  shows "\<exists>s'' a''. reopen (\<lambda>_. None) C P (approval\<lparr>ap_accepted_record_loss := True, ap_inventory_complete := True\<rparr>) s' = (Inr (), s'')
    \<and> central s'' = central s' \<and> schema_ok (central s'') \<and> audit_consistent s''
    \<and> audit s'' = Some a'' \<and> ensure_open (\<lambda>_. None) (central s'') a'' = Inr ()"
proof -
  obtain revision oc latest d v where r:
    "head a = Inr (revision, oc)" "restore_security clock latest (central s) = Inr d" "references_ok d"
    "central s' = changed (d\<lparr>anchor_revision := revision + 1, audit_required := True, inbox_epoch := revision + 1\<rparr>)"
    "audit s' = Some (a\<lparr>au_open := False, au_events := au_events a @ [prepared_restore (revision + 1) d],
       au_recovery_events := au_recovery_events a @ [ClosedOffline, ReconciledAs approval]\<rparr>)"
    "verify C P (central s') = Inr v"
    "approval = \<lparr>ap_verification = v, ap_audit_revision = revision + 1, ap_previous_space_heads = sn_space_heads latest,
       ap_reconciled_clients = sort (map pr_id (principals (central s'))), ap_inventory_complete = False,
       ap_accepted_record_loss = False\<rparr>"
    and resolved: "oc \<noteq> Prepared"
    using assms(1,2) by (elim reconcileD) fastforce
  let ?a = "a\<lparr>au_open := False, au_events := au_events a @ [prepared_restore (revision + 1) d],
       au_recovery_events := au_recovery_events a @ [ClosedOffline, ReconciledAs approval]\<rparr>"
  let ?approval = "approval\<lparr>ap_accepted_record_loss := True, ap_inventory_complete := True\<rparr>"
  let ?e = "prepared_restore (revision + 1) d"
  have last: "ev_revision (last (au_events a)) = revision" "ev_outcome (last (au_events a)) = oc"
    using head_ok [OF assms(3)] r(1) by auto
  have events: "audit_events_ok (au_events a @ [?e])"
    using audit_events_ok_snoc [OF assms(3)] last resolved by (simp add: prepared_restore_def)
  have "head ?a = Inr (revision + 1, Prepared)"
    using head_ok [of ?a] events by (simp add: prepared_restore_def)
  moreover have "last_reconciled (au_recovery_events ?a) = Some approval" by (simp add: last_reconciled_append)
  moreover have "list_all (\<lambda>c. cr_revoked_at c \<noteq> None) (credentials (central s'))"
    using restore_security_powerless [OF r(2)] by (simp add: powerless_def list_all_iff r(4) changed_def)
  moreover have "approval_matches (revision + 1) approval v (sort (map pr_id (principals (central s')))) ?approval (central s')"
    by (simp add: approval_matches_def r(7)) (simp add: r(4) changed_def)
  ultimately have reopened: "reopen (\<lambda>_. None) C P ?approval s' = (Inr (), s'\<lparr>audit := Some (resolved_audit (revision + 1) ?approval ?a)\<rparr>)"
    using reopen_succeeds [OF r(5)] r(6) by blast
  let ?r = "resolved_audit (revision + 1) ?approval ?a"
  have evs: "au_events ?r = map (\<lambda>x. x\<lparr>ev_snapshot := None\<rparr>) (au_events a) @ [?e\<lparr>ev_outcome := Reconciled\<rparr>]"
    using resolved_events [OF events, of "revision + 1"] by (simp add: resolved_audit_def record_event_def prepared_restore_def)
  have "schema_ok d" using restored_schema [OF r(2) assms(4) r(3)] .
  then have "schema_ok (central s')"
    by (simp add: r(4) schema_ok_def ok_defs changed_def older_same_space_def find_record_def)
  moreover have "audit_events_ok (au_events ?r)"
    using events unfolding evs by (auto simp: audit_events_ok_def sorted_wrt_append comp_def list_all_iff prepared_restore_def dest: in_set_butlastD)
  moreover have "describes (?e\<lparr>ev_outcome := Reconciled\<rparr>) (central s')"
    by (simp add: describes_def prepared_restore_def r(4) take_snapshot_def changed_def space_head_def)
  moreover have "ensure_open (\<lambda>_. None) (central s') ?r = Inr ()"
    using head_ok [OF \<open>audit_events_ok (au_events ?r)\<close>] unfolding evs
    by (simp add: ensure_open_def prepared_restore_def) (simp add: resolved_audit_def record_event_def r(4) changed_def)
  ultimately show ?thesis
    unfolding reopened by (simp add: audit_consistent_def evs)
qed

text \<open>C11. Only the matching approval reopens the journal. If \<open>reopen\<close> succeeds, the operator attested
  the complete inventory and the loss of records; the approval is otherwise word for word the one that the
  last reconciliation recorded; the verification it carries is the verification of the database as it is
  now; it lists every principal there is; no credential is live; and the database is left as it was.\<close>

theorem reopen_needs_the_matching_approval:
  assumes "reopen fault C P approval s = (Inr (), s')"
  shows "\<exists>a recorded revision. audit s = Some a \<and> last_reconciled (au_recovery_events a) = Some recorded
    \<and> approval = recorded\<lparr>ap_accepted_record_loss := True, ap_inventory_complete := True\<rparr>
    \<and> verify C P (central s) = Inr (ap_verification approval)
    \<and> ap_audit_revision approval = anchor_revision (central s)
    \<and> ap_reconciled_clients approval = sort (map pr_id (principals (central s)))
    \<and> (\<forall>c \<in> set (credentials (central s)). cr_revoked_at c \<noteq> None)
    \<and> s' = s\<lparr>audit := Some (resolved_audit revision approval a)\<rparr> \<and> revision = anchor_revision (central s)"
  using assms
  by (auto simp: reopen_def recovery_simps result_simps client_inventory_def recovery_verification_unguarded_def
      approval_matches_def filter_empty_conv)

section \<open>Startup\<close>

lemma head_event_max:
  assumes "au_events a \<noteq> []"
  shows "\<exists>e. head_event a = Some e \<and> e \<in> set (au_events a) \<and> (\<forall>x \<in> set (au_events a). ev_revision x \<le> ev_revision e)"
proof -
  obtain y ys where a: "au_events a = y # ys" using assms by (cases "au_events a") auto
  have "let e = fold (\<lambda>x m. if ev_revision m < ev_revision x then x else m) ys y in
      e \<in> insert y (set ys) \<and> (\<forall>x \<in> insert y (set ys). ev_revision x \<le> ev_revision e)"
  proof (induction ys arbitrary: y)
    case (Cons x ys)
    show ?case
      using Cons.IH [of x] Cons.IH [of y] by (cases "ev_revision y < ev_revision x") (auto simp: Let_def)
  qed simp
  then show ?thesis by (simp add: head_event_def a Let_def)
qed

lemma check_lineage_Inr:
  "check_lineage n k es = Inr () \<Longrightarrow> map ev_revision es = map (\<lambda>i. k + int i) [0..<length es]
    \<and> (\<forall>e \<in> set es. ev_outcome e \<noteq> Prepared \<and> (ev_snapshot e \<noteq> None) = (ev_revision e = n))"
proof (induction es arbitrary: k)
  case (Cons e es)
  have "[0..<Suc (length es)] = 0 # map Suc [0..<length es]" by (metis map_Suc_upt upt_conv_Cons zero_less_Suc)
  then show ?case using Cons by (auto simp: result_simps comp_def algebra_simps)
qed simp

text \<open>What an admitted audit says: its head describes the newest revision, resolved.\<close>

lemma read_open_lineageD:
  assumes "read_open_lineage fault s = Inr lineage"
  obtains a oc where "audit s = Some a" "au_open a" "ln_journal_id lineage = au_journal_id a"
    "head a = Inr (ln_revision lineage, oc)" "oc \<noteq> Prepared" "head_snapshot a = Inr (ln_snapshot lineage)"
proof -
  obtain a where a: "audit s = Some a" "au_open a" "au_events a \<noteq> []"
      "check_lineage (int (length (au_events a)) - 1) 0 (sort_key ev_revision (au_events a)) = Inr ()"
      "head_snapshot a = Inr (ln_snapshot lineage)" "ln_journal_id lineage = au_journal_id a"
      "ln_revision lineage = int (length (au_events a)) - 1"
    using assms by (auto simp: read_open_lineage_def recovery_simps result_simps Let_def)
  obtain e where e: "head_event a = Some e" "e \<in> set (au_events a)" "\<forall>x \<in> set (au_events a). ev_revision x \<le> ev_revision e"
    using head_event_max [OF a(3)] by blast
  note lineage = check_lineage_Inr [OF a(4)]
  have "ev_revision ` set (au_events a) = set (map ev_revision (sort_key ev_revision (au_events a)))" by simp
  also have "\<dots> = int ` {0..<length (au_events a)}" unfolding conjunct1 [OF lineage] by simp
  finally have revisions: "ev_revision ` set (au_events a) = int ` {0..<length (au_events a)}" .
  have ok: "\<forall>x \<in> set (au_events a). ev_outcome x \<noteq> Prepared" using lineage by simp
  have "ev_revision e < int (length (au_events a))"
    using imageI [OF e(2), of ev_revision] unfolding revisions by auto
  moreover have "int (length (au_events a) - 1) \<in> ev_revision ` set (au_events a)" using a(3) by (simp add: revisions)
  then have "int (length (au_events a) - 1) \<le> ev_revision e" using e(3) by auto
  moreover have "0 < length (au_events a)" using a(3) by simp
  ultimately have "ev_revision e = int (length (au_events a)) - 1" by linarith
  then show thesis using a e ok by (intro that [of a "ev_outcome e"]) (auto simp: head_def)
qed

text \<open>C12. The daemon starts only on a database its audit vouches for. When a protected startup succeeds,
  the audit is open and belongs to this journal, its newest revision is resolved and is the revision of
  the database, and the security snapshot it retained is exactly the one the database has now; from then
  on the database requires the audit. The startup changes nothing else.\<close>

theorem protected_startup_is_vouched_for:
  assumes "open_with_lock fault True s = (Inr (), s')"
  shows "\<exists>a oc. audit s' = Some a \<and> au_open a \<and> au_journal_id a = journal_id (central s')
    \<and> head a = Inr (anchor_revision (central s'), oc) \<and> oc \<noteq> Prepared
    \<and> head_snapshot a = Inr (take_snapshot (central s'))
    \<and> central s' = (central s)\<lparr>audit_required := True\<rparr> \<and> pred_option ((=) a) (audit s)"
proof (cases "audit s")
  case None
  then have "s' = s\<lparr>audit := Some \<lparr>au_format = AUDIT_FORMAT, au_journal_id = journal_id (central s), au_open = True,
        au_events = [baseline_event (central s)], au_recovery_events = []\<rparr>,
      central := (central s)\<lparr>audit_required := True\<rparr>\<rparr>" "anchor_revision (central s) = 0"
    using assms by (auto simp: open_with_lock_def initialize_audit_def recovery_simps result_simps)
  then show ?thesis using None
    by (simp add: head_def head_snapshot_def head_event_def baseline_event_def take_snapshot_def space_head_def)
next
  case (Some a0)
  obtain lineage where l: "read_open_lineage fault s = Inr lineage" "ln_journal_id lineage = journal_id (central s)"
      "ln_revision lineage = anchor_revision (central s)" "ln_snapshot lineage = take_snapshot (central s)"
    using assms Some by (auto simp: open_with_lock_def recovery_simps preflight_existing_def verify_lineage_matches_def result_simps)
  have "s' = s \<and> audit_required (central s) \<or> s' = s\<lparr>central := (central s)\<lparr>audit_required := True\<rparr>\<rparr>"
    using assms Some by (auto simp: open_with_lock_def adopt_published_baseline_def recovery_simps result_simps split: if_splits)
  then have s': "central s' = (central s)\<lparr>audit_required := True\<rparr>" "audit s' = audit s" by auto
  from l(1) obtain a oc where "audit s = Some a" "au_open a" "ln_journal_id lineage = au_journal_id a"
      "head a = Inr (ln_revision lineage, oc)" "oc \<noteq> Prepared" "head_snapshot a = Inr (ln_snapshot lineage)"
    by (rule read_open_lineageD)
  then show ?thesis using l s' by (simp add: take_snapshot_def space_head_def)
qed


end
