(* ===== verification/Sample_Recovery.thy ===== *)
theory Sample_Recovery
  imports Sample_Journal Recovery
begin

text \<open>
  The refinement of the abstract journal, the recovery verification and a recovery on small runs and
  databases.
\<close>

section \<open>A run from an empty store\<close>

lemma creation_run:
  obtains s z where "serve sample_env sample_creation (initial_store, sources0) = (Inr (), s, z)"
    "reachable sample_env (s, z)"
proof -
  obtain s z where run: "serve sample_env sample_creation (initial_store, sources0) = (Inr (), s, z)"
    by (simp add: sample_creation_def void_def create_space_def sample_space_valid transaction_def transaction_eval
        initial_store_def baseline_event_def insert_space_def between_def sql_length_def chars_count_def is_continuation_def
        empty_db_def run_eval cong: bind_weak_cong)
  have "reachable sample_env (s, z)"
    using fresh [OF initial_store_initial] served [OF run] by (rule next_request)
  with run show thesis by (rule that)
qed

theorem service_refines_journal_witness:
  "\<exists>s z. serve sample_env sample_creation (initial_store, sources0) = (Inr (), s, z)
    \<and> journal_step\<^sup>*\<^sup>* (abstract (central initial_store)) (abstract (central s))"
  using creation_run service_refines_journal [OF fresh [OF initial_store_initial]] by metis

theorem numbers_have_no_gaps_witness:
  "\<exists>s z. serve sample_env sample_creation (initial_store, sources0) = (Inr (), s, z)
    \<and> map rc_space_seq (filter (\<lambda>r. rc_space_id r = ''s'') (records (central s)))
      = map (\<lambda>k. int k + 1) [0..<length (filter (\<lambda>r. rc_space_id r = ''s'') (records (central s)))]"
  using creation_run numbers_have_no_gaps by metis

section \<open>Verifications\<close>

definition clean_probes :: engine_probes where
  "clean_probes = \<lparr>pb_integrity = (\<lambda>_. ''ok''), pb_fts_differs = (\<lambda>_. False)\<rparr>"


text \<open>The same rows in another order, under a hash without collisions.\<close>

definition shuffled_db :: db where
  "shuffled_db = sample_db\<lparr>principals := rev (principals sample_db)\<rparr>"

abbreviation perfect_crypto :: crypto where
  "perfect_crypto \<equiv> sample_crypto\<lparr>sha256 := (\<lambda>b. b)\<rparr>"

lemma sample_verifies: "verify perfect_crypto clean_probes sample_db
    = Inr \<lparr>rv_tables = map (hash_table perfect_crypto) (tables sample_db), rv_space_heads = [(''s'', 2)]\<rparr>"
  by (simp add: verify_def clean_probes_def result_simps references_ok_def sequence_probe_def mailbox_attention_probe_def
      inbox_allocation_probe_def space_rows_def take_snapshot_def space_head_def sample_db)

lemma sort_rev: "sort (rev xs) = sort (xs :: 'a::linorder list)"
  by (rule properties_for_sort) simp_all

lemma shuffled_verifies: "verify perfect_crypto clean_probes shuffled_db = verify perfect_crypto clean_probes sample_db"
proof -
  have "map (hash_table perfect_crypto) (tables shuffled_db) = map (hash_table perfect_crypto) (tables sample_db)"
    by (simp add: shuffled_db_def tables_def hash_table_def table_bytes_def table_values_def rev_map [symmetric] sort_rev)
  moreover have "references_ok shuffled_db = references_ok sample_db" "sequence_probe shuffled_db = sequence_probe sample_db"
      "mailbox_attention_probe shuffled_db = mailbox_attention_probe sample_db"
      "inbox_allocation_probe shuffled_db = inbox_allocation_probe sample_db"
      "sn_space_heads (take_snapshot shuffled_db) = sn_space_heads (take_snapshot sample_db)"
    by (simp_all add: shuffled_db_def references_ok_def sequence_probe_def mailbox_attention_probe_def
        inbox_allocation_probe_def space_rows_def take_snapshot_def space_head_def)
  ultimately show ?thesis by (simp add: verify_def clean_probes_def)
qed

lemma hash_lengths [simp]: "length hash_a = 64" "length hash_b = 64"
  by code_simp+

lemma sample_storable: "storable sample_db" "storable shuffled_db"
  by (simp_all add: storable_def tables_def table_values_def shuffled_db_def sample_db new_credential_def
      principal_cells_def name_cells_def credential_cells_def space_cells_def record_cells_def relation_cells_def
      attention_cells_def sequence_cells_def mailbox_cells_def)

theorem verification_binds_contents_witness:
  "principals shuffled_db \<noteq> principals sample_db
    \<and> verify perfect_crypto clean_probes shuffled_db = verify perfect_crypto clean_probes sample_db
    \<and> same_contents sample_db shuffled_db"
  using verification_binds_contents [OF sample_verifies shuffled_verifies [unfolded sample_verifies] sample_storable]
  by (simp add: shuffled_verifies) (simp add: shuffled_db_def sample_db)

section \<open>Startup\<close>

definition fresh_store :: store where
  "fresh_store = \<lparr>central = empty_db\<lparr>journal_id := ''j''\<rparr>, audit = None, transactions = 0\<rparr>"

theorem protected_startup_witness:
  "\<exists>s' a oc. open_with_lock (\<lambda>_. None) True fresh_store = (Inr (), s') \<and> audit s' = Some a
    \<and> head a = Inr (anchor_revision (central s'), oc) \<and> oc \<noteq> Prepared"
proof -
  obtain s' where run: "open_with_lock (\<lambda>_. None) True fresh_store = (Inr (), s')"
    by (simp add: fresh_store_def open_with_lock_def initialize_audit_def followed_given followed_durable durable_def empty_db_def)
  then show ?thesis using protected_startup_is_vouched_for [OF run] by blast
qed

text \<open>A crash between the publication of the audit and its adoption.\<close>

definition crash :: recovery_faults where
  "crash st = (if st = CommitAdoption then Some RecoveryEvidence else None)"


section \<open>A recovery\<close>

abbreviation alice :: string where
  "alice \<equiv> ''00000000-07d0-7607-8809-0a0b0c0d0e0f''"

definition recovery_db :: db where
  "recovery_db = empty_db\<lparr>journal_id := ''j'', audit_required := True,
     principals := [new_principal alice ''Alice'' ''t0''], principal_names := [new_name ''alice'' alice ''t0''],
     credentials := [new_credential ''ca'' alice ''ha'' ''t0'']\<rparr>"

definition recovery_store :: store where
  "recovery_store = \<lparr>central = recovery_db,
     audit = Some \<lparr>au_format = 1, au_journal_id = ''j'', au_open = True, au_events = [baseline_event recovery_db],
       au_recovery_events = []\<rparr>, transactions = 0\<rparr>"

lemmas recovery_db = recovery_db_def empty_db_def new_principal_def new_name_def

lemma recovery_snapshot: "take_snapshot recovery_db = \<lparr>sn_schema_version = 13,
    sn_tables = [[[CText alice, CText ''Alice'', CText ''t0'', CNull, CNull, CInteger 1]],
      [[CText ''alice'', CText alice, CText ''current'', CText ''t0'']], [], [], [],
      [[CText ''ca'', CText alice, CText ''principal-client'', CText ''ha'', CText ''t0'', CNull, CNull, CNull, CNull]], [], [], []],
    sn_space_heads = [], sn_inbox_heads = []\<rparr>"
  by (simp add: take_snapshot_def recovery_db new_credential_def principal_cells_def name_cells_def credential_cells_def)

lemma recovery_restored: "\<exists>k. restore_security (\<lambda>_. ''t9'') (take_snapshot recovery_db) recovery_db
    = Inr (recovery_db\<lparr>credentials := [(new_credential ''ca'' alice ''ha'' ''t0'')\<lparr>cr_revoked_at := Some ''t9'',
        cr_reason := Some ''central restore''\<rparr>], total_changes := k\<rparr>)"
  unfolding recovery_snapshot
  by (simp add: restore_security_def SECURITY_TABLES_def security_rows_def validate_credential_history_def validate_bindings_def
      validate_security_history_def validate_history_def revoke_everything_def restore_row_def principal_of_cells_def
      restore_principal_names_def restore_name_row_def restore_name_def retire_other_names_def restore_credential_history_def
      restore_credential_row_def credential_of_cells_def upsert_credential_def restore_security_history_def
      upsert_principal_def upsert_def recovery_db new_credential_def credential_cells_def changed_def between_def sql_length_def
      chars_count_def is_continuation_def Let_def)

text \<open>The database reconciled at revision 1, in a run without failures.\<close>

definition recovered_db :: "nat \<Rightarrow> db" where
  "recovered_db k = recovery_db\<lparr>credentials := [(new_credential ''ca'' alice ''ha'' ''t0'')\<lparr>cr_revoked_at := Some ''t9'',
     cr_reason := Some ''central restore''\<rparr>], anchor_revision := 1, inbox_epoch := 1, total_changes := k\<rparr>"

lemma recovered_verifies: "\<exists>v. verify sample_crypto clean_probes (recovered_db k) = Inr v"
  by (simp add: verify_def clean_probes_def result_simps references_ok_def sequence_probe_def mailbox_attention_probe_def
      inbox_allocation_probe_def recovered_db_def recovery_db)

lemma recovery_run:
  obtains approval s' where
    "reconcile (\<lambda>_. None) (\<lambda>_. ''t9'') sample_crypto clean_probes True recovery_store = (Inr approval, s')"
proof -
  obtain k where k: "restore_security (\<lambda>_. ''t9'') (take_snapshot recovery_db) recovery_db
      = Inr (recovery_db\<lparr>credentials := [(new_credential ''ca'' alice ''ha'' ''t0'')\<lparr>cr_revoked_at := Some ''t9'',
          cr_reason := Some ''central restore''\<rparr>], total_changes := k\<rparr>)"
    using recovery_restored by blast
  obtain v where "verify sample_crypto clean_probes (recovered_db (Suc k)) = Inr v" using recovered_verifies by blast
  moreover have "changed (recovery_db\<lparr>credentials := [(new_credential ''ca'' alice ''ha'' ''t0'')\<lparr>cr_revoked_at := Some ''t9'',
          cr_reason := Some ''central restore''\<rparr>], total_changes := k, anchor_revision := 1, audit_required := True, inbox_epoch := 1\<rparr>)
      = recovered_db (Suc k)"
    by (simp add: changed_def recovered_db_def recovery_db_def)
  moreover have "references_ok (recovery_db\<lparr>credentials := [(new_credential ''ca'' alice ''ha'' ''t0'')\<lparr>cr_revoked_at := Some ''t9'',
          cr_reason := Some ''central restore''\<rparr>], total_changes := k\<rparr>)"
    by (simp add: references_ok_def recovery_db)
  moreover have "journal_id recovery_db = ''j''" "anchor_revision recovery_db = 0" by (simp_all add: recovery_db_def empty_db_def)
  ultimately show thesis
    using k that by (simp add: reconcile_def recovery_store_def followed_given followed_durable followed_assoc given_def durable_def
        close_def audit_file_def require_resolved_recovery_input_def head_def head_event_def head_snapshot_def baseline_event_def
        restored_database_def recovery_verification_unguarded_def client_inventory_def record_event_def i64_max_def Let_def)
qed


lemma recovery_ok: "schema_ok (central recovery_store)"
  by (simp add: ok_frame recovery_store_def recovery_db)

theorem recovery_completes_witness:
  "\<exists>approval s' s''. reconcile (\<lambda>_. None) (\<lambda>_. ''t9'') sample_crypto clean_probes True recovery_store = (Inr approval, s')
    \<and> reopen (\<lambda>_. None) sample_crypto clean_probes (approval\<lparr>ap_accepted_record_loss := True, ap_inventory_complete := True\<rparr>) s'
      = (Inr (), s'') \<and> audit_consistent s''"
proof -
  obtain approval s' where run: "reconcile (\<lambda>_. None) (\<lambda>_. ''t9'') sample_crypto clean_probes True recovery_store = (Inr approval, s')"
    by (rule recovery_run)
  have "audit recovery_store = Some \<lparr>au_format = 1, au_journal_id = ''j'', au_open = True, au_events = [baseline_event recovery_db],
       au_recovery_events = []\<rparr>" "audit_events_ok [baseline_event recovery_db]"
    by (simp_all add: recovery_store_def audit_events_ok_def)
  then show ?thesis using recovery_completes [OF run _ _ recovery_ok] run by fastforce
qed

text \<open>A reconciled store, and the approval with both attestations.\<close>

definition attested :: "recovery_verification \<Rightarrow> recovery_approval" where
  "attested v = \<lparr>ap_verification = v, ap_audit_revision = 1, ap_previous_space_heads = [], ap_reconciled_clients = [alice],
     ap_inventory_complete = True, ap_accepted_record_loss = True\<rparr>"

definition reconciled_store :: "recovery_verification \<Rightarrow> store" where
  "reconciled_store v = \<lparr>central = recovered_db 0, audit = Some \<lparr>au_format = 1, au_journal_id = ''j'', au_open = False,
     au_events = [baseline_event recovery_db, prepared_restore 1 (recovered_db 0)],
     au_recovery_events = [ClosedOffline, ReconciledAs ((attested v)\<lparr>ap_inventory_complete := False, ap_accepted_record_loss := False\<rparr>)]\<rparr>,
     transactions = 0\<rparr>"

theorem reopen_witness:
  "\<exists>v s'. reopen (\<lambda>_. None) sample_crypto clean_probes (attested v) (reconciled_store v) = (Inr (), s')
    \<and> verify sample_crypto clean_probes (recovered_db 0) = Inr (ap_verification (attested v))"
proof -
  obtain v where v: "verify sample_crypto clean_probes (recovered_db 0) = Inr v" using recovered_verifies by blast
  have central: "central (reconciled_store v) = recovered_db 0" by (simp add: reconciled_store_def)
  have "head (the (audit (reconciled_store v))) = Inr (1, Prepared)" "audit (reconciled_store v) = Some (the (audit (reconciled_store v)))"
      "last_reconciled (au_recovery_events (the (audit (reconciled_store v))))
        = Some ((attested v)\<lparr>ap_inventory_complete := False, ap_accepted_record_loss := False\<rparr>)"
    by (simp_all add: reconciled_store_def head_def head_event_def baseline_event_def prepared_restore_def)
  moreover have "list_all (\<lambda>c. cr_revoked_at c \<noteq> None) (credentials (recovered_db 0))"
      "approval_matches 1 ((attested v)\<lparr>ap_inventory_complete := False, ap_accepted_record_loss := False\<rparr>) v
        (sort (map pr_id (principals (recovered_db 0)))) (attested v) (recovered_db 0)"
    by (simp_all add: approval_matches_def attested_def recovered_db_def recovery_db)
  ultimately have run: "reopen (\<lambda>_. None) sample_crypto clean_probes (attested v) (reconciled_store v)
      = (Inr (), (reconciled_store v)\<lparr>audit := Some (resolved_audit 1 (attested v) (the (audit (reconciled_store v))))\<rparr>)"
    using v by (intro reopen_succeeds) (simp_all only: central)
  from reopen_needs_the_matching_approval [OF this] run show ?thesis by (auto simp: reconciled_store_def)
qed

end
