(* ===== verification/Daemon_Config.thy ===== *)
theory Daemon_Config
  imports Domain
begin

text \<open>
  The daemon's configuration (journald/src/config.rs): the command line, its checks and its
  defaults. Arguments are UTF-8 text. The standard library's parser of socket
  addresses and the limit of tokio's semaphores are parameters.
\<close>

section \<open>Configuration\<close>

datatype ip_addr = V4 "nat \<times> nat \<times> nat \<times> nat" | V6 "nat list"

record socket_addr =
  so_ip :: ip_addr
  so_port :: nat

fun is_loopback :: "ip_addr \<Rightarrow> bool" where
  "is_loopback (V4 (a, b, c, d)) \<longleftrightarrow> a = 127"
| "is_loopback (V6 segments) \<longleftrightarrow> segments = [0, 0, 0, 0, 0, 0, 0, 1]"

definition DEFAULT_BLOCKING_LIMIT :: nat where "DEFAULT_BLOCKING_LIMIT = 8"
definition DEFAULT_MAX_BODY_BYTES :: nat where "DEFAULT_MAX_BODY_BYTES = 1048576"
definition DEFAULT_BODY_READ_SECONDS :: nat where "DEFAULT_BODY_READ_SECONDS = 10"
definition DEFAULT_SHUTDOWN_SECONDS :: nat where "DEFAULT_SHUTDOWN_SECONDS = 15"
definition DEFAULT_PUBLIC_PORT :: nat where "DEFAULT_PUBLIC_PORT = 8080"

record web_config =
  wc_address :: socket_addr
  wc_viewer :: string

definition web_config_validate :: "web_config \<Rightarrow> bool" where
  "web_config_validate c \<longleftrightarrow> is_loopback (so_ip (wc_address c)) \<and> \<not> isl (validate_identifier ''viewer'' (wc_viewer c))"

record daemon_config =
  dc_database_path :: string
  dc_recovery_audit_path :: string
  dc_public_address :: socket_addr
  dc_admin_socket_path :: string
  dc_blocking_limit :: nat
  dc_max_body_bytes :: nat
  dc_body_read_seconds :: nat
  dc_shutdown_seconds :: nat
  dc_web :: "web_config option"

datatype daemon_config_error = HelpRequested | MissingOption string | MissingValue string | DuplicateOption string
  | UnknownOption string | InvalidOption string string

record config_slots =
  cs_database_path :: "string option"
  cs_recovery_audit_path :: "string option"
  cs_public_address :: "socket_addr option"
  cs_admin_socket_path :: "string option"
  cs_blocking_limit :: "nat option"
  cs_max_body_bytes :: "nat option"
  cs_web_address :: "socket_addr option"
  cs_web_viewer :: "string option"

record config_lib =
  cl_parse_addr :: "string \<Rightarrow> socket_addr option"
  cl_max_permits :: nat

definition set_once :: "'a option \<Rightarrow> 'a \<Rightarrow> string \<Rightarrow> daemon_config_error + 'a option" where
  "set_once slot v option = (if slot \<noteq> None then Inl (DuplicateOption option) else Inr (Some v))"

definition parse_positive_usize :: "string \<Rightarrow> string \<Rightarrow> daemon_config_error + nat" where
  "parse_positive_usize option v =
     (case parse_u64 v of
        Some n \<Rightarrow> if n > 0 then Inr n else Inl (InvalidOption option v)
      | None \<Rightarrow> Inl (InvalidOption option v))"

definition parse_blocking_limit :: "config_lib \<Rightarrow> string \<Rightarrow> string \<Rightarrow> daemon_config_error + nat" where
  "parse_blocking_limit L option v =
     (case parse_u64 v of
        Some n \<Rightarrow> if 1 \<le> n \<and> n \<le> cl_max_permits L then Inr n else Inl (InvalidOption option v)
      | None \<Rightarrow> Inl (InvalidOption option v))"

definition parse_address :: "config_lib \<Rightarrow> string \<Rightarrow> string \<Rightarrow> daemon_config_error + socket_addr" where
  "parse_address L option v = (case cl_parse_addr L v of Some a \<Rightarrow> Inr a | None \<Rightarrow> Inl (InvalidOption option v))"

text \<open>One option with its value; a value is checked before the option is found to be a duplicate.\<close>

definition set_option :: "config_lib \<Rightarrow> string \<Rightarrow> string \<Rightarrow> config_slots \<Rightarrow> daemon_config_error + config_slots" where
  "set_option L option v c =
     (if option = ''--database'' then
        and_then (set_once (cs_database_path c) v option) (\<lambda>x. Inr (c\<lparr>cs_database_path := x\<rparr>))
      else if option = ''--recovery-audit'' then
        and_then (set_once (cs_recovery_audit_path c) v option) (\<lambda>x. Inr (c\<lparr>cs_recovery_audit_path := x\<rparr>))
      else if option = ''--listen'' then
        and_then (parse_address L option v) (\<lambda>a.
        and_then (set_once (cs_public_address c) a option) (\<lambda>x. Inr (c\<lparr>cs_public_address := x\<rparr>)))
      else if option = ''--admin-socket'' then
        and_then (set_once (cs_admin_socket_path c) v option) (\<lambda>x. Inr (c\<lparr>cs_admin_socket_path := x\<rparr>))
      else if option = ''--web-listen'' then
        and_then (parse_address L option v) (\<lambda>a.
        if \<not> is_loopback (so_ip a) then Inl (InvalidOption option v)
        else and_then (set_once (cs_web_address c) a option) (\<lambda>x. Inr (c\<lparr>cs_web_address := x\<rparr>)))
      else if option = ''--web-viewer'' then
        if isl (validate_identifier ''viewer'' v) then Inl (InvalidOption option v)
        else and_then (set_once (cs_web_viewer c) v option) (\<lambda>x. Inr (c\<lparr>cs_web_viewer := x\<rparr>))
      else if option = ''--blocking-limit'' then
        and_then (parse_blocking_limit L option v) (\<lambda>n.
        and_then (set_once (cs_blocking_limit c) n option) (\<lambda>x. Inr (c\<lparr>cs_blocking_limit := x\<rparr>)))
      else if option = ''--max-body-bytes'' then
        and_then (parse_positive_usize option v) (\<lambda>n.
        and_then (set_once (cs_max_body_bytes c) n option) (\<lambda>x. Inr (c\<lparr>cs_max_body_bytes := x\<rparr>)))
      else Inl (UnknownOption option))"

fun parse_options :: "config_lib \<Rightarrow> string list \<Rightarrow> config_slots \<Rightarrow> daemon_config_error + config_slots" where
  "parse_options L [] c = Inr c"
| "parse_options L [option] c =
     (if option = ''--help'' \<or> option = ''-h'' then Inl HelpRequested else Inl (MissingValue option))"
| "parse_options L (option # v # rest) c =
     (if option = ''--help'' \<or> option = ''-h'' then Inl HelpRequested
      else and_then (set_option L option v c) (parse_options L rest))"

definition no_slots :: config_slots where
  "no_slots = \<lparr>cs_database_path = None, cs_recovery_audit_path = None, cs_public_address = None, cs_admin_socket_path = None,
     cs_blocking_limit = None, cs_max_body_bytes = None, cs_web_address = None, cs_web_viewer = None\<rparr>"

definition web_of :: "config_slots \<Rightarrow> daemon_config_error + web_config option" where
  "web_of c = (case (cs_web_address c, cs_web_viewer c) of
     (None, None) \<Rightarrow> Inr None
   | (Some address, Some viewer) \<Rightarrow> Inr (Some \<lparr>wc_address = address, wc_viewer = viewer\<rparr>)
   | (Some _, None) \<Rightarrow> Inl (MissingOption ''--web-viewer'')
   | (None, Some _) \<Rightarrow> Inl (MissingOption ''--web-listen''))"

definition or_default :: "'a option \<Rightarrow> 'a \<Rightarrow> 'a" where
  "or_default v d = (case v of Some x \<Rightarrow> x | None \<Rightarrow> d)"

definition config_parse :: "config_lib \<Rightarrow> string list \<Rightarrow> daemon_config_error + daemon_config" where
  "config_parse L arguments =
     and_then (parse_options L arguments no_slots) (\<lambda>c.
     and_then (web_of c) (\<lambda>web.
     and_then (ok_or (MissingOption ''--database'') (cs_database_path c)) (\<lambda>database.
     and_then (ok_or (MissingOption ''--recovery-audit'') (cs_recovery_audit_path c)) (\<lambda>audit.
     and_then (ok_or (MissingOption ''--admin-socket'') (cs_admin_socket_path c)) (\<lambda>socket.
     Inr \<lparr>dc_database_path = database, dc_recovery_audit_path = audit,
       dc_public_address = or_default (cs_public_address c) \<lparr>so_ip = V4 (127, 0, 0, 1), so_port = DEFAULT_PUBLIC_PORT\<rparr>,
       dc_admin_socket_path = socket, dc_blocking_limit = or_default (cs_blocking_limit c) DEFAULT_BLOCKING_LIMIT,
       dc_max_body_bytes = or_default (cs_max_body_bytes c) DEFAULT_MAX_BODY_BYTES,
       dc_body_read_seconds = DEFAULT_BODY_READ_SECONDS, dc_shutdown_seconds = DEFAULT_SHUTDOWN_SECONDS, dc_web = web\<rparr>)))))"

section \<open>Accepted configurations\<close>

definition slots_ok :: "config_lib \<Rightarrow> config_slots \<Rightarrow> bool" where
  "slots_ok L c \<longleftrightarrow> pred_option (\<lambda>a. is_loopback (so_ip a)) (cs_web_address c)
     \<and> pred_option (\<lambda>v. \<not> isl (validate_identifier ''viewer'' v)) (cs_web_viewer c)
     \<and> pred_option (\<lambda>n. 1 \<le> n \<and> n \<le> cl_max_permits L) (cs_blocking_limit c)
     \<and> pred_option (\<lambda>n. 1 \<le> n \<and> n < 2 ^ 64) (cs_max_body_bytes c)"

lemma parse_u64_bound: "parse_u64 v = Some n \<Longrightarrow> n < 2 ^ 64"
  by (auto simp: parse_unsigned_def Let_def split: if_splits)

lemma set_option_ok:
  assumes "set_option L option v c = Inr c'" "slots_ok L c"
  shows "slots_ok L c'"
  using assms parse_u64_bound [of v]
  by (auto simp: set_option_def slots_ok_def set_once_def parse_positive_usize_def parse_blocking_limit_def result_simps
      split: if_splits option.splits)

lemma parse_options_ok: "parse_options L args c = Inr c' \<Longrightarrow> slots_ok L c \<Longrightarrow> slots_ok L c'"
  by (induction L args c rule: parse_options.induct) (auto simp: result_simps dest: set_option_ok split: if_splits)

text \<open>A configuration that is accepted shows the viewer on the loopback interface only and under a valid
  principal, and its limits are within bounds, provided the default of eight permits is.\<close>

lemma accepted_configuration_is_safe:
  assumes "config_parse L args = Inr c" "DEFAULT_BLOCKING_LIMIT \<le> cl_max_permits L"
  shows "pred_option web_config_validate (dc_web c) \<and> 1 \<le> dc_blocking_limit c \<and> dc_blocking_limit c \<le> cl_max_permits L
    \<and> 1 \<le> dc_max_body_bytes c \<and> dc_max_body_bytes c < 2 ^ 64"
proof -
  obtain s where s: "parse_options L args no_slots = Inr s" using assms(1) by (auto simp: config_parse_def result_simps)
  have "slots_ok L no_slots" by (simp add: slots_ok_def no_slots_def)
  with s have "slots_ok L s" by (rule parse_options_ok)
  then show ?thesis
    using assms s
    by (auto simp: config_parse_def slots_ok_def web_of_def web_config_validate_def or_default_def result_simps
        DEFAULT_BLOCKING_LIMIT_def DEFAULT_MAX_BODY_BYTES_def split: option.splits)
qed

text \<open>No option is taken twice: what is set stays what it is.\<close>

definition slots_kept :: "config_slots \<Rightarrow> config_slots \<Rightarrow> bool" where
  "slots_kept c c' \<longleftrightarrow> (cs_database_path c \<noteq> None \<longrightarrow> cs_database_path c' = cs_database_path c)
     \<and> (cs_recovery_audit_path c \<noteq> None \<longrightarrow> cs_recovery_audit_path c' = cs_recovery_audit_path c)
     \<and> (cs_public_address c \<noteq> None \<longrightarrow> cs_public_address c' = cs_public_address c)
     \<and> (cs_admin_socket_path c \<noteq> None \<longrightarrow> cs_admin_socket_path c' = cs_admin_socket_path c)
     \<and> (cs_web_address c \<noteq> None \<longrightarrow> cs_web_address c' = cs_web_address c)
     \<and> (cs_web_viewer c \<noteq> None \<longrightarrow> cs_web_viewer c' = cs_web_viewer c)
     \<and> (cs_blocking_limit c \<noteq> None \<longrightarrow> cs_blocking_limit c' = cs_blocking_limit c)
     \<and> (cs_max_body_bytes c \<noteq> None \<longrightarrow> cs_max_body_bytes c' = cs_max_body_bytes c)"

lemma set_option_kept: "set_option L option v c = Inr c' \<Longrightarrow> slots_kept c c'"
  by (auto simp: set_option_def set_once_def slots_kept_def result_simps split: if_splits)

lemma slots_kept_trans: "slots_kept a b \<Longrightarrow> slots_kept b c \<Longrightarrow> slots_kept a c"
  by (auto simp: slots_kept_def)

lemma options_are_set_once: "parse_options L args c = Inr c' \<Longrightarrow> slots_kept c c'"
proof (induction L args c rule: parse_options.induct)
  case (3 L option v rest c)
  then obtain c1 where c1: "set_option L option v c = Inr c1" "parse_options L rest c1 = Inr c'"
    by (auto simp: result_simps split: if_splits)
  moreover have "\<not> (option = ''--help'' \<or> option = ''-h'')" using 3(2) by auto
  ultimately show ?case using 3(1) set_option_kept slots_kept_trans by blast
qed (auto simp: slots_kept_def split: if_splits)

end
