(* ===== verification/Spec2Isabelle.thy ===== *)
theory Spec2Isabelle
  imports Sample_Http Sample_Worker Sample_Recovery Daemon_Config
begin

text \<open>
  agent-journal: an append-only journal of records for agents, with an inbox per recipient. This
  development translates its Rust sources (under src/crates) into HOL definitions and proves what
  the parts promise to each other and to their users.

  \<^bold>\<open>The program.\<close> A daemon (journald) keeps one SQLite database. Clients register principals and
  append records to spaces over HTTP; a record may relate to older records and may name recipients,
  each of whom gets an inbox item. Every mutation runs in one audited transaction: an intent is
  written to a second database, the recovery audit, before the commit, and completed after it, so
  that a crash or a restored backup is recognised at the next startup. A worker polls an inbox,
  hands items to an agent's runtime and acknowledges them. A web viewer shows the journal as pages.

  \<^bold>\<open>Foundations.\<close> \<open>Prelude\<close> holds Rust's results as sums, strings as byte lists with scalar counting,
  ordered maps with their locale \<open>ordered_map\<close>, and shared list lemmas. \<open>Domain\<close> is journal-domain: types,
  limits, \<open>validate\<close>. \<open>Wire\<close> is the request, query and path types of journal-protocol/src/dto.rs;
  \<open>Query_Codec\<close>, \<open>Json_Value\<close> and \<open>Cursor\<close> are query.rs, json.rs, cursor.rs and canonical.rs of the same
  crate; \<open>Documents\<close> is the JSON the service stores and reads back. The lemmas here are round trips
  (cursors, queries, documents), exact characterisations of the accepted inputs, and the binding of a
  cursor to the listing it was issued for.

  \<^bold>\<open>Storage.\<close> \<open>Schema\<close> has a record per table of migrations/0001\_uuid\_native.sql, a table being the list of
  its rows in rowid order, and one function per statement the service executes, with triggers, checks
  and keys in the order SQLite applies them. \<open>Storage\<close> is \<open>with_transaction_for\<close> of
  journal-storage-sqlite/src/lib.rs with the audit's protocol around the commit; every call that
  can fail is a step that the environment may make fail. Shown: a transaction is atomic or reports an
  ambiguous commit, an unresolved intent refuses every write, and the audit stays consistent.

  \<^bold>\<open>Service.\<close> \<open>Service_Base\<close> has the state-passing programs, clock and random sources; \<open>Integrity\<close> the
  relational invariant \<open>schema_ok\<close> and that each statement keeps it; \<open>Bootstrap\<close>, \<open>Records\<close>, \<open>Inbox\<close> and
  \<open>Search\<close> the public methods of journal-service (bootstrap.rs, records.rs, inbox.rs) one by one, each with
  its inner transaction; \<open>Threads\<close> the bounded thread traversal, \<open>Paging\<close> the locales of keyset
  pagination with their interpretations for the listings. \<open>Service\<close> composes them: the requests as a
  datatype, \<open>serve\<close>, the step relation and reachability. The locale \<open>step_order\<close> and its extensions
  \<open>db_step_order\<close> and \<open>service_order\<close> carry any preorder that the statements respect to all programs and
  requests; the schema invariant, the audit's consistency, the growth of the journal, the simulation
  below and the invariants of the verification are its interpretations. Shown per operation: what
  success stores, replay, refusal and privacy; for the whole: every reachable state is sound and
  records are immutable.

  \<^bold>\<open>The abstract journal.\<close> \<open>Refinement\<close> states the promise without tables: a log of records and an inbox
  per principal, with two kinds of step. Every request in every reachable state maps to steps of
  it, and numbering without gaps follows.

  \<^bold>\<open>Recovery.\<close> \<open>Verification\<close> is recovery.rs (probes and table hashes): it accepts every reachable state and
  binds contents up to hash collisions. \<open>Restore\<close> is \<open>restore_security\<close> of recovery\_audit.rs, \<open>Recovery\<close> the life
  of the audit itself: admission and creation at startup, close, backup, reconcile, reopen. Shown:
  a reconciliation leaves no live authority, the approval it returns and only that one reopens the
  journal, a protected startup is vouched for, and creation survives a failure at any step.

  \<^bold>\<open>Interfaces.\<close> \<open>Api\<close> has the JSON bodies in both directions, \<open>Http\<close> the routers, middleware and handlers of
  journald/src/http.rs and executor.rs, \<open>Web\<close> the pages and router of web.rs and web\_render.rs,
  \<open>Daemon_Config\<close> the command line of config.rs, \<open>Client\<close> journal-client. Shown: nothing is done for a request
  without a live credential, nor an administrative one from another user; each client call is read
  back by the daemon as the call that was made; every page of the viewer consists of escaped text and
  the viewer's own tags, and viewing changes nothing; an accepted configuration shows the viewer on the
  loopback interface only.

  \<^bold>\<open>Delivery to agents.\<close> \<open>Worker\<close> and \<open>Worker_Cli\<close> are journal-inbox-worker, \<open>Spool\<close> the file runtime and the Muse
  runtime, which publish an item as a file, and \<open>Hermes\<close> the runtime that submits it to a service. Shown: the
  worker acknowledges only what a runtime accepted, within its bounds, and works off its page; what
  the file runtimes accept survives a crash, no published file is ever damaged or torn, and an
  interrupted handoff can be repeated; what Hermes accepts was admitted under the item's own key. The
  system calls of \<open>Spool\<close> are steps with injected faults and interference, reasoned about with
  \<open>triple\<close>; the locale \<open>drop_point\<close> states what both file runtimes share and is interpreted for each.

  \<^bold>\<open>Concrete runs.\<close> \<open>Samples\<close>, \<open>Sample_Journal\<close>, \<open>Sample_Http\<close>, \<open>Sample_Worker\<close> and \<open>Sample_Recovery\<close> instantiate every
  parameter with an executable function and apply each property with hypotheses to a run.

  \<^bold>\<open>Parameters.\<close> Code that is not in the repository is an argument: the JSON text layer, form encoding,
  SHA-256, HMAC and base64, SQLite's full-text engine and integrity check, axum's route matching and
  extractor, the clock and the random source, the transport, the Markdown parser,
  Hermes and its HTTP client, and, for the worker, the agent's runtime. A theorem that relies on
  one states what it relies on as a hypothesis.

  \<^bold>\<open>Bounds and fuel.\<close> Numbers that the code keeps in \<open>i64\<close> or \<open>usize\<close> are int and nat with the checked
  additions and range checks of the source written out. The thread traversals carry the source's own
  limits on depth and size. Loops over listings are recursions over the rows they visit; the reading
  of an inbox page by page takes one round per page, and \<open>inbox_is_read_completely\<close> shows that this
  many rounds reach the end. The worker's run loop is a sequence of ticks of any length.

  \<^bold>\<open>Not modelled.\<close> File permissions, directory handles, advisory locks and the staging of files in the
  audit, and the copies of database files in crash\_recovery.rs (their effect depends on the kernel and on SQLite,
  not on values the code computes); migrations; the timestamps in the audit's status; sockets, signals
  and process start-up in journald's server.rs and main.rs; argument parsing and printing in aj and
  aj-admin; the main programs that join the worker with a runtime, and the recording runtime of the
  conformance tests; the operational metrics, a reading of file sizes and one count; logging.
\<close>

section \<open>The service as a whole\<close>



text \<open>C15. Records are immutable and never lost: a record that can be read in some state of the
  service reads the same, relations and recipients included, after any sequence of requests,
  successful or not.\<close>

theorem records_are_immutable:
  assumes "(step E)\<^sup>*\<^sup>* (s, z) (s', z')" "record_of (central s) i = Inr r"
  shows "record_of (central s') i = Inr r"
  using journal_service.steps_related [OF growing_transactions assms(1)] record_of_grows [OF assms(2)] by simp

theorem records_are_immutable_witness:
  "\<exists>s z r. serve sample_env sample_append (sample_store, sources0) = (Inr (), s, z)
    \<and> record_of sample_db ''r1'' = Inr r \<and> record_of (central s) ''r1'' = Inr r"
proof -
  obtain v s z where run: "transaction sample_env (append_record_tx sample_env token_a ''s'' ''k'' sample_note) (sample_store, sources0)
      = (Inr v, s, z)"
    using transaction_run unfolding transaction_def sample_env_def by (auto simp: sample_env_def [symmetric])
  have served: "serve sample_env sample_append (sample_store, sources0) = (Inr (), s, z)"
    using run by (simp add: void_def append_record_def chars_count_def is_continuation_def guard_def ret_def bind_def)
  obtain r where r: "record_of sample_db ''r1'' = Inr r"
    using record_of_exists [OF sample_ok, of "''r1''"] by (auto simp: sample_db)
  have "record_of (central s) ''r1'' = Inr r"
    by (rule records_are_immutable [of sample_env sample_store sources0 s z])
      (use step.served [OF served] r in \<open>auto simp: sample_store_def\<close>)
  with served r show ?thesis by blast
qed

end
